(* ===== verification/Prelude.thy ===== *)
theory Prelude
  imports Main "HOL-Library.Word"
begin

text \<open>
  Shared vocabulary of the development: the collections of facts the component theories
  fill and use, the types that stand for the Go types of the service, and the generic
  facts on lists and sums that more than one component needs.

  \<^item> \<open>uuid\<close> is \<^verbatim>\<open>uuid.UUID\<close>, sixteen bytes read as one big-endian number, so that the
    order of the numbers is the bytewise order PostgreSQL uses on the type \<^verbatim>\<open>uuid\<close>.
  \<^item> \<open>time\<close> is the instant of a \<^verbatim>\<open>time.Time\<close>: nanoseconds since 1970-01-01T00:00:00Z.
    The service compares instants and always calls \<^verbatim>\<open>UTC()\<close> before it formats one, so
    the location pointer carries nothing it uses.
  \<^item> a Go \<^verbatim>\<open>string\<close> is a list of bytes, HOL's \<open>string\<close>.
  \<^item> \<open>int64\<close> and \<open>duration\<close> keep their width.
\<close>

named_theorems frame \<open>what an operation leaves unchanged\<close>
named_theorems err \<open>how errors are wrapped, compared and printed\<close>
named_theorems keeps \<open>operations that keep the invariant of the tables\<close>

type_synonym uuid = "128 word"
type_synonym time = int
type_synonym int64 = "64 word"
type_synonym duration = "64 word"
type_synonym bytes = "string"

text \<open>\<^verbatim>\<open>uuid.Nil\<close> and the zero \<^verbatim>\<open>time.Time\<close> (January 1 of the year 1).\<close>

definition uuid_Nil :: uuid where
  "uuid_Nil = 0"

definition nanos_per_second :: int where
  "nanos_per_second = 1000000000"

definition time_zero :: time where
  "time_zero = - 62135596800 * nanos_per_second"

text \<open>\<^verbatim>\<open>t.Before(u)\<close> and \<^verbatim>\<open>t.IsZero()\<close>.\<close>

definition Before :: "time \<Rightarrow> time \<Rightarrow> bool" where
  "Before t u \<longleftrightarrow> t < u"

definition IsZero :: "time \<Rightarrow> bool" where
  "IsZero t \<longleftrightarrow> t = time_zero"

section \<open>Lists with unique keys\<close>

lemma distinct_map_unique:
  assumes "distinct (map f xs)" and "x \<in> set xs" and "y \<in> set xs" and "f x = f y"
  shows "x = y"
  using assms by (auto simp: distinct_map dest: inj_onD)

lemma find_unique:
  assumes "distinct (map f xs)" and "x \<in> set xs"
  shows "find (\<lambda>y. f y = f x) xs = Some x"
  using assms
proof (induction xs)
  case Nil
  then show ?case by simp
next
  case (Cons z zs)
  then show ?case by (cases "f z = f x") (auto dest: imageI [where f = f])
qed

lemma key_in_image: "k x \<in> k ` set xs \<longleftrightarrow> (\<exists>y \<in> set xs. k y = k x)"
  unfolding image_iff by metis

lemma find_Some_mem: "find P xs = Some x \<Longrightarrow> x \<in> set xs \<and> P x"
  by (induction xs) (auto split: if_splits)

lemma find_None_mem: "find P xs = None \<longleftrightarrow> (\<forall>x \<in> set xs. \<not> P x)"
  by (induction xs) auto

lemma find_filter: "find P xs = (case filter P xs of [] \<Rightarrow> None | x # _ \<Rightarrow> Some x)"
  by (induction xs) auto

text \<open>Updating the rows a \<^verbatim>\<open>WHERE\<close> clause selects.\<close>

definition update_where :: "('a \<Rightarrow> bool) \<Rightarrow> ('a \<Rightarrow> 'a) \<Rightarrow> 'a list \<Rightarrow> 'a list" where
  "update_where P f = map (\<lambda>x. if P x then f x else x)"

lemma length_update_where [simp]: "length (update_where P f xs) = length xs"
  by (simp add: update_where_def)

lemma update_where_Nil [simp]: "update_where P f [] = []"
  by (simp add: update_where_def)

lemma update_where_Cons [simp]:
  "update_where P f (x # xs) = (if P x then f x else x) # update_where P f xs"
  by (simp add: update_where_def)

lemma map_update_where_same:
  assumes "\<And>x. P x \<Longrightarrow> g (f x) = g x"
  shows "map g (update_where P f xs) = map g xs"
  using assms by (simp add: update_where_def)

lemma set_update_where: "set (update_where P f xs) = f ` {x \<in> set xs. P x} \<union> {x \<in> set xs. \<not> P x}"
  by (auto simp: update_where_def)

lemma update_where_none: "(\<And>x. x \<in> set xs \<Longrightarrow> \<not> P x) \<Longrightarrow> update_where P f xs = xs"
  by (induction xs) auto

lemma find_update_where_same:
  assumes "\<And>x. k (f x) = k x"
  shows "find (\<lambda>x. k x = a) (update_where (\<lambda>x. k x = a) f xs) =
    map_option f (find (\<lambda>x. k x = a) xs)"
  by (induction xs) (auto simp: assms)

lemma find_update_where_other:
  assumes "\<And>x. k (f x) = k x" and "a \<noteq> b"
  shows "find (\<lambda>x. k x = b) (update_where (\<lambda>x. k x = a) f xs) = find (\<lambda>x. k x = b) xs"
  using assms(2) by (induction xs) (auto simp: assms(1))

section \<open>Results and errors as sums\<close>

lemma sum_case_Inl_iff:
  "(case r of Inl e \<Rightarrow> Inl (f e) | Inr x \<Rightarrow> Inr x) = Inr y \<longleftrightarrow> r = Inr y"
  by (cases r) auto

lemma split_pairs_sum:
  "(\<And>e w. r = (Inl e, w) \<Longrightarrow> P) \<Longrightarrow> (\<And>x w. r = (Inr x, w) \<Longrightarrow> P) \<Longrightarrow> P"
  by (metis old.sum.exhaust surj_pair)

end
