(* ===== verification/GoTime.thy ===== *)
theory GoTime
  imports Prelude "HOL-Library.Monad_Syntax"
begin

text \<open>
  What the service uses of Go's package time: an instant printed in UTC with the layouts
  RFC3339 and RFC3339Nano, and \<^verbatim>\<open>time.Parse\<close> with the same layouts, leniencies included (an
  hour of one digit, a comma before the fraction, more than nine fraction digits, offsets
  up to 24:60). The calendar counts days from 1 March of the year 0, so that the leap day
  is the last of a year and the cycles of 400, 100, 4 and 1 years nest.
\<close>

section \<open>The calendar\<close>

definition isLeap :: "int \<Rightarrow> bool" where
  "isLeap y \<longleftrightarrow> y mod 4 = 0 \<and> (y mod 100 \<noteq> 0 \<or> y mod 400 = 0)"

definition daysIn :: "int \<Rightarrow> int \<Rightarrow> int" where
  "daysIn m y =
     (if m = 2 then (if isLeap y then 29 else 28)
      else if m = 4 \<or> m = 6 \<or> m = 9 \<or> m = 11 then 30 else 31)"

definition days_of_civil :: "int \<Rightarrow> int \<Rightarrow> int \<Rightarrow> int" where
  "days_of_civil y m d =
     (let y' = (if m \<le> 2 then y - 1 else y);
          mp = (if m > 2 then m - 3 else m + 9);
          yoe = y' mod 400
      in (y' div 400) * 146097 + (yoe * 365 + yoe div 4 - yoe div 100)
         + ((153 * mp + 2) div 5 + d - 1) - 719468)"

text \<open>The year of the 400-year cycle, counted from March, and the day of that year.\<close>

definition year_of_era :: "int \<Rightarrow> int \<times> int" where
  "year_of_era doe =
     (let c = min 3 (doe div 36524);
          r = doe - 36524 * c;
          q = r div 1461;
          s = r mod 1461;
          a = min 3 (s div 365)
      in (100 * c + 4 * q + a, s - 365 * a))"

definition civil_of_days :: "int \<Rightarrow> int \<times> int \<times> int" where
  "civil_of_days z =
     (let z' = z + 719468;
          (yoe, doy) = year_of_era (z' mod 146097);
          mp = (5 * doy + 2) div 153;
          d = doy - (153 * mp + 2) div 5 + 1;
          m = (if mp < 10 then mp + 3 else mp - 9)
      in ((z' div 146097) * 400 + yoe + (if m \<le> 2 then 1 else 0), m, d))"

lemma year_of_era_bounds:
  assumes "0 \<le> doe" "doe < 146097" and "year_of_era doe = (yoe, doy)"
  shows "0 \<le> yoe" "yoe < 400" "0 \<le> doy" "doy \<le> 365"
    "365 * yoe + yoe div 4 - yoe div 100 + doy = doe"
    "doy = 365 \<Longrightarrow> yoe mod 4 = 3 \<and> (yoe mod 100 \<noteq> 99 \<or> yoe = 399)"
proof -
  define c where "c = min 3 (doe div 36524)"
  define r where "r = doe - 36524 * c"
  define q where "q = r div 1461"
  define s where "s = r mod 1461"
  define a where "a = min 3 (s div 365)"
  have yd: "yoe = 100 * c + 4 * q + a" "doy = s - 365 * a"
    using assms(3) by (auto simp: year_of_era_def Let_def c_def r_def q_def s_def a_def)
  have c: "0 \<le> c" "c \<le> 3" using assms by (auto simp: c_def)
  have r: "0 \<le> r" "r \<le> 36524" "c < 3 \<Longrightarrow> r < 36524"
    using assms unfolding r_def c_def by linarith+
  have q: "0 \<le> q" "q \<le> 24" using r unfolding q_def by linarith+
  have s: "0 \<le> s" "s < 1461" "r = 1461 * q + s" unfolding s_def q_def by auto
  have a: "0 \<le> a" "a \<le> 3" using s by (auto simp: a_def)
  have doy: "0 \<le> doy" "doy \<le> 365" "doy = 365 \<Longrightarrow> a = 3 \<and> s = 1460"
    using s unfolding yd a_def by linarith+
  have y4: "yoe = 4 * (25 * c + q) + a" and y100: "yoe = 100 * c + (4 * q + a)"
    by (simp_all add: yd)
  have d4: "yoe div 4 = 25 * c + q" and m4: "yoe mod 4 = a"
    using int_div_pos_eq [OF y4] int_mod_pos_eq [OF y4] a by simp_all
  have d100: "yoe div 100 = c" and m100: "yoe mod 100 = 4 * q + a"
    using int_div_pos_eq [OF y100] int_mod_pos_eq [OF y100] a q by simp_all
  show "0 \<le> yoe" "yoe < 400" using a q c unfolding yd by linarith+
  show "0 \<le> doy" "doy \<le> 365" using doy by auto
  show "365 * yoe + yoe div 4 - yoe div 100 + doy = doe"
    unfolding d4 d100 using yd s(3) r_def by linarith
  assume "doy = 365"
  with doy have as: "a = 3" "s = 1460" by auto
  have "yoe mod 100 \<noteq> 99 \<or> yoe = 399"
  proof (cases "q = 24")
    case True
    with as s(3) r c have "c = 3" by linarith
    with True as yd show ?thesis by simp
  next
    case False
    with as m100 show ?thesis by linarith
  qed
  with m4 as show "yoe mod 4 = 3 \<and> (yoe mod 100 \<noteq> 99 \<or> yoe = 399)" by simp
qed

text \<open>The month of a day counted from 1 March.\<close>

lemma month_of_doy:
  fixes doy :: int
  assumes "0 \<le> doy" "doy \<le> 365"
  defines "mp \<equiv> (5 * doy + 2) div 153"
  defines "d \<equiv> doy - (153 * mp + 2) div 5 + 1"
  shows "0 \<le> mp" "mp \<le> 11" "1 \<le> d"
    "d \<le> (if mp = 11 then 29 else if mp \<in> {1, 3, 6, 8} then 30 else 31)"
    "mp = 11 \<Longrightarrow> d = 29 \<Longrightarrow> doy = 365"
proof -
  have mp: "0 \<le> mp" "mp \<le> 11" "153 * mp \<le> 5 * doy + 2" "5 * doy + 2 < 153 * mp + 153"
    using assms(1,2) unfolding mp_def by linarith+
  show "0 \<le> mp" "mp \<le> 11" by (fact mp)+
  have cases: "mp = 0 \<or> mp = 1 \<or> mp = 2 \<or> mp = 3 \<or> mp = 4 \<or> mp = 5 \<or> mp = 6 \<or> mp = 7 \<or>
    mp = 8 \<or> mp = 9 \<or> mp = 10 \<or> mp = 11"
    using mp(1,2) by arith
  show "1 \<le> d" using cases mp(3) unfolding d_def by (elim disjE) auto
  show "d \<le> (if mp = 11 then 29 else if mp \<in> {1, 3, 6, 8} then 30 else 31)"
    using cases mp(4) assms(2) unfolding d_def by (elim disjE) auto
  show "mp = 11 \<Longrightarrow> d = 29 \<Longrightarrow> doy = 365"
    unfolding d_def by auto
qed

lemma isLeap_era:
  assumes "yoe mod 4 = 3" and "yoe mod 100 \<noteq> 99 \<or> yoe = 399"
  shows "isLeap (era * 400 + yoe + 1)"
proof -
  have shift: "(era * 400 + yoe + 1) mod 4 = (yoe + 1) mod 4"
      "(era * 400 + yoe + 1) mod 100 = (yoe + 1) mod 100"
    using mod_mult_self1 [of "yoe + 1" "100 * era" 4] mod_mult_self1 [of "yoe + 1" "4 * era" 100]
    by (simp_all add: algebra_simps)
  have "(era * 400 + yoe + 1) mod 4 = 0" unfolding shift
    using mod_add_left_eq [of yoe 4 1] assms(1) by simp
  moreover have "(era * 400 + yoe + 1) mod 100 \<noteq> 0 \<or> (era * 400 + yoe + 1) mod 400 = 0"
    using assms(2)
  proof
    assume "yoe mod 100 \<noteq> 99"
    then have "(yoe + 1) mod 100 \<noteq> 0" using mod_diff_left_eq [of "yoe + 1" 100 1] by auto
    then show ?thesis unfolding shift ..
  qed simp
  ultimately show ?thesis by (simp add: isLeap_def)
qed

lemma civil_of_days_valid:
  assumes "civil_of_days z = (y, m, d)"
  shows "1 \<le> m" "m \<le> 12" "1 \<le> d" "d \<le> daysIn m y" "days_of_civil y m d = z"
proof -
  define era where "era = (z + 719468) div 146097"
  define doe where "doe = (z + 719468) mod 146097"
  obtain yoe doy where yd: "year_of_era doe = (yoe, doy)" by (cases "year_of_era doe")
  define mp where "mp = (5 * doy + 2) div 153"
  have doe: "0 \<le> doe" "doe < 146097" by (auto simp: doe_def)
  note era_bounds = year_of_era_bounds [OF doe yd]
  have eqs: "y = era * 400 + yoe + (if m \<le> 2 then 1 else 0)"
    "m = (if mp < 10 then mp + 3 else mp - 9)" "d = doy - (153 * mp + 2) div 5 + 1"
    using assms yd unfolding civil_of_days_def era_def doe_def mp_def by (auto simp: Let_def)
  note month = month_of_doy [OF era_bounds(3,4), folded mp_def, folded eqs(3)]
  show "1 \<le> m" "m \<le> 12" "1 \<le> d" using month(1-3) by (auto simp: eqs(2))
  have leap: "isLeap y" if "mp = 11" "d = 29"
  proof -
    have "yoe mod 4 = 3" "yoe mod 100 \<noteq> 99 \<or> yoe = 399"
      using era_bounds(6) month(5) that by auto
    moreover have "y = era * 400 + yoe + 1" using that(1) by (simp add: eqs)
    ultimately show ?thesis by (simp add: isLeap_era)
  qed
  have feb: "m = 2 \<longleftrightarrow> mp = 11" using month(1,2) by (simp add: eqs(2))
  have small: "mp \<in> {1, 3, 6, 8} \<longleftrightarrow> m = 4 \<or> m = 6 \<or> m = 9 \<or> m = 11"
    using month(1,2) by (auto simp: eqs(2))
  show "d \<le> daysIn m y"
    using month(4) leap unfolding daysIn_def feb small [symmetric]
    by (cases "d = 29") (auto split: if_splits)
  define y' where "y' = (if m \<le> 2 then y - 1 else y)"
  have y': "y' = 400 * era + yoe" by (simp add: y'_def eqs(1))
  have "y' div 400 = era" "y' mod 400 = yoe"
    using int_div_pos_eq [OF y'] int_mod_pos_eq [OF y'] era_bounds(1,2) by auto
  moreover have "(if m > 2 then m - 3 else m + 9) = mp" using month(1,2) by (auto simp: eqs(2))
  ultimately have "days_of_civil y m d =
    era * 146097 + (yoe * 365 + yoe div 4 - yoe div 100) + ((153 * mp + 2) div 5 + d - 1) - 719468"
    by (simp add: days_of_civil_def Let_def y'_def)
  also have "\<dots> = era * 146097 + doe - 719468" using era_bounds(5) eqs(3) by linarith
  also have "\<dots> = z" by (simp add: era_def doe_def)
  finally show "days_of_civil y m d = z" .
qed

text \<open>The year of an instant, in UTC.\<close>

definition nanos_per_day :: int where
  "nanos_per_day = 86400 * nanos_per_second"

definition Year :: "time \<Rightarrow> int" where
  "Year t = fst (civil_of_days (t div nanos_per_day))"

section \<open>Digits\<close>

definition digit :: "nat \<Rightarrow> char" where
  "digit n = char_of (48 + n mod 10)"

definition is_digit :: "char \<Rightarrow> bool" where
  "is_digit c \<longleftrightarrow> 48 \<le> (of_char c :: nat) \<and> (of_char c :: nat) \<le> 57"

definition digit_val :: "char \<Rightarrow> nat" where
  "digit_val c = of_char c - 48"

fun dec :: "nat \<Rightarrow> string" where
  "dec n = (if n < 10 then [digit n] else dec (n div 10) @ [digit n])"

declare dec.simps [simp del]

definition pad_zeros :: "nat \<Rightarrow> string \<Rightarrow> string" where
  "pad_zeros w s = replicate (w - length s) CHR ''0'' @ s"

definition appendInt :: "int \<Rightarrow> nat \<Rightarrow> string" where
  "appendInt x w = (if x < 0 then ''-'' else []) @ pad_zeros w (dec (nat \<bar>x\<bar>))"

definition digits_val :: "string \<Rightarrow> nat" where
  "digits_val = foldl (\<lambda>v c. v * 10 + digit_val c) 0"

lemma of_char_digit: "(of_char (digit n) :: nat) = 48 + n mod 10"
  by (simp add: digit_def)

lemma is_digit_digit [simp]: "is_digit (digit n)"
proof -
  have "n mod 10 < 10" by simp
  then show ?thesis unfolding is_digit_def of_char_digit by linarith
qed

lemma digit_val_digit [simp]: "digit_val (digit n) = n mod 10"
  by (simp add: digit_val_def of_char_digit)

lemma is_digit_zero [simp]: "is_digit CHR ''0''" "digit_val CHR ''0'' = 0"
  by (simp_all add: is_digit_def digit_val_def)

lemma digits_val_Nil [simp]: "digits_val [] = 0"
  by (simp add: digits_val_def)

lemma digits_val_snoc [simp]: "digits_val (s @ [c]) = digits_val s * 10 + digit_val c"
  by (simp add: digits_val_def)

lemma digits_val_zeros_append: "digits_val (replicate k CHR ''0'' @ s) = digits_val s"
proof (induction s rule: rev_induct)
  case Nil
  have "digits_val (replicate k CHR ''0'') = 0"
    by (induction k) (simp_all add: digits_val_def)
  then show ?case by simp
next
  case (snoc c s)
  then show ?case by (metis append_assoc digits_val_snoc)
qed

lemma digits_val_append_zeros: "digits_val (s @ replicate k CHR ''0'') = digits_val s * 10 ^ k"
  by (induction k) (simp_all add: replicate_append_same [symmetric] digits_val_def)

lemma digits_val_dec: "digits_val (dec n) = n"
proof (induction n rule: dec.induct)
  case (1 n)
  then show ?case
    by (cases "n < 10") (simp_all add: dec.simps [of n] digits_val_def)
qed

lemma digits_dec: "\<forall>c \<in> set (dec n). is_digit c"
proof (induction n rule: dec.induct)
  case (1 n)
  then show ?case by (cases "n < 10") (simp_all add: dec.simps [of n])
qed

lemma dec_not_Nil: "dec n \<noteq> []"
  by (subst dec.simps) simp

lemma length_dec: "0 < k \<Longrightarrow> n < 10 ^ k \<Longrightarrow> length (dec n) \<le> k"
proof (induction n arbitrary: k rule: dec.induct)
  case (1 n)
  show ?case
  proof (cases "n < 10")
    case True
    with 1 show ?thesis by (simp add: dec.simps [of n])
  next
    case False
    with "1.prems" obtain j where j: "k = Suc j" "0 < j" by (cases k; cases "k - 1") auto
    with "1.prems" have "n div 10 < 10 ^ j" by (simp add: less_mult_imp_div_less mult.commute)
    with "1.IH" False j show ?thesis by (simp add: dec.simps [of n])
  qed
qed

lemma length_pad_dec: "0 < w \<Longrightarrow> n < 10 ^ w \<Longrightarrow> length (pad_zeros w (dec n)) = w"
  using length_dec by (simp add: pad_zeros_def)

lemma digits_pad_dec: "c \<in> set (pad_zeros w (dec n)) \<Longrightarrow> is_digit c"
  using digits_dec by (auto simp: pad_zeros_def)

lemma digits_val_pad_dec: "digits_val (pad_zeros w (dec n)) = n"
  by (simp add: pad_zeros_def digits_val_zeros_append digits_val_dec)

section \<open>Printing an instant\<close>

text \<open>\<open>format_date_time\<close> is the part the two layouts share, up to the seconds.\<close>

definition format_date_time :: "time \<Rightarrow> string" where
  "format_date_time t =
     (let (y, m, d) = civil_of_days (t div nanos_per_day);
          sec = (t mod nanos_per_day) div nanos_per_second
      in appendInt y 4 @ ''-'' @ appendInt m 2 @ ''-'' @ appendInt d 2 @ ''T'' @
         appendInt (sec div 3600) 2 @ '':'' @ appendInt (sec div 60 mod 60) 2 @ '':'' @
         appendInt (sec mod 60) 2)"

definition trim_zeros :: "string \<Rightarrow> string" where
  "trim_zeros s = rev (dropWhile (\<lambda>c. c = CHR ''0'') (rev s))"

definition appendNano :: "int \<Rightarrow> string" where
  "appendNano n = (if n = 0 then [] else ''.'' @ trim_zeros (appendInt n 9))"

definition Format_RFC3339 :: "time \<Rightarrow> string" where
  "Format_RFC3339 t = format_date_time t @ ''Z''"

definition Format_RFC3339Nano :: "time \<Rightarrow> string" where
  "Format_RFC3339Nano t = format_date_time t @ appendNano (t mod nanos_per_second) @ ''Z''"

section \<open>Reading an instant\<close>

definition get_fixed :: "nat \<Rightarrow> string \<Rightarrow> (int \<times> string) option" where
  "get_fixed k s =
     (if k \<le> length s \<and> list_all is_digit (take k s)
      then Some (int (digits_val (take k s)), drop k s) else None)"

definition getnum_lenient :: "string \<Rightarrow> (int \<times> string) option" where
  "getnum_lenient s = (case get_fixed 2 s of Some r \<Rightarrow> Some r | None \<Rightarrow> get_fixed 1 s)"

fun skip_char :: "char \<Rightarrow> string \<Rightarrow> string option" where
  "skip_char c [] = None"
| "skip_char c (x # xs) = (if x = c then Some xs else None)"

definition in_range :: "int \<Rightarrow> int \<Rightarrow> int \<Rightarrow> unit option" where
  "in_range lo hi x = (if lo \<le> x \<and> x \<le> hi then Some () else None)"

definition parseNanoseconds :: "string \<Rightarrow> int" where
  "parseNanoseconds ds = int (digits_val (take 9 ds)) * 10 ^ (9 - length (take 9 ds))"

fun get_fraction :: "string \<Rightarrow> int \<times> string" where
  "get_fraction (c # d # s) =
     (if (c = CHR ''.'' \<or> c = CHR '','') \<and> is_digit d
      then (parseNanoseconds (takeWhile is_digit (d # s)), dropWhile is_digit (d # s))
      else (0, c # d # s))"
| "get_fraction s = (0, s)"

definition get_offset :: "string \<Rightarrow> (int \<times> string) option" where
  "get_offset s =
     (case skip_char CHR ''Z'' s of
        Some rest \<Rightarrow> Some (0, rest)
      | None \<Rightarrow>
          (if s = [] then None
           else do {
             (hr, s1) \<leftarrow> get_fixed 2 (tl s);
             s2 \<leftarrow> skip_char CHR '':'' s1;
             (mm, s3) \<leftarrow> get_fixed 2 s2;
             _ \<leftarrow> in_range 0 24 hr;
             _ \<leftarrow> in_range 0 60 mm;
             (if hd s = CHR ''+'' then Some ((hr * 60 + mm) * 60, s3)
              else if hd s = CHR ''-'' then Some (- ((hr * 60 + mm) * 60), s3)
              else None)
           }))"

text \<open>\<^verbatim>\<open>time.Parse\<close> with the layout RFC3339 or RFC3339Nano; both accept the same strings.\<close>

definition Parse_RFC3339 :: "string \<Rightarrow> time option" where
  "Parse_RFC3339 s0 = do {
     (y, s1) \<leftarrow> get_fixed 4 s0;
     s2 \<leftarrow> skip_char CHR ''-'' s1;
     (m, s3) \<leftarrow> get_fixed 2 s2;
     _ \<leftarrow> in_range 1 12 m;
     s4 \<leftarrow> skip_char CHR ''-'' s3;
     (d, s5) \<leftarrow> get_fixed 2 s4;
     s6 \<leftarrow> skip_char CHR ''T'' s5;
     (hr, s7) \<leftarrow> getnum_lenient s6;
     _ \<leftarrow> in_range 0 23 hr;
     s8 \<leftarrow> skip_char CHR '':'' s7;
     (mi, s9) \<leftarrow> get_fixed 2 s8;
     _ \<leftarrow> in_range 0 59 mi;
     s10 \<leftarrow> skip_char CHR '':'' s9;
     (sec, s11) \<leftarrow> get_fixed 2 s10;
     _ \<leftarrow> in_range 0 59 sec;
     let (nsec, s12) = get_fraction s11;
     (off, s13) \<leftarrow> get_offset s12;
     _ \<leftarrow> (if s13 = [] then Some () else None);
     _ \<leftarrow> in_range 1 (daysIn m y) d;
     Some ((days_of_civil y m d * 86400 + hr * 3600 + mi * 60 + sec - off) * nanos_per_second
           + nsec)
   }"

section \<open>Printing and reading are inverse\<close>

lemma get_fixed_appendInt:
  assumes "0 < w" and "0 \<le> x" and "x < 10 ^ w"
  shows "get_fixed w (appendInt x w @ r) = Some (x, r)"
proof -
  have "nat x < 10 ^ w" using assms by (simp add: nat_less_iff)
  then have "length (pad_zeros w (dec (nat x))) = w" using assms(1) by (rule length_pad_dec [rotated])
  with assms(2) show ?thesis
    by (auto simp: get_fixed_def appendInt_def list_all_iff digits_pad_dec digits_val_pad_dec)
qed

lemma getnum_lenient_appendInt:
  "0 \<le> x \<Longrightarrow> x < 100 \<Longrightarrow> getnum_lenient (appendInt x 2 @ r) = Some (x, r)"
  using get_fixed_appendInt [of 2 x r] by (simp add: getnum_lenient_def)

lemma skip_char_append [simp]: "skip_char c ([c] @ r) = Some r"
  by simp

lemma in_range_ok [simp]: "lo \<le> x \<Longrightarrow> x \<le> hi \<Longrightarrow> in_range lo hi x = Some ()"
  by (simp add: in_range_def)

lemma trim_zeros_append: "\<exists>k. s = trim_zeros s @ replicate k CHR ''0''"
proof -
  define z where "z = takeWhile (\<lambda>c. c = CHR ''0'') (rev s)"
  have "\<forall>c \<in> set z. c = CHR ''0''" by (auto simp: z_def dest: set_takeWhileD)
  then have z: "z = replicate (length z) CHR ''0''" by (simp add: replicate_length_same)
  have "s = rev (z @ dropWhile (\<lambda>c. c = CHR ''0'') (rev s))" unfolding z_def by simp
  also have "\<dots> = trim_zeros s @ rev z" by (simp add: trim_zeros_def)
  also have "rev z = replicate (length z) CHR ''0''" using z by (metis rev_replicate)
  finally show ?thesis by blast
qed

lemma get_fraction_appendNano:
  assumes "0 \<le> n" and "n < nanos_per_second"
  shows "get_fraction (appendNano n @ ''Z'') = (n, ''Z'')"
proof (cases "n = 0")
  case True
  then show ?thesis by (simp add: appendNano_def)
next
  case False
  define ds where "ds = pad_zeros 9 (dec (nat n))"
  have n9: "nat n < 10 ^ 9" using assms by (simp add: nanos_per_second_def)
  have len: "length ds = 9" unfolding ds_def using n9 by (intro length_pad_dec) auto
  obtain k where k: "ds = trim_zeros ds @ replicate k CHR ''0''" using trim_zeros_append by blast
  have val: "digits_val ds = nat n" by (simp add: ds_def digits_val_pad_dec)
  have dig: "\<forall>c \<in> set (trim_zeros ds). is_digit c"
    using k digits_pad_dec [of _ 9 "nat n"] unfolding ds_def [symmetric] by (metis Un_iff set_append)
  have lk: "length (trim_zeros ds) + k = 9" using len k by (metis length_append length_replicate)
  have "digits_val (trim_zeros ds) * 10 ^ k = nat n"
    using val k digits_val_append_zeros by metis
  then have nano: "parseNanoseconds (trim_zeros ds) = n"
    using lk assms(1) by (simp add: parseNanoseconds_def) (metis int_nat_eq add_diff_cancel_left' of_nat_mult of_nat_power of_nat_numeral)
  have "trim_zeros ds \<noteq> []"
  proof
    assume "trim_zeros ds = []"
    with nano have "n = 0" by (simp add: parseNanoseconds_def)
    with False show False ..
  qed
  then obtain d r where dr: "trim_zeros ds = d # r" by (cases "trim_zeros ds") auto
  have Z: "\<not> is_digit CHR ''Z''" by (simp add: is_digit_def)
  have split: "takeWhile is_digit (trim_zeros ds @ ''Z'') = trim_zeros ds"
    "dropWhile is_digit (trim_zeros ds @ ''Z'') = ''Z''"
    using dig Z by (simp_all add: takeWhile_append2 dropWhile_append2)
  from False assms have "appendNano n = CHR ''.'' # trim_zeros ds"
    by (simp add: appendNano_def appendInt_def ds_def)
  with split nano dig dr show ?thesis by simp
qed

lemma Parse_format_date_time:
  assumes year: "0 \<le> Year t" "Year t \<le> 9999"
    and frac: "get_fraction (f @ ''Z'') = (n, ''Z'')"
  shows "Parse_RFC3339 (format_date_time t @ f @ ''Z'') =
    Some (t div nanos_per_second * nanos_per_second + n)"
proof -
  obtain y m d where civil: "civil_of_days (t div nanos_per_day) = (y, m, d)"
    by (cases "civil_of_days (t div nanos_per_day)")
  note valid = civil_of_days_valid [OF civil]
  define sec where "sec = (t mod nanos_per_day) div nanos_per_second"
  have y: "0 \<le> y" "y \<le> 9999" using year civil by (simp_all add: Year_def)
  have d31: "d \<le> 31" using valid(4) by (auto simp: daysIn_def split: if_splits)
  have "0 \<le> t mod nanos_per_day" "t mod nanos_per_day < nanos_per_day"
    by (simp_all add: nanos_per_day_def nanos_per_second_def)
  then have sec: "0 \<le> sec" "sec < 86400"
    unfolding sec_def nanos_per_day_def nanos_per_second_def by linarith+
  define h where "h = sec div 3600"
  define mi where "mi = sec div 60 mod 60"
  define s where "s = sec mod 60"
  have h: "0 \<le> h" "h \<le> 23" using sec unfolding h_def by linarith+
  have ms: "0 \<le> mi" "mi \<le> 59" "0 \<le> s" "s \<le> 59" unfolding mi_def s_def by simp_all
  have hms: "h * 3600 + mi * 60 + s = sec"
  proof -
    have "sec div 3600 = sec div 60 div 60" using zdiv_zmult2_eq [of 60 sec 60] by simp
    moreover have "sec = sec div 60 * 60 + sec mod 60" by simp
    moreover have "sec div 60 = sec div 60 div 60 * 60 + sec div 60 mod 60" by simp
    ultimately show ?thesis unfolding h_def mi_def s_def by linarith
  qed
  have out: "format_date_time t =
      appendInt y 4 @ ''-'' @ appendInt m 2 @ ''-'' @ appendInt d 2 @ ''T'' @
      appendInt h 2 @ '':'' @ appendInt mi 2 @ '':'' @ appendInt s 2"
    by (simp add: format_date_time_def civil sec_def h_def mi_def s_def Let_def)
  have "Parse_RFC3339 (format_date_time t @ f @ ''Z'') =
      Some ((days_of_civil y m d * 86400 + h * 3600 + mi * 60 + s - 0) * nanos_per_second + n)"
    unfolding out Parse_RFC3339_def
    using y valid d31 h ms frac
    by (simp add: get_fixed_appendInt getnum_lenient_appendInt get_offset_def)
  also have "days_of_civil y m d * 86400 + h * 3600 + mi * 60 + s - 0 = t div nanos_per_second"
  proof -
    have "t = (t div nanos_per_day) * nanos_per_day + t mod nanos_per_day" by simp
    then have "t div nanos_per_second = (t div nanos_per_day) * 86400 + sec"
      unfolding sec_def nanos_per_day_def nanos_per_second_def by linarith
    with valid(5) hms show ?thesis by linarith
  qed
  finally show ?thesis .
qed

lemma Parse_Format_RFC3339Nano:
  assumes "0 \<le> Year t" "Year t \<le> 9999"
  shows "Parse_RFC3339 (Format_RFC3339Nano t) = Some t"
proof -
  have "0 \<le> t mod nanos_per_second" "t mod nanos_per_second < nanos_per_second"
    by (simp_all add: nanos_per_second_def)
  from Parse_format_date_time [OF assms get_fraction_appendNano [OF this]]
  show ?thesis by (simp add: Format_RFC3339Nano_def)
qed

lemma Parse_Format_RFC3339:
  assumes "0 \<le> Year t" "Year t \<le> 9999"
  shows "Parse_RFC3339 (Format_RFC3339 t) = Some (t - t mod nanos_per_second)"
proof -
  have "get_fraction ([] @ ''Z'') = (0, ''Z'')" by simp
  from Parse_format_date_time [OF assms this]
  show ?thesis by (simp add: Format_RFC3339_def minus_mod_eq_div_mult)
qed

text \<open>The printed instant holds no vertical bar.\<close>

lemma bar_not_digit: "is_digit c \<Longrightarrow> c \<noteq> CHR ''|''"
  by (auto simp: is_digit_def)

lemma bar_appendInt: "CHR ''|'' \<notin> set (appendInt x w)"
  using digits_pad_dec [of "CHR ''|''" w "nat \<bar>x\<bar>"] bar_not_digit by (auto simp: appendInt_def)

lemma set_trim_zeros: "set (trim_zeros s) \<subseteq> set s"
  by (auto simp: trim_zeros_def dest: set_dropWhileD)

lemma bar_Format_RFC3339Nano: "CHR ''|'' \<notin> set (Format_RFC3339Nano t)"
proof -
  have "CHR ''|'' \<notin> set (trim_zeros (appendInt x w))" for x w
    using bar_appendInt set_trim_zeros by blast
  then show ?thesis
    by (auto simp: Format_RFC3339Nano_def format_date_time_def appendNano_def Let_def bar_appendInt
        split: prod.splits)
qed

lemma Format_example: "Format_RFC3339 1788220800000000000 = ''2026-09-01T00:00:00Z''"
  by code_simp

end
