(* ===== verification/GoErrors.thy ===== *)
theory GoErrors
  imports Prelude
begin

text \<open>
  The error values of the service. Every \<^verbatim>\<open>errors.New\<close> of the domain package is a
  constructor of the datatype of the file that declares it; \<open>error\<close> joins them with the
  errors that reach the service from outside (\<open>PgError\<close> with its SQLSTATE code, \<open>NoRows\<close>
  for \<^verbatim>\<open>pgx.ErrNoRows\<close>, \<open>Plain\<close> for an error that is only a text) and with \<open>Errorf\<close>, an
  error that \<^verbatim>\<open>fmt.Errorf\<close> wrapped with \<^verbatim>\<open>%w\<close>: the text before it, the wrapped error, the
  text after it. \<open>errors_Is\<close> walks the chain of wrapped errors as \<^verbatim>\<open>errors.Is\<close> does.
\<close>

datatype policy_err =
    ErrEmptyPolicyNumber
  | ErrEmptyHolderName
  | ErrEmptyProductCode
  | ErrInvalidDateRange

datatype service_err =
    ErrPolicyNotFound
  | ErrCannotCancel
  | ErrReasonRequired

datatype port_err =
    ErrNotFound
  | ErrPolicyNumberTaken

datatype transition_err = ErrInvalidTransition

datatype coverage_err =
    ErrEmptyCoverageType
  | ErrNonPositiveInsuredAmount
  | ErrNegativeDeductible

datatype premium_err = ErrNonPositivePremiumAmount

datatype document_err =
    ErrDocumentForbidden
  | ErrNoMinIOStore

datatype error =
    PolicyErr policy_err
  | ServiceErr service_err
  | PortErr port_err
  | TransitionErr transition_err
  | CoverageErr coverage_err
  | PremiumErr premium_err
  | DocumentErr document_err
  | NoRows
  | PgError (pg_code: string) (pg_constraint: string)
  | Plain string
  | Errorf string error string

fun policy_err_text :: "policy_err \<Rightarrow> string" where
  "policy_err_text ErrEmptyPolicyNumber = ''policy number cannot be empty''"
| "policy_err_text ErrEmptyHolderName = ''holder name cannot be empty''"
| "policy_err_text ErrEmptyProductCode = ''product code cannot be empty''"
| "policy_err_text ErrInvalidDateRange = ''effective date must be before expiry date''"

fun service_err_text :: "service_err \<Rightarrow> string" where
  "service_err_text ErrPolicyNotFound = ''policy not found''"
| "service_err_text ErrCannotCancel =
     ''only draft policies can be cancelled via this endpoint''"
| "service_err_text ErrReasonRequired = ''reason is required for this transition''"

fun port_err_text :: "port_err \<Rightarrow> string" where
  "port_err_text ErrNotFound = ''not found''"
| "port_err_text ErrPolicyNumberTaken = ''policy number already in use''"

fun coverage_err_text :: "coverage_err \<Rightarrow> string" where
  "coverage_err_text ErrEmptyCoverageType = ''coverage type cannot be empty''"
| "coverage_err_text ErrNonPositiveInsuredAmount = ''insured amount must be positive''"
| "coverage_err_text ErrNegativeDeductible = ''deductible cannot be negative''"

fun document_err_text :: "document_err \<Rightarrow> string" where
  "document_err_text ErrDocumentForbidden =
     ''attestation requires ACTIVE or AMENDED status''"
| "document_err_text ErrNoMinIOStore = ''document storage not configured''"

text \<open>\<^verbatim>\<open>err.Error()\<close>. The text of a PostgreSQL error names its constraint and its code.\<close>

fun error_text :: "error \<Rightarrow> string" where
  "error_text (PolicyErr e) = policy_err_text e"
| "error_text (ServiceErr e) = service_err_text e"
| "error_text (PortErr e) = port_err_text e"
| "error_text (TransitionErr ErrInvalidTransition) = ''invalid state transition''"
| "error_text (CoverageErr e) = coverage_err_text e"
| "error_text (PremiumErr ErrNonPositivePremiumAmount) = ''premium amount must be positive''"
| "error_text (DocumentErr e) = document_err_text e"
| "error_text NoRows = ''no rows in result set''"
| "error_text (PgError code con) = con @ '' (SQLSTATE '' @ code @ '')''"
| "error_text (Plain s) = s"
| "error_text (Errorf pre e post) = pre @ error_text e @ post"

fun errors_Is :: "error \<Rightarrow> error \<Rightarrow> bool" where
  "errors_Is (Errorf pre e post) target =
     (Errorf pre e post = target \<or> errors_Is e target)"
| "errors_Is e target = (e = target)"

lemma errors_Is_refl [simp, err]: "errors_Is e e"
  by (cases e) auto

lemma errors_Is_wrapped [simp, err]: "errors_Is e t \<Longrightarrow> errors_Is (Errorf pre e post) t"
  by simp

text \<open>Whether an error is, or wraps, an error of the services or of their ports.\<close>

fun error_root :: "error \<Rightarrow> error" where
  "error_root (Errorf pre e post) = error_root e"
| "error_root e = e"

lemma errors_Is_root:
  assumes "\<And>pre e post. t \<noteq> Errorf pre e post"
  shows "errors_Is e t \<longleftrightarrow> error_root e = t"
  using assms by (induction e t rule: errors_Is.induct) auto

end
