(* ===== verification/Env.thy ===== *)
theory Env
  imports GoErrors
begin

text \<open>
  What the service takes from outside its sources, as an argument \<open>E\<close> of the definitions that
  use it. Calls that leave the process are numbered by the order in which they are made, and
  the environment answers each by its number: \<open>env_uuid\<close> what \<^verbatim>\<open>uuid.New\<close> draws, \<open>env_now\<close>
  what \<^verbatim>\<open>time.Now().UTC()\<close> reads, \<open>env_fault\<close> whether the call fails. A failing call returns
  an error with the given text; the flag says whether the server had carried the call out
  before the answer was lost. A statement the server refuses for another reason than its data and
  the constraints of the tables (no space, or a policy number too long for an entry of its
  index) is such a failing call, not carried out. \<open>env_timestamptz\<close> is the conversion of an instant to the
  resolution of the column type \<^verbatim>\<open>TIMESTAMPTZ\<close>; \<open>env_uuid_String\<close> and \<open>env_uuid_Parse\<close> are
  \<^verbatim>\<open>UUID.String\<close> and \<^verbatim>\<open>uuid.Parse\<close> of the uuid package.
\<close>

datatype fault = Fault (fault_text: string) (fault_applied: bool)

record env =
  env_uuid :: "nat \<Rightarrow> uuid"
  env_now :: "nat \<Rightarrow> time"
  env_fault :: "nat \<Rightarrow> fault option"
  env_timestamptz :: "time \<Rightarrow> time"
  env_uuid_String :: "uuid \<Rightarrow> string"
  env_uuid_Parse :: "string \<Rightarrow> uuid option"

text \<open>
  The documented behaviour of the two conversions: TIMESTAMPTZ keeps instants to a
  resolution, without changing their order; parsing a UUID undoes printing it.
\<close>

locale timestamptz =
  fixes tz :: "time \<Rightarrow> time"
  assumes tz_idem: "tz (tz t) = tz t"
    and tz_mono: "t \<le> u \<Longrightarrow> tz t \<le> tz u"
begin

lemma tz_less_imp: "tz t < tz u \<Longrightarrow> t < u"
  using tz_mono [of u t] by (cases "t < u") auto

end

locale uuid_text =
  fixes show_uuid :: "uuid \<Rightarrow> string" and read_uuid :: "string \<Rightarrow> uuid option"
  assumes read_show: "read_uuid (show_uuid u) = Some u"
begin

lemma show_inject: "show_uuid u = show_uuid v \<longleftrightarrow> u = v"
  by (metis read_show option.inject)

end

section \<open>A concrete environment\<close>

text \<open>
  PostgreSQL keeps microseconds, and the driver rounds an instant down to one. The canonical
  text of a UUID is its 32 hexadecimal digits in groups of 8, 4, 4, 4 and 12.
\<close>

definition floor_micros :: "time \<Rightarrow> time" where
  "floor_micros t = t div 1000 * 1000"

definition hex_digit :: "nat \<Rightarrow> char" where
  "hex_digit n = ''0123456789abcdef'' ! n"

definition hex_val :: "char \<Rightarrow> nat option" where
  "hex_val c = (let n = length (takeWhile (\<lambda>a. a \<noteq> c) ''0123456789abcdef'')
     in if n < 16 then Some n else None)"

fun hex :: "nat \<Rightarrow> nat \<Rightarrow> string" where
  "hex 0 n = []"
| "hex (Suc k) n = hex k (n div 16) @ [hex_digit (n mod 16)]"

definition hex_read :: "string \<Rightarrow> nat option" where
  "hex_read s = foldl (\<lambda>v c. case (v, hex_val c) of (Some n, Some d) \<Rightarrow> Some (n * 16 + d) | _ \<Rightarrow> None)
     (Some 0) s"

definition canonical_uuid :: "uuid \<Rightarrow> string" where
  "canonical_uuid u =
     (let h = hex 32 (unat u)
      in take 8 h @ ''-'' @ take 4 (drop 8 h) @ ''-'' @ take 4 (drop 12 h) @ ''-'' @
         take 4 (drop 16 h) @ ''-'' @ drop 20 h)"

definition parse_canonical_uuid :: "string \<Rightarrow> uuid option" where
  "parse_canonical_uuid s =
     (if length s = 36 \<and> s ! 8 = CHR ''-'' \<and> s ! 13 = CHR ''-'' \<and> s ! 18 = CHR ''-'' \<and> s ! 23 = CHR ''-''
      then map_option of_nat
        (hex_read (take 8 s @ take 4 (drop 9 s) @ take 4 (drop 14 s) @ take 4 (drop 19 s) @ drop 24 s))
      else None)"

lemma hex_digits_ok: "\<forall>n \<in> set [0..<16]. hex_val (hex_digit n) = Some n"
  by code_simp

lemma hex_val_digit [simp]: "n < 16 \<Longrightarrow> hex_val (hex_digit n) = Some n"
  using hex_digits_ok by auto

lemma length_hex [simp]: "length (hex k n) = k"
  by (induction k arbitrary: n) auto

lemma hex_read_hex: "n < 16 ^ k \<Longrightarrow> hex_read (hex k n) = Some n"
proof (induction k arbitrary: n)
  case 0
  then show ?case by (simp add: hex_read_def)
next
  case (Suc k)
  then have "n div 16 < 16 ^ k" by (simp add: less_mult_imp_div_less mult.commute)
  with Suc.IH have "hex_read (hex k (n div 16)) = Some (n div 16)" by blast
  then show ?case by (simp add: hex_read_def)
qed

lemma split_8_4_4_4:
  assumes "length h = 32"
  shows "take 8 h @ take 4 (drop 8 h) @ take 4 (drop 12 h) @ take 4 (drop 16 h) @ drop 20 h = h"
  using append_take_drop_id [of 8 h] append_take_drop_id [of 4 "drop 8 h"]
    append_take_drop_id [of 4 "drop 12 h"] append_take_drop_id [of 4 "drop 16 h"]
  by simp

lemma parse_canonical: "parse_canonical_uuid (canonical_uuid u) = Some u"
proof -
  define h where "h = hex 32 (unat u)"
  have len: "length h = 32" by (simp add: h_def)
  have "unat u < 2 ^ LENGTH(128)" by (rule unsigned_less)
  then have "unat u < 16 ^ 32" by simp
  then have "hex_read h = Some (unat u)" unfolding h_def by (rule hex_read_hex)
  with len split_8_4_4_4 [OF len] show ?thesis
    by (simp add: parse_canonical_uuid_def canonical_uuid_def h_def [symmetric] Let_def nth_append)
qed

interpretation micros: timestamptz floor_micros
  by unfold_locales (auto simp: floor_micros_def zdiv_mono1)

interpretation canonical: uuid_text canonical_uuid parse_canonical_uuid
  by unfold_locales (rule parse_canonical)

text \<open>
  An environment for examples: the n-th call draws the UUID n, the clock ticks by the
  second, and the calls in the given list fail.
\<close>

definition demo_env :: "(nat \<times> fault) list \<Rightarrow> env" where
  "demo_env faults = \<lparr>env_uuid = of_nat, env_now = (\<lambda>n. int n * 1000000000),
     env_fault = map_of faults, env_timestamptz = floor_micros,
     env_uuid_String = canonical_uuid, env_uuid_Parse = parse_canonical_uuid\<rparr>"

lemma demo_env_simps [simp]:
  "env_uuid (demo_env fs) n = of_nat n"
  "env_now (demo_env fs) n = int n * 1000000000"
  "env_fault (demo_env fs) n = map_of fs n"
  "env_timestamptz (demo_env fs) = floor_micros"
  "env_uuid_String (demo_env fs) = canonical_uuid"
  "env_uuid_Parse (demo_env fs) = parse_canonical_uuid"
  by (simp_all add: demo_env_def)

end
