(* ===== verification/Domain.thy ===== *)
theory Domain
  imports GoErrors
begin

text \<open>
  The entities of package domain (\<^verbatim>\<open>policy.go\<close>, \<^verbatim>\<open>coverage.go\<close>, \<^verbatim>\<open>premium.go\<close>, and the
  records of \<^verbatim>\<open>ports.go\<close>) and their validation. \<^verbatim>\<open>PolicyStatus\<close>, \<^verbatim>\<open>Event\<close>, \<^verbatim>\<open>ReasonCode\<close> and
  \<^verbatim>\<open>Frequency\<close> are Go string types with named constants, and any other string can be
  converted to them (the status filter of a list request is), so they are strings here.
  The first failing check decides the error, as the chain of \<^verbatim>\<open>if\<close>s does.
\<close>

section \<open>Policies\<close>

type_synonym policy_status = string

definition StatusDraft :: policy_status where "StatusDraft = ''draft''"
definition StatusSubmitted :: policy_status where "StatusSubmitted = ''submitted''"
definition StatusActive :: policy_status where "StatusActive = ''active''"
definition StatusRejected :: policy_status where "StatusRejected = ''rejected''"
definition StatusAmended :: policy_status where "StatusAmended = ''amended''"
definition StatusCancelled :: policy_status where "StatusCancelled = ''cancelled''"
definition StatusExpired :: policy_status where "StatusExpired = ''expired''"
definition StatusSuspended :: policy_status where "StatusSuspended = ''suspended''"
definition StatusTerminated :: policy_status where "StatusTerminated = ''terminated''"

lemmas status_defs =
  StatusDraft_def StatusSubmitted_def StatusActive_def StatusRejected_def StatusAmended_def
  StatusCancelled_def StatusExpired_def StatusSuspended_def StatusTerminated_def

record policy =
  ID :: uuid
  PolicyNumber :: string
  HolderName :: string
  ProductCode :: string
  Status :: policy_status
  EffectiveDate :: time
  ExpiryDate :: time
  CreatedAt :: time
  UpdatedAt :: time

text \<open>\<^verbatim>\<open>&Policy{}\<close>: every field its zero value.\<close>

definition zero_policy :: policy where
  "zero_policy = \<lparr>ID = uuid_Nil, PolicyNumber = [], HolderName = [], ProductCode = [],
     Status = [], EffectiveDate = time_zero, ExpiryDate = time_zero,
     CreatedAt = time_zero, UpdatedAt = time_zero\<rparr>"

text \<open>\<^verbatim>\<open>Validate\<close> returns an error or nil: \<open>Some e\<close> or \<open>None\<close>.\<close>

definition Policy_Validate :: "policy \<Rightarrow> error option" where
  "Policy_Validate p =
     (if PolicyNumber p = [] then Some (PolicyErr ErrEmptyPolicyNumber)
      else if HolderName p = [] then Some (PolicyErr ErrEmptyHolderName)
      else if ProductCode p = [] then Some (PolicyErr ErrEmptyProductCode)
      else if \<not> Before (EffectiveDate p) (ExpiryDate p) then Some (PolicyErr ErrInvalidDateRange)
      else None)"

lemma Policy_Validate_None:
  "Policy_Validate p = None \<longleftrightarrow>
     PolicyNumber p \<noteq> [] \<and> HolderName p \<noteq> [] \<and> ProductCode p \<noteq> [] \<and>
     EffectiveDate p < ExpiryDate p"
  by (simp add: Policy_Validate_def Before_def)

lemma Policy_Validate_Some: "Policy_Validate p = Some e \<Longrightarrow> \<exists>d. e = PolicyErr d"
  by (auto simp: Policy_Validate_def split: if_splits)

section \<open>Coverages\<close>

record coverage =
  cov_ID :: uuid
  cov_PolicyID :: uuid
  cov_Type :: string
  InsuredAmount :: int64
  Deductible :: int64

definition Coverage_Validate :: "coverage \<Rightarrow> error option" where
  "Coverage_Validate c =
     (if cov_Type c = [] then Some (CoverageErr ErrEmptyCoverageType)
      else if sint (InsuredAmount c) \<le> 0 then Some (CoverageErr ErrNonPositiveInsuredAmount)
      else if sint (Deductible c) < 0 then Some (CoverageErr ErrNegativeDeductible)
      else None)"

section \<open>Premiums\<close>

type_synonym frequency = string

definition FrequencyMonthly :: frequency where "FrequencyMonthly = ''monthly''"
definition FrequencyQuarterly :: frequency where "FrequencyQuarterly = ''quarterly''"
definition FrequencyAnnual :: frequency where "FrequencyAnnual = ''annual''"

record premium =
  prem_ID :: uuid
  prem_PolicyID :: uuid
  Amount :: int64
  Frequency :: frequency
  DueDate :: time
  PaidAt :: "time option"

definition Premium_Validate :: "premium \<Rightarrow> error option" where
  "Premium_Validate p =
     (if sint (Amount p) \<le> 0 then Some (PremiumErr ErrNonPositivePremiumAmount) else None)"

definition IsPaid :: "premium \<Rightarrow> bool" where
  "IsPaid p \<longleftrightarrow> PaidAt p \<noteq> None"

section \<open>Records of the ports\<close>

record list_params =
  lp_Status :: "policy_status option"
  lp_Cursor :: string
  lp_Limit :: int

record audit_log =
  log_ID :: uuid
  log_PolicyID :: uuid
  FromStatus :: policy_status
  ToStatus :: policy_status
  ActorID :: string
  Reason :: string
  OccurredAt :: time

record document =
  doc_ID :: uuid
  doc_PolicyID :: uuid
  doc_Type :: string
  MinIOKey :: string
  doc_CreatedAt :: time

end
