(* ===== verification/Utf8.thy ===== *)
theory Utf8
  imports Prelude
begin

text \<open>
  UTF-8 as Go's package \<^verbatim>\<open>unicode/utf8\<close> reads and writes it: \<open>rune_width\<close> is the number of bytes of
  the character a byte string begins with (0 when it begins with none, which Go reports as
  \<^verbatim>\<open>RuneError\<close> of width 1), \<open>EncodeRune\<close> writes one. \<open>to_valid\<close> replaces every byte that belongs to
  no character, as the JSON encoder and decoder do.
\<close>

definition byte :: "char \<Rightarrow> nat" where
  "byte c = of_char c"

lemma byte_less: "byte c < 256"
  by (simp add: byte_def)

lemma byte_char_of [simp]: "n < 256 \<Longrightarrow> byte (char_of n) = n"
  by (simp add: byte_def)

lemma char_of_byte [simp]: "char_of (byte c) = c"
  by (simp add: byte_def)

lemma byte_eq_iff [simp]: "byte c = byte d \<longleftrightarrow> c = d"
  by (simp add: byte_def)

section \<open>Reading a character\<close>

definition continuation :: "char \<Rightarrow> bool" where
  "continuation c \<longleftrightarrow> 0x80 \<le> byte c \<and> byte c \<le> 0xBF"

text \<open>The range of the second byte after a first byte of three and four byte characters.\<close>

definition second_ok :: "char \<Rightarrow> char \<Rightarrow> bool" where
  "second_ok a b \<longleftrightarrow>
     (let lo = (if byte a = 0xE0 then 0xA0 else if byte a = 0xF0 then 0x90 else 0x80);
          hi = (if byte a = 0xED then 0x9F else if byte a = 0xF4 then 0x8F else 0xBF)
      in lo \<le> byte b \<and> byte b \<le> hi)"

fun rune_width :: "bytes \<Rightarrow> nat" where
  "rune_width [] = 0"
| "rune_width (a # s) =
     (if byte a < 0x80 then 1
      else if byte a < 0xC2 then 0
      else if byte a < 0xE0 then (case s of b # _ \<Rightarrow> if continuation b then 2 else 0 | _ \<Rightarrow> 0)
      else if byte a < 0xF0
      then (case s of b # c # _ \<Rightarrow> if second_ok a b \<and> continuation c then 3 else 0 | _ \<Rightarrow> 0)
      else if byte a < 0xF5
      then (case s of
          b # c # d # _ \<Rightarrow> if second_ok a b \<and> continuation c \<and> continuation d then 4 else 0
        | _ \<Rightarrow> 0)
      else 0)"

lemma rune_width_le: "rune_width s \<le> length s"
  by (cases s) (auto split: list.split)

lemma rune_width_append: "rune_width s \<noteq> 0 \<Longrightarrow> rune_width (s @ t) = rune_width s"
  by (cases s) (auto split: list.splits if_splits)

lemma rune_width_take: "rune_width s \<noteq> 0 \<Longrightarrow> rune_width (take (rune_width s) s @ t) = rune_width s"
  by (cases s) (auto split: list.splits if_splits)

lemma rune_width_ascii: "byte c < 0x80 \<longleftrightarrow> rune_width (c # s) = 1"
  by (auto split: list.splits if_splits)

lemma high_bytes:
  "continuation c \<Longrightarrow> 0x80 \<le> byte c" "second_ok a b \<Longrightarrow> 0x80 \<le> byte b"
  by (auto simp: continuation_def second_ok_def Let_def split: if_splits)

lemma rune_width_cases:
  obtains (none) "rune_width (a # s) = 0"
  | (ascii) "rune_width (a # s) = 1" "byte a < 0x80"
  | (two) b t where "rune_width (a # s) = 2" "s = b # t" "0x80 \<le> byte a" "continuation b"
  | (three) b c t where "rune_width (a # s) = 3" "s = b # c # t" "0x80 \<le> byte a" "second_ok a b"
      "continuation c"
  | (four) b c d t where "rune_width (a # s) = 4" "s = b # c # d # t" "0x80 \<le> byte a"
      "second_ok a b" "continuation c" "continuation d"
proof (cases "byte a < 0x80")
  case True
  then show thesis using ascii by simp
next
  case False
  then have "rune_width (a # s) = 0 \<or>
      (\<exists>b t. s = b # t \<and> rune_width (a # s) = 2 \<and> continuation b) \<or>
      (\<exists>b c t. s = b # c # t \<and> rune_width (a # s) = 3 \<and> second_ok a b \<and> continuation c) \<or>
      (\<exists>b c d t. s = b # c # d # t \<and> rune_width (a # s) = 4 \<and> second_ok a b \<and>
        continuation c \<and> continuation d)"
    by (auto split: list.split)
  with False none two three four show thesis by auto
qed

lemma rune_bytes:
  assumes "rune_width (c # s) \<noteq> 0" "rune_width (c # s) \<noteq> 1"
  shows "\<forall>d \<in> set (take (rune_width (c # s)) (c # s)). 0x80 \<le> byte d"
  using assms
  by (cases c s rule: rune_width_cases) (simp_all add: high_bytes take_Cons_numeral del: rune_width.simps)

text \<open>For evaluation: the highest bit tells ASCII from the rest.\<close>

lemma byte_ascii: "byte c < 0x80 \<longleftrightarrow> \<not> digit7 c"
  by (cases c) (simp add: byte_def)

lemma rune_width_code [code]:
  "rune_width [] = 0"
  "rune_width (a # s) =
     (if \<not> digit7 a then 1
      else if byte a < 0xC2 then 0
      else if byte a < 0xE0 then (case s of b # _ \<Rightarrow> if continuation b then 2 else 0 | _ \<Rightarrow> 0)
      else if byte a < 0xF0
      then (case s of b # c # _ \<Rightarrow> if second_ok a b \<and> continuation c then 3 else 0 | _ \<Rightarrow> 0)
      else if byte a < 0xF5
      then (case s of
          b # c # d # _ \<Rightarrow> if second_ok a b \<and> continuation c \<and> continuation d then 4 else 0
        | _ \<Rightarrow> 0)
      else 0)"
  by (simp_all only: rune_width.simps byte_ascii)

section \<open>Valid text\<close>

definition replacement :: bytes where
  "replacement = [CHR 0xEF, CHR 0xBF, CHR 0xBD]"

function valid_utf8 :: "bytes \<Rightarrow> bool" where
  "valid_utf8 [] = True"
| "valid_utf8 (c # s) =
     (rune_width (c # s) \<noteq> 0 \<and> valid_utf8 (drop (rune_width (c # s) - 1) s))"
  by pat_completeness auto
termination by (relation "measure length") auto

function to_valid :: "bytes \<Rightarrow> bytes" where
  "to_valid [] = []"
| "to_valid (c # s) =
     (let n = rune_width (c # s)
      in if n = 0 then replacement @ to_valid s else take n (c # s) @ to_valid (drop (n - 1) s))"
  by pat_completeness auto
termination by (relation "measure length") auto

declare rune_width.simps(2) [simp del]

lemma drop_width: "rune_width (c # s) \<noteq> 0 \<Longrightarrow> drop (rune_width (c # s) - 1) s = drop (rune_width (c # s)) (c # s)"
  by (cases "rune_width (c # s)") simp_all

lemma valid_rune_append:
  assumes "rune_width r = length r" "r \<noteq> []"
  shows "valid_utf8 (r @ t) = valid_utf8 t"
proof -
  have w: "rune_width (r @ t) = length r" using assms rune_width_append [of r t] by simp
  obtain c s where r: "r = c # s" using assms(2) by (cases r) simp_all
  with w have "rune_width (c # (s @ t)) = Suc (length s)" by simp
  then show ?thesis by (simp add: r)
qed

lemma rune_width_take_self: "rune_width s \<noteq> 0 \<Longrightarrow> rune_width (take (rune_width s) s) = rune_width s"
  using rune_width_take [of s "[]"] by simp

lemma replacement_width: "rune_width replacement = length replacement"
  by code_simp

lemma valid_to_valid: "valid_utf8 (to_valid s)"
proof (induction s rule: to_valid.induct)
  case (2 c s)
  let ?n = "rune_width (c # s)"
  show ?case
  proof (cases "?n = 0")
    case True
    with 2 show ?thesis
      using valid_rune_append [OF replacement_width] by (simp add: replacement_def)
  next
    case False
    then have "take ?n (c # s) \<noteq> []" "rune_width (take ?n (c # s)) = length (take ?n (c # s))"
      using rune_width_take_self [of "c # s"] rune_width_le [of "c # s"] by auto
    with False 2 show ?thesis
      using valid_rune_append [of "take ?n (c # s)"] by (simp add: Let_def)
  qed
qed simp

lemma to_valid_id: "valid_utf8 s \<Longrightarrow> to_valid s = s"
proof (induction s rule: to_valid.induct)
  case (2 c s)
  then have n: "rune_width (c # s) \<noteq> 0" by simp
  with 2 show ?case using drop_width [OF n] by (simp add: Let_def del: take_Suc_Cons drop_Suc_Cons)
qed simp

lemma valid_append: "valid_utf8 s \<Longrightarrow> valid_utf8 t \<Longrightarrow> valid_utf8 (s @ t)"
proof (induction s rule: valid_utf8.induct)
  case (2 c s)
  then have n: "rune_width (c # s) \<noteq> 0" by simp
  with rune_width_append [OF this, of t] have w: "rune_width (c # (s @ t)) = rune_width (c # s)" by simp
  have "rune_width (c # s) - 1 \<le> length s" using rune_width_le [of "c # s"] by simp
  with 2 n w show ?case by simp
qed simp

lemma valid_ascii: "\<forall>c \<in> set s. byte c < 0x80 \<Longrightarrow> valid_utf8 s"
proof (induction s)
  case (Cons c s)
  then have "rune_width (c # s) = 1" using rune_width_ascii [of c s] by simp
  with Cons show ?case by simp
qed simp

section \<open>Writing a character\<close>

definition surrogate :: "nat \<Rightarrow> bool" where
  "surrogate r \<longleftrightarrow> 0xD800 \<le> r \<and> r < 0xE000"

definition EncodeRune :: "nat \<Rightarrow> bytes" where
  "EncodeRune r =
     (if r < 0x80 then [char_of r]
      else if r < 0x800 then [char_of (0xC0 + r div 64), char_of (0x80 + r mod 64)]
      else if surrogate r \<or> 0x110000 \<le> r then replacement
      else if r < 0x10000
      then [char_of (0xE0 + r div 4096), char_of (0x80 + r div 64 mod 64), char_of (0x80 + r mod 64)]
      else [char_of (0xF0 + r div 262144), char_of (0x80 + r div 4096 mod 64),
        char_of (0x80 + r div 64 mod 64), char_of (0x80 + r mod 64)])"

lemma continuation_low [simp]: "continuation (char_of (0x80 + n mod 64 :: nat))"
proof -
  have "n mod 64 < 64" by simp
  then show ?thesis unfolding continuation_def by (subst (1 2) byte_char_of) linarith+
qed

lemma second_ok_low:
  fixes h n :: nat
  assumes "h < 256" and "h = 0xE0 \<Longrightarrow> 32 \<le> n" "h = 0xED \<Longrightarrow> n < 32" "h = 0xF0 \<Longrightarrow> 16 \<le> n"
    "h = 0xF4 \<Longrightarrow> n < 16" "n < 64"
  shows "second_ok (char_of h) (char_of (0x80 + n))"
  using assms by (auto simp: second_ok_def Let_def)

lemma EncodeRune_width: "rune_width (EncodeRune r) = length (EncodeRune r)"
proof -
  consider "r < 0x80" | "\<not> r < 0x80" "r < 0x800" | "\<not> r < 0x800" "surrogate r \<or> 0x110000 \<le> r"
    | "\<not> r < 0x800" "\<not> surrogate r" "r < 0x10000" | "0x10000 \<le> r" "r < 0x110000"
    by linarith
  then show ?thesis
  proof cases
    case 2
    then have "2 \<le> r div 64" "r div 64 < 32" by linarith+
    with 2 show ?thesis by (simp add: EncodeRune_def rune_width.simps continuation_def)
  next
    case 3
    then show ?thesis by (simp add: EncodeRune_def replacement_width)
  next
    case 4
    have mid: "r div 64 = 64 * (r div 4096) + r div 64 mod 64"
      using div_mult2_eq [of r 64 64] by simp
    from 4 have "r < 0xD800 \<or> 0xE000 \<le> r" by (auto simp: surrogate_def)
    then have "r div 4096 = 13 \<Longrightarrow> r div 64 mod 64 < 32" using mid by (elim disjE) linarith+
    moreover from 4 mid have "r div 4096 = 0 \<Longrightarrow> 32 \<le> r div 64 mod 64" by linarith
    moreover from 4 have "r div 4096 < 16" by linarith
    ultimately have "second_ok (char_of (0xE0 + r div 4096)) (char_of (0x80 + r div 64 mod 64))"
      by (intro second_ok_low) simp_all
    with 4 \<open>r div 4096 < 16\<close> show ?thesis
      by (simp add: EncodeRune_def rune_width.simps)
  next
    case 5
    then have "r div 262144 < 5" by linarith
    moreover have "r div 4096 = 64 * (r div 262144) + r div 4096 mod 64"
      using div_mult2_eq [of r 4096 64] by simp
    ultimately have "second_ok (char_of (0xF0 + r div 262144)) (char_of (0x80 + r div 4096 mod 64))"
      using 5 by (intro second_ok_low) linarith+
    with 5 \<open>r div 262144 < 5\<close> show ?thesis
      by (simp add: EncodeRune_def rune_width.simps surrogate_def)
  qed (simp add: EncodeRune_def rune_width.simps)
qed

lemma EncodeRune_not_Nil [simp]: "EncodeRune r \<noteq> []"
  by (simp add: EncodeRune_def replacement_def)

lemma valid_EncodeRune: "valid_utf8 (EncodeRune r @ t) = valid_utf8 t"
  by (rule valid_rune_append [OF EncodeRune_width]) simp

lemma valid_ascii_Cons: "byte c < 0x80 \<Longrightarrow> valid_utf8 (c # s) = valid_utf8 s"
  using rune_width_ascii [of c s] by simp

lemma valid_rune:
  assumes "rune_width s \<noteq> 0" shows "valid_utf8 (take (rune_width s) s @ t) = valid_utf8 t"
  using assms rune_width_take_self [OF assms] rune_width_le [of s]
  by (intro valid_rune_append) auto

declare to_valid.simps(2) [simp del] valid_utf8.simps(2) [simp del]

end
