(* ===== verification/Json.thy ===== *)
theory Json
  imports Utf8 Env GoTime
begin

text \<open>
  The part of Go's \<^verbatim>\<open>encoding/json\<close> the service uses. A value is kept as the decoder sees it: the
  text of a string between its quotes, escapes included, and the text of a number. \<open>decode\<close> reads
  the first value of a request body, as \<^verbatim>\<open>json.NewDecoder(r.Body).Decode\<close> does; what a target makes
  of it is said per field. \<open>quote\<close> and \<open>print_json\<close> are what \<^verbatim>\<open>json.Marshal\<close> writes, HTML escaping
  included. Printed values are read back, strings up to the replacement of invalid UTF-8.
\<close>

declare to_valid.simps(2) [simp] valid_utf8.simps(2) [simp]

datatype json =
    JNull
  | JBool bool
  | JNumber bytes
  | JString bytes
  | JArray "json list"
  | JObject "(bytes \<times> json) list"

definition quote_mark :: char where "quote_mark = CHR 0x22"
definition backslash :: char where "backslash = CHR 0x5C"

section \<open>Strings, written\<close>

text \<open>The escape of an ASCII character; \<^verbatim>\<open><\<close>, \<^verbatim>\<open>>\<close> and \<^verbatim>\<open>&\<close> are escaped for HTML.\<close>

definition quote_ascii :: "char \<Rightarrow> bytes" where
  "quote_ascii c =
     (if c = quote_mark \<or> c = backslash then [backslash, c]
      else if c = CHR 0x08 then backslash # ''b''
      else if c = CHR 0x0C then backslash # ''f''
      else if c = CHR 0x0A then backslash # ''n''
      else if c = CHR 0x0D then backslash # ''r''
      else if c = CHR 0x09 then backslash # ''t''
      else if byte c < 0x20 \<or> c \<in> set ''<>&'' then backslash # ''u'' @ hex 4 (byte c)
      else [c])"

function quote :: "bytes \<Rightarrow> bytes" where
  "quote [] = []"
| "quote (c # s) =
     (let n = rune_width (c # s); r = take n (c # s)
      in if n = 0 then backslash # ''ufffd'' @ quote s
         else if n = 1 then quote_ascii c @ quote s
         else (if r = [CHR 0xE2, CHR 0x80, CHR 0xA8] then backslash # ''u2028''
               else if r = [CHR 0xE2, CHR 0x80, CHR 0xA9] then backslash # ''u2029''
               else r) @ quote (drop (n - 1) s))"
  by pat_completeness auto
termination by (relation "measure length") auto

section \<open>Strings, read\<close>

text \<open>The four digits of a \<^verbatim>\<open>\u\<close> escape, of either case.\<close>

definition hex_digit_val :: "char \<Rightarrow> nat option" where
  "hex_digit_val c =
     (if 0x30 \<le> byte c \<and> byte c \<le> 0x39 then Some (byte c - 0x30)
      else if 0x61 \<le> byte c \<and> byte c \<le> 0x66 then Some (byte c - 0x61 + 10)
      else if 0x41 \<le> byte c \<and> byte c \<le> 0x46 then Some (byte c - 0x41 + 10)
      else None)"

fun hex4 :: "bytes \<Rightarrow> nat option" where
  "hex4 (a # b # c # d # _) =
     (case (hex_digit_val a, hex_digit_val b, hex_digit_val c, hex_digit_val d) of
        (Some w, Some x, Some y, Some z) \<Rightarrow> Some (((w * 16 + x) * 16 + y) * 16 + z)
      | _ \<Rightarrow> None)"
| "hex4 _ = None"

text \<open>\<open>getu4\<close>: a whole \<^verbatim>\<open>\uXXXX\<close> escape at the beginning of a text.\<close>

definition getu4 :: "bytes \<Rightarrow> nat option" where
  "getu4 s = (if take 2 s = [backslash, CHR ''u''] then hex4 (drop 2 s) else None)"

text \<open>The character of an escape of two bytes.\<close>

definition short_escape :: "char \<Rightarrow> char option" where
  "short_escape e =
     (if e \<in> set [quote_mark, backslash, CHR ''/''] then Some e
      else map_of (zip ''bfnrt'' [CHR 0x08, CHR 0x0C, CHR 0x0A, CHR 0x0D, CHR 0x09]) e)"

text \<open>
  \<open>unquote\<close> reads the text between the quotes. A surrogate is joined with the one that follows it,
  and is a replacement character when none does.
\<close>

function unquote :: "bytes \<Rightarrow> bytes option" where
  "unquote [] = Some []"
| "unquote (c # s) =
     (if c = backslash
      then (case getu4 (c # s) of
              Some r \<Rightarrow>
                (case getu4 (drop 5 s) of
                   Some r' \<Rightarrow>
                     (if 0xD800 \<le> r \<and> r < 0xDC00 \<and> 0xDC00 \<le> r' \<and> r' < 0xE000
                      then map_option (append (EncodeRune ((r - 0xD800) * 1024 + (r' - 0xDC00) + 0x10000)))
                        (unquote (drop 11 s))
                      else map_option (append (EncodeRune r)) (unquote (drop 5 s)))
                 | None \<Rightarrow> map_option (append (EncodeRune r)) (unquote (drop 5 s)))
            | None \<Rightarrow>
                (case s of
                   [] \<Rightarrow> None
                 | e # t \<Rightarrow>
                     (case short_escape e of
                        None \<Rightarrow> None
                      | Some d \<Rightarrow> map_option (Cons d) (unquote t))))
      else (let n = rune_width (c # s)
            in if n = 0 then map_option (append replacement) (unquote s)
               else map_option (append (take n (c # s))) (unquote (drop (n - 1) s))))"
  by pat_completeness auto
termination by (relation "measure length") auto

text \<open>\<open>scan_string\<close> finds the closing quote and refuses what no JSON string may contain.\<close>

function scan_string :: "bytes \<Rightarrow> (bytes \<times> bytes) option" where
  "scan_string [] = None"
| "scan_string (c # s) =
     (if c = quote_mark then Some ([], s)
      else if c = backslash
      then (if getu4 (c # s) \<noteq> None
            then map_option (apfst (append (take 6 (c # s)))) (scan_string (drop 5 s))
            else (case s of
                    [] \<Rightarrow> None
                  | e # t \<Rightarrow>
                      (if short_escape e \<noteq> None
                       then map_option (apfst (append [c, e])) (scan_string t) else None)))
      else if byte c < 0x20 then None
      else map_option (apfst (Cons c)) (scan_string s))"
  by pat_completeness auto
termination by (relation "measure length") auto

section \<open>Values, read\<close>

definition json_space :: "char \<Rightarrow> bool" where
  "json_space c \<longleftrightarrow> c \<in> {CHR 0x20, CHR 0x09, CHR 0x0D, CHR 0x0A}"

definition skip_space :: "bytes \<Rightarrow> bytes" where
  "skip_space = dropWhile json_space"

text \<open>A number: an optional sign, digits without a leading zero, a fraction, an exponent.\<close>

definition digits1 :: "bytes \<Rightarrow> (bytes \<times> bytes) option" where
  "digits1 s = (let ds = takeWhile is_digit s in if ds = [] then None else Some (ds, dropWhile is_digit s))"

definition scan_fraction :: "bytes \<Rightarrow> (bytes \<times> bytes) option" where
  "scan_fraction s =
     (if take 1 s = ''.'' then map_option (apfst (append ''.'')) (digits1 (drop 1 s)) else Some ([], s))"

definition scan_exponent :: "bytes \<Rightarrow> (bytes \<times> bytes) option" where
  "scan_exponent s =
     (if take 1 s \<in> {''e'', ''E''}
      then (let sign = take 1 (drop 1 s); k = (if sign \<in> {''+'', ''-''} then 2 else 1)
            in map_option (apfst (append (take k s))) (digits1 (drop k s)))
      else Some ([], s))"

definition scan_number :: "bytes \<Rightarrow> (bytes \<times> bytes) option" where
  "scan_number s =
     (let k = (if take 1 s = ''-'' then 1 else 0); s0 = drop k s
      in do {
        (n, s1) \<leftarrow> (if take 1 s0 = ''0'' then Some (''0'', drop 1 s0) else digits1 s0);
        (f, s2) \<leftarrow> scan_fraction s1;
        (e, s3) \<leftarrow> scan_exponent s2;
        Some (take k s @ n @ f @ e, s3)
      })"

text \<open>
  The members of an object or the elements of an array up to the closing bracket; \<open>p\<close> reads one.
  Readers consume input, the comparison of lengths only says so.
\<close>

function scan_items :: "(bytes \<Rightarrow> ('a \<times> bytes) option) \<Rightarrow> char \<Rightarrow> bytes \<Rightarrow> ('a list \<times> bytes) option" where
  "scan_items p close s =
     (case p s of
        None \<Rightarrow> None
      | Some (x, r) \<Rightarrow>
          (case skip_space r of
             [] \<Rightarrow> None
           | c # t \<Rightarrow>
               (if c = close then Some ([x], t)
                else if c = CHR '','' \<and> length t < length s
                then map_option (apfst (Cons x)) (scan_items p close t)
                else None)))"
  by pat_completeness auto
termination by (relation "measure (\<lambda>(_, _, s). length s)") auto

definition scan_bracket :: "(bytes \<Rightarrow> ('a \<times> bytes) option) \<Rightarrow> char \<Rightarrow> bytes \<Rightarrow> ('a list \<times> bytes) option" where
  "scan_bracket p close s =
     (case skip_space s of
        [] \<Rightarrow> None
      | c # t \<Rightarrow> if c = close then Some ([], t) else scan_items p close s)"

definition scan_member :: "(bytes \<Rightarrow> (json \<times> bytes) option) \<Rightarrow> bytes \<Rightarrow> ((bytes \<times> json) \<times> bytes) option" where
  "scan_member p s =
     (case skip_space s of
        [] \<Rightarrow> None
      | c # t \<Rightarrow>
          (if c \<noteq> quote_mark then None
           else do {
             (k, r) \<leftarrow> scan_string t;
             (case skip_space r of
                [] \<Rightarrow> None
              | d # r' \<Rightarrow> if d = CHR '':'' then map_option (apfst (Pair k)) (p r') else None)
           }))"

definition scan_word :: "bytes \<Rightarrow> json \<Rightarrow> bytes \<Rightarrow> (json \<times> bytes) option" where
  "scan_word w v s = (if take (length w) s = w then Some (v, drop (length w) s) else None)"

text \<open>
  \<open>scan_value d\<close> reads a value with at most \<open>d\<close> brackets open at the same time; the decoder allows
  10000.
\<close>

function scan_value :: "int \<Rightarrow> bytes \<Rightarrow> (json \<times> bytes) option" where
  "scan_value d s =
     (case skip_space s of
        [] \<Rightarrow> None
      | c # t \<Rightarrow>
          (if c = quote_mark then map_option (apfst JString) (scan_string t)
           else if c = CHR ''{''
           then (if d \<le> 0 then None
                 else map_option (apfst JObject) (scan_bracket (scan_member (\<lambda>r. scan_value (d - 1) r)) (CHR ''}'') t))
           else if c = CHR ''[''
           then (if d \<le> 0 then None
                 else map_option (apfst JArray) (scan_bracket (\<lambda>r. scan_value (d - 1) r) (CHR '']'') t))
           else if c = CHR ''n'' then scan_word ''null'' JNull (c # t)
           else if c = CHR ''t'' then scan_word ''true'' (JBool True) (c # t)
           else if c = CHR ''f'' then scan_word ''false'' (JBool False) (c # t)
           else map_option (apfst JNumber) (scan_number (c # t))))"
  by pat_completeness auto
termination by (relation "measure (\<lambda>(d, _). nat d)") auto

declare scan_items.simps [simp del] scan_value.simps [simp del]

definition maxNestingDepth :: int where "maxNestingDepth = 10000"

text \<open>What \<^verbatim>\<open>Decode\<close> finds in a body: its first value. What follows it is not read.\<close>

definition first_value :: "bytes \<Rightarrow> json option" where
  "first_value s = map_option fst (scan_value maxNestingDepth s)"

section \<open>Values, written\<close>

fun intersperse_comma :: "bytes list \<Rightarrow> bytes" where
  "intersperse_comma [] = []"
| "intersperse_comma [s] = s"
| "intersperse_comma (s # t # ss) = s @ '','' @ intersperse_comma (t # ss)"

fun print_json :: "json \<Rightarrow> bytes" where
  "print_json JNull = ''null''"
| "print_json (JBool b) = (if b then ''true'' else ''false'')"
| "print_json (JNumber n) = n"
| "print_json (JString s) = quote_mark # s @ [quote_mark]"
| "print_json (JArray vs) = ''['' @ intersperse_comma (map print_json vs) @ '']''"
| "print_json (JObject ms) =
     ''{'' @ intersperse_comma (map (\<lambda>(k, v). quote_mark # k @ [quote_mark] @ '':'' @ print_json v) ms) @ ''}''"

text \<open>The values of a Go string and of a Go int.\<close>

definition json_string :: "bytes \<Rightarrow> json" where
  "json_string s = JString (quote s)"

definition json_int :: "int \<Rightarrow> json" where
  "json_int n = JNumber (if n < 0 then ''-'' @ dec (nat (- n)) else dec (nat n))"

text \<open>An encoder ends every value with a newline.\<close>

definition Encode :: "json \<Rightarrow> bytes" where
  "Encode v = print_json v @ [CHR 0x0A]"

section \<open>Quoted strings are read back\<close>

declare quote.simps(2) [simp del] unquote.simps(2) [simp del] scan_string.simps(2) [simp del]

lemma hex_digit_vals: "\<forall>n \<in> set [0..<16]. hex_digit_val (hex_digit n) = Some n"
  by code_simp

lemma hex_digit_val [simp]: "n < 16 \<Longrightarrow> hex_digit_val (hex_digit n) = Some n"
  using hex_digit_vals by auto

lemma hex4_hex:
  assumes "n < 65536"
  shows "hex4 (hex 4 n @ t) = Some n"
proof -
  define x where "x = n div 16"
  define y where "y = x div 16"
  have n: "n = x * 16 + n mod 16" and x: "x = y * 16 + x mod 16" by (simp_all add: x_def y_def)
  have y: "y = y div 16 * 16 + y mod 16" by simp
  have top: "y div 16 < 16" using assms by (simp add: x_def y_def div_mult2_eq [symmetric] less_mult_imp_div_less)
  have "hex 4 n = [hex_digit (y div 16 mod 16), hex_digit (y mod 16), hex_digit (x mod 16), hex_digit (n mod 16)]"
    unfolding x_def y_def by (simp only: hex.simps append.simps eval_nat_numeral BitM.simps)
  then have "hex4 (hex 4 n @ t) = Some (((y div 16 * 16 + y mod 16) * 16 + x mod 16) * 16 + n mod 16)"
    using top by (simp only: append.simps hex4.simps hex_digit_val mod_less mod_less_divisor option.case
        prod.case zero_less_numeral)
  then show ?thesis by (simp only: y [symmetric] x [symmetric] n [symmetric])
qed

declare hex4.simps(1) [simp del]

lemma append_single [simp]: "(@) [c] = (#) c"
  by (rule ext) simp

lemma backslash_simps [simp]:
  "backslash \<noteq> quote_mark" "quote_mark \<noteq> backslash" "byte backslash = 0x5C" "byte quote_mark = 0x22"
  by (simp_all add: backslash_def quote_mark_def byte_def)

lemma getu4_escape [simp]: "getu4 (backslash # CHR ''u'' # s) = hex4 s"
  by (simp add: getu4_def)

lemma getu4_other: "e \<noteq> CHR ''u'' \<Longrightarrow> getu4 (backslash # e # s) = None"
  by (simp add: getu4_def)

lemma unquote_u:
  assumes "hex4 s = Some r" and "\<not> surrogate r"
  shows "unquote (backslash # CHR ''u'' # s) = map_option (append (EncodeRune r)) (unquote (drop 4 s))"
proof -
  have no: "\<not> (0xD800 \<le> r \<and> r < 0xDC00 \<and> 0xDC00 \<le> r' \<and> r' < 0xE000)" for r' :: nat
    using assms(2) by (auto simp: surrogate_def)
  have "drop 5 (CHR ''u'' # s) = drop 4 s" by simp
  then show ?thesis
    by (subst unquote.simps(2), subst (1) if_P [OF refl])
      (simp only: getu4_escape assms(1) option.case no if_False split: option.split; simp)
qed

lemma unquote_short:
  assumes "short_escape e = Some d"
  shows "unquote (backslash # e # t) = map_option (Cons d) (unquote t)"
proof -
  have "short_escape (CHR ''u'') = None" by code_simp
  with assms have "e \<noteq> CHR ''u''" by auto
  with assms show ?thesis by (simp add: unquote.simps getu4_other)
qed

lemma unquote_rune:
  assumes "rune_width (c # s) \<noteq> 0" "c \<noteq> backslash"
  shows "unquote (c # s) =
    map_option (append (take (rune_width (c # s)) (c # s))) (unquote (drop (rune_width (c # s)) (c # s)))"
  using assms drop_width [OF assms(1)] by (simp add: unquote.simps Let_def)

lemma short_escapes:
  "short_escape quote_mark = Some quote_mark" "short_escape backslash = Some backslash"
  "short_escape (CHR ''b'') = Some (CHR 0x08)" "short_escape (CHR ''f'') = Some (CHR 0x0C)"
  "short_escape (CHR ''n'') = Some (CHR 0x0A)" "short_escape (CHR ''r'') = Some (CHR 0x0D)"
  "short_escape (CHR ''t'') = Some (CHR 0x09)"
  by code_simp+

text \<open>The four forms an ASCII character is written in.\<close>

lemma quote_ascii_cases:
  assumes "byte c < 0x80"
  obtains (short) e where "quote_ascii c = [backslash, e]" "short_escape e = Some c"
  | (long) "quote_ascii c = backslash # CHR ''u'' # hex 4 (byte c)"
  | (plain) "quote_ascii c = [c]" "c \<noteq> backslash" "c \<noteq> quote_mark" "0x20 \<le> byte c"
proof -
  consider "c = quote_mark" | "c = backslash" | "c = CHR 0x08" | "c = CHR 0x0C" | "c = CHR 0x0A"
    | "c = CHR 0x0D" | "c = CHR 0x09"
    | "c \<notin> {quote_mark, backslash, CHR 0x08, CHR 0x0C, CHR 0x0A, CHR 0x0D, CHR 0x09}" by blast
  then show thesis
  proof cases
    case 8
    then have "c \<noteq> quote_mark" "c \<noteq> backslash" by simp_all
    moreover have "quote_ascii c =
        (if byte c < 0x20 \<or> c \<in> set ''<>&'' then backslash # ''u'' @ hex 4 (byte c) else [c])"
      using 8 by (simp add: quote_ascii_def)
    ultimately show thesis using long plain by (auto split: if_splits)
  qed (use short short_escapes in \<open>simp_all add: quote_ascii_def backslash_def quote_mark_def\<close>)
qed

lemma unquote_quote_ascii:
  assumes "byte c < 0x80"
  shows "unquote (quote_ascii c @ t) = map_option (Cons c) (unquote t)"
  using assms
proof (cases c rule: quote_ascii_cases)
  case (short e)
  then show ?thesis by (simp add: unquote_short)
next
  case long
  moreover have "hex4 (hex 4 (byte c) @ t) = Some (byte c)" using assms by (intro hex4_hex) simp
  moreover have "\<not> surrogate (byte c)" "EncodeRune (byte c) = [c]"
    using assms by (simp_all add: surrogate_def EncodeRune_def)
  ultimately show ?thesis by (simp add: unquote_u)
next
  case plain
  moreover have "rune_width (c # t) = 1" using assms rune_width_ascii by blast
  ultimately show ?thesis using unquote_rune [of c t] by simp
qed

lemma hex4_append: "hex4 h = Some n \<Longrightarrow> hex4 (h @ t) = Some n"
  by (cases h rule: hex4.cases) (simp_all add: hex4.simps)

lemma hex4_values: "hex4 ''fffd'' = Some 0xFFFD" "hex4 ''2028'' = Some 0x2028" "hex4 ''2029'' = Some 0x2029"
  by (simp_all add: hex4.simps hex_digit_val_def byte_def)

lemma EncodeRune_values:
  "EncodeRune 0xFFFD = replacement"
  "EncodeRune 0x2028 = [CHR 0xE2, CHR 0x80, CHR 0xA8]"
  "EncodeRune 0x2029 = [CHR 0xE2, CHR 0x80, CHR 0xA9]"
  by (simp_all add: EncodeRune_def surrogate_def replacement_def char_of_eq_iff)

lemma unquote_long:
  "unquote (backslash # CHR ''u'' # CHR ''f'' # CHR ''f'' # CHR ''f'' # CHR ''d'' # t) =
    map_option (append replacement) (unquote t)"
  "unquote (backslash # CHR ''u'' # CHR ''2'' # CHR ''0'' # CHR ''2'' # CHR ''8'' # t) =
    map_option (append [CHR 0xE2, CHR 0x80, CHR 0xA8]) (unquote t)"
  "unquote (backslash # CHR ''u'' # CHR ''2'' # CHR ''0'' # CHR ''2'' # CHR ''9'' # t) =
    map_option (append [CHR 0xE2, CHR 0x80, CHR 0xA9]) (unquote t)"
  using hex4_values [THEN hex4_append, THEN unquote_u, of t] EncodeRune_values
  by (simp_all add: surrogate_def)

theorem unquote_quote: "unquote (quote s) = Some (to_valid s)"
proof (induction s rule: quote.induct)
  case (2 c s)
  define n where "n = rune_width (c # s)"
  define r where "r = take n (c # s)"
  define q where "q = quote (drop (n - 1) s)"
  consider "n = 0" | "n = 1" | "n \<noteq> 0" "n \<noteq> 1" by blast
  then show ?case
  proof cases
    case 1
    with 2(1) [OF n_def r_def] show ?thesis
      by (simp add: quote.simps Let_def n_def unquote_long)
  next
    case ascii: 2
    then have "byte c < 0x80" using rune_width_ascii [of c s] by (simp add: n_def)
    with ascii 2(2) [OF n_def r_def] show ?thesis
      by (simp add: quote.simps Let_def n_def unquote_quote_ascii)
  next
    case 3
    have tail: "unquote q = Some (to_valid (drop (n - 1) s))"
      unfolding q_def using 2(3) [OF n_def r_def] 3 by blast
    have valid: "to_valid (c # s) = r @ to_valid (drop (n - 1) s)"
      using 3 by (simp add: n_def r_def Let_def)
    have quoted: "quote (c # s) = (if r = [CHR 0xE2, CHR 0x80, CHR 0xA8] then backslash # ''u2028''
        else if r = [CHR 0xE2, CHR 0x80, CHR 0xA9] then backslash # ''u2029'' else r) @ q"
      using 3 by (simp add: quote.simps Let_def n_def r_def q_def)
    consider "r = [CHR 0xE2, CHR 0x80, CHR 0xA8]" | "r = [CHR 0xE2, CHR 0x80, CHR 0xA9]"
      | "r \<noteq> [CHR 0xE2, CHR 0x80, CHR 0xA8]" "r \<noteq> [CHR 0xE2, CHR 0x80, CHR 0xA9]" by blast
    then show ?thesis
    proof cases
      case 1
      with tail show ?thesis unfolding valid quoted by (simp add: unquote_long)
    next
      case 2
      with tail show ?thesis unfolding valid quoted by (simp add: unquote_long)
    next
      case same: 3
      obtain r' where r: "r = c # r'" using 3 by (cases n) (simp_all add: r_def)
      have "0x80 \<le> byte c" using rune_bytes [of c s] 3 r by (simp add: n_def r_def)
      then have c: "c \<noteq> backslash" by auto
      have w: "rune_width (r @ q) = length r" and len: "length r = n"
        using rune_width_take [of "c # s" q] rune_width_le [of "c # s"] 3
        by (simp_all add: r_def n_def)
      have "unquote (r @ q) = map_option (append (take n (r @ q))) (unquote (drop n (r @ q)))"
        using unquote_rune [of c "r' @ q"] c 3 w len by (simp only: r append_Cons not_False_eq_True simp_thms)
      then have "unquote (r @ q) = map_option (append r) (unquote q)" using len by simp
      with tail same show ?thesis unfolding valid quoted by (simp only: if_False) simp
    qed
  qed
qed simp

section \<open>Quoted strings end where they should\<close>

definition piece :: "bytes \<Rightarrow> bool" where
  "piece r \<longleftrightarrow> (\<forall>t. scan_string (r @ t) = map_option (apfst (append r)) (scan_string t))"

lemma piece_Nil: "piece []"
  by (simp add: piece_def apfst_def map_prod_def option.map_id0 case_prod_eta id_def [symmetric])

lemma piece_append:
  assumes "piece r" "piece q" shows "piece (r @ q)"
  unfolding piece_def
proof
  fix t
  show "scan_string ((r @ q) @ t) = map_option (apfst (append (r @ q))) (scan_string t)"
    using assms [unfolded piece_def] by (cases "scan_string t") auto
qed

lemma piece_char: "0x20 \<le> byte c \<Longrightarrow> c \<noteq> backslash \<Longrightarrow> c \<noteq> quote_mark \<Longrightarrow> piece [c]"
  by (simp add: piece_def scan_string.simps(2))

lemma piece_high: "\<forall>d \<in> set r. 0x80 \<le> byte d \<Longrightarrow> piece r"
proof (induction r)
  case (Cons d r)
  then have "piece [d]" by (intro piece_char) auto
  with piece_append [of "[d]" r] Cons show ?case by simp
qed (rule piece_Nil)

lemma piece_u: "(\<And>t. hex4 (h @ t) \<noteq> None) \<Longrightarrow> length h = 4 \<Longrightarrow> piece (backslash # CHR ''u'' # h)"
  by (simp add: piece_def scan_string.simps(2) [of backslash])

lemma piece_short:
  assumes "short_escape e = Some d" shows "piece [backslash, e]"
proof -
  have "short_escape (CHR ''u'') = None" by code_simp
  with assms have "e \<noteq> CHR ''u''" by auto
  with assms show ?thesis by (simp add: piece_def scan_string.simps(2) [of backslash] getu4_other)
qed

lemma piece_quote_ascii:
  assumes "byte c < 0x80" shows "piece (quote_ascii c)"
  using assms
proof (cases c rule: quote_ascii_cases)
  case (short e)
  then show ?thesis using piece_short by simp
next
  case long
  with assms show ?thesis using piece_u [of "hex 4 (byte c)"] hex4_hex [of "byte c"] by simp
next
  case plain
  then show ?thesis using piece_char by simp
qed

lemma piece_quote: "piece (quote s)"
proof (induction s rule: quote.induct)
  case 1
  then show ?case by (simp add: piece_Nil)
next
  case (2 c s)
  define n where "n = rune_width (c # s)"
  define r where "r = take n (c # s)"
  consider "n = 0" | "n = 1" | "n \<noteq> 0" "n \<noteq> 1" by blast
  then show ?case
  proof cases
    case 1
    have "piece (backslash # ''ufffd'')" using piece_u [of "''fffd''"] hex4_append [OF hex4_values(1)] by simp
    from piece_append [OF this, of "quote s"] 2(1) [OF n_def r_def] 1 show ?thesis
      by (simp add: quote.simps Let_def n_def)
  next
    case ascii: 2
    then have "byte c < 0x80" using rune_width_ascii [of c s] by (simp add: n_def)
    from piece_append [OF piece_quote_ascii [OF this], of "quote s"] 2(2) [OF n_def r_def] ascii
    show ?thesis by (simp add: quote.simps Let_def n_def)
  next
    case 3
    let ?e = "if r = [CHR 0xE2, CHR 0x80, CHR 0xA8] then backslash # ''u2028''
        else if r = [CHR 0xE2, CHR 0x80, CHR 0xA9] then backslash # ''u2029'' else r"
    have "piece r" using rune_bytes [of c s] 3 by (intro piece_high) (simp add: n_def r_def)
    moreover have "piece (backslash # ''u2028'')" "piece (backslash # ''u2029'')"
      using piece_u [of "''2028''"] piece_u [of "''2029''"] hex4_append [OF hex4_values(2)]
        hex4_append [OF hex4_values(3)] by simp_all
    ultimately have "piece ?e" by (simp only: if_split simp_thms)
    moreover have "quote (c # s) = ?e @ quote (drop (n - 1) s)"
      using 3 by (simp add: quote.simps Let_def n_def r_def)
    moreover have "piece (quote (drop (n - 1) s))" using 2(3) [OF n_def r_def] 3 by blast
    ultimately show ?thesis by (simp only: piece_append)
  qed
qed

lemma scan_quote: "scan_string (quote s @ quote_mark # t) = Some (quote s, t)"
  using piece_quote [unfolded piece_def, rule_format, of s "quote_mark # t"] by (simp add: scan_string.simps)

section \<open>Printed values are read back\<close>

text \<open>What may follow a number: nothing, or a character that does not continue it.\<close>

definition number_end :: "bytes \<Rightarrow> bool" where
  "number_end t \<longleftrightarrow> (case t of [] \<Rightarrow> True | c # _ \<Rightarrow> \<not> is_digit c \<and> c \<notin> {CHR ''.'', CHR ''e'', CHR ''E''})"

lemma dec_head: "0 < n \<Longrightarrow> hd (dec n) \<noteq> CHR ''0''"
proof (induction n rule: dec.induct)
  case (1 n)
  show ?case
  proof (cases "n < 10")
    case True
    then have "digit n \<noteq> CHR ''0''"
      using 1(2) by (auto simp: digit_def char_of_eq_iff take_bit_eq_mod)
    with True show ?thesis by (simp add: dec.simps [of n])
  next
    case False
    with 1 dec_not_Nil show ?thesis by (simp add: dec.simps [of n])
  qed
qed

lemma digits1_dec:
  assumes "number_end t" shows "digits1 (dec n @ t) = Some (dec n, t)"
proof -
  have "takeWhile is_digit (dec n @ t) = dec n" "dropWhile is_digit (dec n @ t) = t"
    using digits_dec [of n] assms
    by (cases t; simp add: takeWhile_append2 dropWhile_append2 number_end_def)+
  then show ?thesis by (simp add: digits1_def dec_not_Nil)
qed

lemma scan_tail: "number_end t \<Longrightarrow> scan_fraction t = Some ([], t)" "number_end t \<Longrightarrow> scan_exponent t = Some ([], t)"
  by (cases t; simp add: scan_fraction_def scan_exponent_def number_end_def)+

lemma scan_dec:
  assumes "number_end t"
  shows "(if take 1 (dec n @ t) = ''0'' then Some (''0'', drop 1 (dec n @ t)) else digits1 (dec n @ t)) =
    Some (dec n, t)"
proof (cases "n = 0")
  case True
  have "dec 0 = ''0''" by (simp add: dec.simps [of 0] digit_def char_of_eq_iff)
  with True show ?thesis by simp
next
  case False
  obtain c s where "dec n = c # s" using dec_not_Nil by (cases "dec n") auto
  with False dec_head [of n] have "take 1 (dec n @ t) \<noteq> ''0''" by simp
  with digits1_dec [OF assms] show ?thesis by (simp only: if_False)
qed

lemma scan_number_dec:
  assumes "number_end t"
  shows "scan_number (dec n @ t) = Some (dec n, t)" "scan_number (''-'' @ dec n @ t) = Some (''-'' @ dec n, t)"
proof -
  obtain c s where c: "dec n = c # s" using dec_not_Nil by (cases "dec n") auto
  with digits_dec [of n] have "c \<noteq> CHR ''-''" by (auto simp: is_digit_def)
  then have head: "take 1 (dec n @ t) \<noteq> ''-''" by (simp add: c)
  note facts = scan_dec [OF assms, of n] scan_tail [OF assms]
  show "scan_number (dec n @ t) = Some (dec n, t)"
    unfolding scan_number_def Let_def using head facts by (simp only: if_False drop_0) simp
  have minus: "take 1 (''-'' @ dec n @ t) = ''-''" "drop 1 (''-'' @ dec n @ t) = dec n @ t" by simp_all
  show "scan_number (''-'' @ dec n @ t) = Some (''-'' @ dec n, t)"
    unfolding scan_number_def Let_def minus using facts by (simp only: if_True refl minus) simp
qed

text \<open>The values that are written: strings are quoted texts, numbers integers.\<close>

fun printable :: "int \<Rightarrow> json \<Rightarrow> bool" where
  "printable d (JNumber n) \<longleftrightarrow> (\<exists>k. json_int k = JNumber n)"
| "printable d (JString s) \<longleftrightarrow> (\<exists>u. s = quote u)"
| "printable d (JArray vs) \<longleftrightarrow> 0 < d \<and> (\<forall>v \<in> set vs. printable (d - 1) v)"
| "printable d (JObject ms) \<longleftrightarrow>
     0 < d \<and> (\<forall>(k, v) \<in> set ms. (\<exists>u. k = quote u) \<and> printable (d - 1) v)"
| "printable d _ \<longleftrightarrow> True"

text \<open>How a written value begins.\<close>

definition begins :: "bytes \<Rightarrow> bool" where
  "begins s \<longleftrightarrow> (case s of [] \<Rightarrow> False | c # _ \<Rightarrow> \<not> json_space c \<and> c \<noteq> CHR '']'' \<and> c \<noteq> CHR ''}'')"

lemma begins_append: "begins s \<Longrightarrow> begins (s @ t)" "begins s \<Longrightarrow> s \<noteq> []"
  by (auto simp: begins_def split: list.splits)

lemma skip_begins [simp]: "begins s \<Longrightarrow> skip_space s = s" "begins s \<Longrightarrow> skip_space (s @ t) = s @ t"
  by (auto simp: begins_def skip_space_def split: list.splits)

lemma begins_dec: "begins (dec n)"
proof -
  obtain c s where c: "dec n = c # s" using dec_not_Nil by (cases "dec n") auto
  with digits_dec [of n] have "is_digit c" by simp
  then show ?thesis by (auto simp: c begins_def json_space_def is_digit_def)
qed

lemma begins_printed: "printable d v \<Longrightarrow> begins (print_json v)"
  by (cases v)
    (auto simp: json_int_def begins_dec split: if_splits,
      auto simp: begins_def json_space_def quote_mark_def)

lemma scan_items_printed:
  assumes "xs \<noteq> []" and "\<And>x u. x \<in> set xs \<Longrightarrow> number_end u \<Longrightarrow> p (f x @ u) = Some (x, u)"
    and "close = CHR '']'' \<or> close = CHR ''}''"
  shows "scan_items p close (intersperse_comma (map f xs) @ close # t) = Some (xs, t)"
  using assms(1,2)
proof (induction xs rule: list_nonempty_induct)
  case (single x)
  have "number_end (close # t)" "skip_space (close # t) = close # t"
    using assms(3) by (auto simp: number_end_def is_digit_def skip_space_def json_space_def)
  with single show ?case by (subst scan_items.simps) simp
next
  case (cons x xs)
  let ?rest = "intersperse_comma (map f xs) @ close # t"
  have split: "intersperse_comma (map f (x # xs)) @ close # t = f x @ CHR '','' # ?rest"
    using cons.hyps by (cases xs) simp_all
  have "number_end (CHR '','' # ?rest)" "skip_space (CHR '','' # ?rest) = CHR '','' # ?rest"
    by (simp_all add: number_end_def is_digit_def skip_space_def json_space_def)
  moreover have "CHR '','' \<noteq> close" using assms(3) by auto
  ultimately show ?case
    unfolding split using cons by (subst scan_items.simps) simp
qed

lemma scan_bracket_printed:
  assumes "\<And>x u. x \<in> set xs \<Longrightarrow> number_end u \<Longrightarrow> p (f x @ u) = Some (x, u)"
    and "\<And>x. x \<in> set xs \<Longrightarrow> begins (f x)"
    and "close = CHR '']'' \<or> close = CHR ''}''"
  shows "scan_bracket p close (intersperse_comma (map f xs) @ close # t) = Some (xs, t)"
proof (cases xs)
  case Nil
  then show ?thesis using assms(3) by (auto simp: scan_bracket_def skip_space_def json_space_def)
next
  case (Cons x ys)
  then have "begins (intersperse_comma (map f xs) @ close # t)"
    using assms(2) [of x] begins_append by (cases ys) auto
  moreover from this obtain c u where "intersperse_comma (map f xs) @ close # t = c # u" "c \<noteq> close"
    using assms(3) by (auto simp: begins_def split: list.splits)
  moreover have "scan_items p close (intersperse_comma (map f xs) @ close # t) = Some (xs, t)"
    using Cons assms by (intro scan_items_printed) simp_all
  ultimately show ?thesis by (simp add: scan_bracket_def)
qed

lemma scan_member_printed:
  assumes "\<And>u. number_end u \<Longrightarrow> p (print_json v @ u) = Some (v, u)" and "number_end u"
  shows "scan_member p (quote_mark # quote k @ [quote_mark] @ '':'' @ print_json v @ u) = Some ((quote k, v), u)"
proof -
  have "skip_space (quote_mark # r) = quote_mark # r" "skip_space (CHR '':'' # r) = CHR '':'' # r" for r
    by (simp_all add: skip_space_def json_space_def quote_mark_def)
  then show ?thesis using assms by (simp add: scan_member_def scan_quote)
qed

lemma scan_value_head:
  assumes "\<not> json_space c"
  shows "skip_space (c # t) = c # t"
  using assms by (simp add: skip_space_def)

theorem scan_printed:
  assumes "printable d v" and "number_end t"
  shows "scan_value d (print_json v @ t) = Some (v, t)"
  using assms
proof (induction v arbitrary: d t)
  case (JNumber n)
  then obtain k where "json_int k = JNumber n" by auto
  then have "scan_number (n @ t) = Some (n, t)" "n = ''-'' @ dec (nat (- k)) \<or> n = dec (nat k)"
    using scan_number_dec [OF JNumber.prems(2)] by (auto simp: json_int_def split: if_splits)
  moreover from this obtain c s where cs: "n @ t = c # s" "c = CHR ''-'' \<or> is_digit c" "\<not> json_space c"
    using digits_dec [of "nat k"] dec_not_Nil [of "nat k"] begins_dec [of "nat k"]
    by (cases "dec (nat k)") (auto simp: begins_def json_space_def)
  moreover from cs(2) have "c \<noteq> quote_mark" "c \<noteq> CHR ''{''" "c \<noteq> CHR ''[''" "c \<noteq> CHR ''n''"
      "c \<noteq> CHR ''t''" "c \<noteq> CHR ''f''"
    by (auto simp: quote_mark_def is_digit_def)
  with cs(3) have "scan_value d (c # s) = map_option (apfst JNumber) (scan_number (c # s))"
    by (subst scan_value.simps) (simp add: scan_value_head)
  ultimately show ?case by simp
next
  case (JString s)
  then obtain u where "s = quote u" by auto
  then show ?case
    by (subst scan_value.simps) (simp add: scan_value_head json_space_def quote_mark_def scan_quote [unfolded quote_mark_def])
next
  case (JArray vs)
  then have d: "0 < d" "\<forall>v \<in> set vs. printable (d - 1) v" by simp_all
  have "scan_bracket (scan_value (d - 1)) (CHR '']'') (intersperse_comma (map print_json vs) @ CHR '']'' # t) =
      Some (vs, t)"
    by (rule scan_bracket_printed) (use JArray.IH d begins_printed in auto)
  with d show ?case by (subst scan_value.simps) (simp add: scan_value_head json_space_def quote_mark_def)
next
  case (JObject ms)
  then have d: "0 < d" "\<forall>(k, v) \<in> set ms. (\<exists>u. k = quote u) \<and> printable (d - 1) v" by simp_all
  let ?f = "\<lambda>(k, v). quote_mark # k @ [quote_mark] @ '':'' @ print_json v"
  have "scan_bracket (scan_member (scan_value (d - 1))) (CHR ''}'') (intersperse_comma (map ?f ms) @ CHR ''}'' # t) =
      Some (ms, t)"
  proof (rule scan_bracket_printed)
    fix m u assume m: "m \<in> set ms" and u: "number_end u"
    obtain k v where kv: "m = (k, v)" by (cases m)
    with d m obtain k' where k: "k = quote k'" "printable (d - 1) v" by auto
    have "scan_value (d - 1) (print_json v @ u') = Some (v, u')" if "number_end u'" for u'
      using JObject.IH [of m v] m kv k that by simp
    from scan_member_printed [OF this u] show "scan_member (scan_value (d - 1)) (?f m @ u) = Some (m, u)"
      by (simp add: kv k)
  qed (auto simp: begins_def quote_mark_def json_space_def)
  with d show ?case by (subst scan_value.simps) (simp add: scan_value_head json_space_def quote_mark_def)
qed (subst scan_value.simps, simp add: scan_value_head json_space_def quote_mark_def scan_word_def)+

lemma first_value_Encode: "printable maxNestingDepth v \<Longrightarrow> first_value (Encode v) = Some v"
  using scan_printed [of maxNestingDepth v "[CHR 0x0A]"]
  by (simp add: first_value_def Encode_def number_end_def is_digit_def)

text \<open>What is read is valid UTF-8, whatever the bytes of the body.\<close>

lemma short_escape_ascii:
  assumes "short_escape e = Some d" shows "byte d < 0x80"
proof -
  have "e \<in> set [quote_mark, backslash, CHR ''/'', CHR ''b'', CHR ''f'', CHR ''n'', CHR ''r'', CHR ''t'']"
    using assms by (auto simp: short_escape_def split: if_splits)
  moreover have "\<forall>e \<in> set [quote_mark, backslash, CHR ''/'', CHR ''b'', CHR ''f'', CHR ''n'', CHR ''r'', CHR ''t''].
      case short_escape e of None \<Rightarrow> True | Some d \<Rightarrow> byte d < 0x80" by code_simp
  ultimately show ?thesis using assms by fastforce
qed

lemma unquote_valid: "unquote s = Some t \<Longrightarrow> valid_utf8 t"
proof (induction s arbitrary: t rule: unquote.induct)
  case 1
  then show ?case by simp
next
  case (2 c s)
  show ?case
  proof (cases "c = backslash")
    case True
    have valid: "valid_utf8 (EncodeRune r)" for r using valid_EncodeRune [of r "[]"] by simp
    show ?thesis
    proof (cases "getu4 (c # s)")
      case None
      with 2 True obtain e d r u where "s = e # r" "short_escape e = Some d" "unquote r = Some u" "t = d # u"
        by (auto simp: unquote.simps(2) split: list.splits option.splits)
      moreover from this 2 True None have "valid_utf8 u" by (auto split: list.splits option.splits)
      ultimately show ?thesis using short_escape_ascii by (simp add: valid_ascii_Cons del: valid_utf8.simps(2))
    next
      case (Some r)
      with 2 True show ?thesis
        by (auto simp: unquote.simps(2) valid valid_EncodeRune split: option.splits if_splits)
    qed
  next
    case False
    show ?thesis
    proof (cases "rune_width (c # s) = 0")
      case True
      with False 2 show ?thesis
        using valid_rune_append [OF replacement_width]
        by (auto simp: unquote.simps(2) replacement_def)
    next
      case n: False
      with False 2 obtain u where "t = take (rune_width (c # s)) (c # s) @ u" "valid_utf8 u"
        by (auto simp: unquote.simps(2) Let_def)
      with valid_rune [OF n] show ?thesis by simp
    qed
  qed
qed

section \<open>Structs\<close>

text \<open>
  A member belongs to the field whose name its key folds to. Names of fields are ASCII; besides
  the letters, only the long s and the Kelvin sign fold to ASCII letters.
\<close>

fun fold_name :: "bytes \<Rightarrow> bytes" where
  "fold_name [] = []"
| "fold_name (c # s) =
     (if c = CHR 0xC5 \<and> take 1 s = [CHR 0xBF] then CHR ''S'' # fold_name (drop 1 s)
      else if c = CHR 0xE2 \<and> take 2 s = [CHR 0x84, CHR 0xAA] then CHR ''K'' # fold_name (drop 2 s)
      else (if 0x61 \<le> byte c \<and> byte c \<le> 0x7A then char_of (byte c - 0x20) else c) # fold_name s)"

text \<open>A member for a field of type string: null leaves the field alone, other types are an error.\<close>

definition string_field :: "json \<Rightarrow> bytes \<Rightarrow> bytes option" where
  "string_field v old = (case v of JString s \<Rightarrow> unquote s | JNull \<Rightarrow> Some old | _ \<Rightarrow> None)"

fun decode_members :: "(bytes \<Rightarrow> json \<Rightarrow> 'a \<Rightarrow> 'a option) \<Rightarrow> (bytes \<times> json) list \<Rightarrow> 'a \<Rightarrow> 'a option" where
  "decode_members set_field [] x = Some x"
| "decode_members set_field ((k, v) # ms) x = do {
     key \<leftarrow> unquote k;
     x' \<leftarrow> set_field (fold_name key) v x;
     decode_members set_field ms x'
   }"

text \<open>
  \<^verbatim>\<open>json.NewDecoder(r.Body).Decode(&x)\<close> for a struct: \<open>set_field\<close> stores a member under its folded
  name. The body \<^verbatim>\<open>null\<close> leaves the struct alone.
\<close>

definition Decode :: "(bytes \<Rightarrow> json \<Rightarrow> 'a \<Rightarrow> 'a option) \<Rightarrow> 'a \<Rightarrow> bytes \<Rightarrow> 'a option" where
  "Decode set_field x s =
     (case first_value s of
        Some JNull \<Rightarrow> Some x
      | Some (JObject ms) \<Rightarrow> decode_members set_field ms x
      | _ \<Rightarrow> None)"

text \<open>The object an encoder writes for a struct.\<close>

definition json_object :: "(bytes \<times> json) list \<Rightarrow> json" where
  "json_object ms = JObject (map (apfst quote) ms)"

text \<open>A member that \<^verbatim>\<open>omitempty\<close> leaves out.\<close>

definition omitempty :: "bytes \<Rightarrow> bytes \<Rightarrow> (bytes \<times> json) list" where
  "omitempty k s = (if s = [] then [] else [(k, json_string s)])"

text \<open>The member of an object a reader finds under a key, and the text of a string.\<close>

definition member :: "bytes \<Rightarrow> json \<Rightarrow> json option" where
  "member k v = (case v of JObject ms \<Rightarrow> map_of (map (\<lambda>(k, v). (unquote k, v)) (rev ms)) (Some k) | _ \<Rightarrow> None)"

definition text_of :: "json \<Rightarrow> bytes option" where
  "text_of v = (case v of JString s \<Rightarrow> unquote s | _ \<Rightarrow> None)"

lemma printable_string [simp]: "printable d (json_string s)"
  by (auto simp: json_string_def)

lemma printable_int [simp]: "printable d (json_int n)"
  by (cases "json_int n") (auto simp: json_int_def)

lemma printable_object [simp]:
  "printable d (json_object ms) \<longleftrightarrow> 0 < d \<and> (\<forall>(k, v) \<in> set ms. printable (d - 1) v)"
  by (auto simp: json_object_def)

lemma string_field_quoted [simp]: "string_field (json_string s) old = Some (to_valid s)"
  by (simp add: string_field_def json_string_def unquote_quote)

lemma text_of_string [simp]: "text_of (json_string s) = Some (to_valid s)"
  by (simp add: text_of_def json_string_def unquote_quote)

lemma member_object: "member k (json_object ms) = map_of (map (\<lambda>(k, v). (to_valid k, v)) (rev ms)) k"
proof -
  have "map_of (map (\<lambda>(k, v). (Some (to_valid k), v)) ks) (Some k) = map_of (map (\<lambda>(k, v). (to_valid k, v)) ks) k"
    for ks :: "(bytes \<times> json) list" by (induction ks) auto
  from this [of "rev ms"] show ?thesis
    by (simp add: member_def json_object_def rev_map comp_def case_prod_unfold unquote_quote)
qed

theorem Decode_object:
  assumes "printable maxNestingDepth (json_object ms)"
  shows "Decode set_field x (Encode (json_object ms)) =
    foldl (\<lambda>y (k, v). Option.bind y (set_field (fold_name (to_valid k)) v)) (Some x) ms"
proof -
  have none: "foldl (\<lambda>y (k, v). Option.bind y (set_field (fold_name (to_valid k)) v)) None ks = None" for ks
    by (induction ks) auto
  have "decode_members set_field (map (apfst quote) ks) z =
      foldl (\<lambda>y (k, v). Option.bind y (set_field (fold_name (to_valid k)) v)) (Some z) ks" for ks z
  proof (induction ks arbitrary: z)
    case (Cons m ks)
    then show ?case
      by (cases m; cases "set_field (fold_name (to_valid (fst m))) (snd m) z")
        (simp_all add: unquote_quote none)
  qed simp
  then show ?thesis
    by (simp add: Decode_def first_value_Encode [OF assms]) (simp add: json_object_def)
qed

declare to_valid.simps(2) [simp del] valid_utf8.simps(2) [simp del] fold_name.simps(2) [simp del]

end
