(* ===== verification/Http.thy ===== *)
theory Http
  imports GoTime Env Domain Json "HOL-Library.List_Lexorder"
begin

text \<open>
  HTTP requests and responses, and the middleware of \<^verbatim>\<open>api/middleware\<close>. A response is its
  status, its content type and the value handed to the JSON encoder. The JWT library is the
  argument \<open>verify\<close>, what \<^verbatim>\<open>jwt.ParseWithClaims\<close> answers for a raw token with the key set of
  the service and the option that requires an expiry.
\<close>

section \<open>Requests and responses\<close>

text \<open>
  \<open>rq_Authorization\<close> is the header's first value, empty without one; \<open>rq_Query\<close> are the decoded
  parameters in order.
\<close>

record http_request =
  rq_Method :: string
  rq_Path :: string
  rq_Authorization :: string
  rq_Query :: "(string \<times> string) list"
  rq_Body :: bytes

definition query_Get :: "(string \<times> string) list \<Rightarrow> string \<Rightarrow> string" where
  "query_Get q k = (case map_of q k of None \<Rightarrow> [] | Some v \<Rightarrow> v)"

record policy_response =
  pr_ID :: string
  pr_PolicyNumber :: string
  pr_HolderName :: string
  pr_ProductCode :: string
  pr_Status :: string
  pr_EffectiveDate :: string
  pr_ExpiryDate :: string
  pr_CreatedAt :: string
  pr_UpdatedAt :: string

record audit_log_response =
  al_ID :: string
  al_PolicyID :: string
  al_FromStatus :: string
  al_ToStatus :: string
  al_ActorID :: string
  al_Reason :: string
  al_OccurredAt :: string

record document_list_item =
  dl_ID :: string
  dl_Type :: string
  dl_URL :: string
  dl_CreatedAt :: string

record problem =
  pb_Type :: string
  pb_Title :: string
  pb_Status :: int
  pb_Detail :: string

record auth_problem =
  ap_Title :: string
  ap_Status :: int
  ap_Detail :: string

text \<open>
  What a body carries. \<open>NoBody\<close> is the empty body, \<open>Default_text\<close> the body the router library
  writes for a path or method it does not know.
\<close>

datatype payload =
    NoBody
  | Default_text
  | Problem_json problem
  | AuthProblem_json auth_problem
  | Policy_json policy_response
  | PolicyList_json "policy_response list" string
  | History_json "audit_log_response list"
  | Attestation_json string string string
  | Documents_json "document_list_item list"
  | Health_json "(string \<times> string) list"

text \<open>
  The bytes of a body: \<^verbatim>\<open>json.NewEncoder(w).Encode\<close> of the value, with the names of the struct tags. A
  Go map is written in the order of its keys.
\<close>

definition problem_json :: "problem \<Rightarrow> json" where
  "problem_json p = json_object
     ([(''type'', json_string (pb_Type p)), (''title'', json_string (pb_Title p)),
       (''status'', json_int (pb_Status p))] @ omitempty ''detail'' (pb_Detail p))"

definition auth_problem_json :: "auth_problem \<Rightarrow> json" where
  "auth_problem_json p = json_object
     ([(''title'', json_string (ap_Title p)), (''status'', json_int (ap_Status p))] @
      omitempty ''detail'' (ap_Detail p))"

definition policy_json :: "policy_response \<Rightarrow> json" where
  "policy_json p = json_object
     [(''id'', json_string (pr_ID p)), (''policy_number'', json_string (pr_PolicyNumber p)),
      (''holder_name'', json_string (pr_HolderName p)), (''product_code'', json_string (pr_ProductCode p)),
      (''status'', json_string (pr_Status p)), (''effective_date'', json_string (pr_EffectiveDate p)),
      (''expiry_date'', json_string (pr_ExpiryDate p)), (''created_at'', json_string (pr_CreatedAt p)),
      (''updated_at'', json_string (pr_UpdatedAt p))]"

definition audit_log_json :: "audit_log_response \<Rightarrow> json" where
  "audit_log_json l = json_object
     ([(''id'', json_string (al_ID l)), (''policy_id'', json_string (al_PolicyID l)),
       (''from_status'', json_string (al_FromStatus l)), (''to_status'', json_string (al_ToStatus l)),
       (''actor_id'', json_string (al_ActorID l))] @ omitempty ''reason'' (al_Reason l) @
      [(''occurred_at'', json_string (al_OccurredAt l))])"

definition document_json :: "document_list_item \<Rightarrow> json" where
  "document_json d = json_object
     [(''id'', json_string (dl_ID d)), (''type'', json_string (dl_Type d)),
      (''url'', json_string (dl_URL d)), (''created_at'', json_string (dl_CreatedAt d))]"

definition list_policies_json :: "policy_response list \<Rightarrow> string \<Rightarrow> json" where
  "list_policies_json items cursor = json_object
     ([(''items'', JArray (map policy_json items))] @ omitempty ''next_cursor'' cursor)"

definition attestation_json :: "string \<Rightarrow> string \<Rightarrow> string \<Rightarrow> json" where
  "attestation_json document_id url expires_at = json_object
     [(''document_id'', json_string document_id), (''url'', json_string url),
      (''expires_at'', json_string expires_at)]"

fun payload_json :: "payload \<Rightarrow> json option" where
  "payload_json NoBody = None"
| "payload_json Default_text = None"
| "payload_json (Problem_json p) = Some (problem_json p)"
| "payload_json (AuthProblem_json p) = Some (auth_problem_json p)"
| "payload_json (Policy_json p) = Some (policy_json p)"
| "payload_json (PolicyList_json items cursor) = Some (list_policies_json items cursor)"
| "payload_json (History_json logs) = Some (json_object [(''history'', JArray (map audit_log_json logs))])"
| "payload_json (Attestation_json document_id url expires_at) =
     Some (attestation_json document_id url expires_at)"
| "payload_json (Documents_json items) = Some (json_object [(''documents'', JArray (map document_json items))])"
| "payload_json (Health_json kvs) =
     Some (json_object (map (apsnd json_string) (sort_key (\<lambda>kv. map byte (fst kv)) kvs)))"

definition body_bytes :: "payload \<Rightarrow> bytes" where
  "body_bytes body =
     (case payload_json body of
        Some v \<Rightarrow> Encode v
      | None \<Rightarrow> if body = Default_text then ''404 page not found'' @ [CHR 0x0A] else [])"

text \<open>A client that parses an answer finds the value that was written.\<close>

lemma payload_printable: "payload_json body = Some v \<Longrightarrow> printable maxNestingDepth v"
  by (cases body)
    (auto simp: maxNestingDepth_def problem_json_def auth_problem_json_def policy_json_def audit_log_json_def
      list_policies_json_def attestation_json_def
      document_json_def omitempty_def)

lemma body_parses: "payload_json body = Some v \<Longrightarrow> first_value (body_bytes body) = Some v"
  by (simp add: body_bytes_def first_value_Encode payload_printable)

record http_response =
  rs_Status :: int
  rs_ContentType :: string
  rs_Body :: payload

text \<open>The statuses of package \<^verbatim>\<open>net/http\<close> the service names.\<close>

definition StatusOK :: int where "StatusOK = 200"
definition StatusCreated :: int where "StatusCreated = 201"
definition StatusNoContent :: int where "StatusNoContent = 204"
definition StatusBadRequest :: int where "StatusBadRequest = 400"
definition StatusUnauthorized :: int where "StatusUnauthorized = 401"
definition StatusForbidden :: int where "StatusForbidden = 403"
definition StatusNotFound :: int where "StatusNotFound = 404"
definition StatusMethodNotAllowed :: int where "StatusMethodNotAllowed = 405"
definition StatusConflict :: int where "StatusConflict = 409"
definition StatusUnprocessableEntity :: int where "StatusUnprocessableEntity = 422"
definition StatusInternalServerError :: int where "StatusInternalServerError = 500"
definition StatusServiceUnavailable :: int where "StatusServiceUnavailable = 503"

lemmas status_code_defs =
  StatusOK_def StatusCreated_def StatusNoContent_def StatusBadRequest_def StatusUnauthorized_def
  StatusForbidden_def StatusNotFound_def StatusMethodNotAllowed_def StatusConflict_def
  StatusUnprocessableEntity_def StatusInternalServerError_def StatusServiceUnavailable_def

definition json_response :: "int \<Rightarrow> payload \<Rightarrow> http_response" where
  "json_response status body =
     \<lparr>rs_Status = status, rs_ContentType = ''application/json'', rs_Body = body\<rparr>"

definition writeProblem :: "int \<Rightarrow> string \<Rightarrow> string \<Rightarrow> http_response" where
  "writeProblem status title detail =
     \<lparr>rs_Status = status, rs_ContentType = ''application/problem+json'',
      rs_Body = Problem_json \<lparr>pb_Type = ''about:blank'', pb_Title = title, pb_Status = status,
        pb_Detail = detail\<rparr>\<rparr>"

definition writeAuthProblem :: "int \<Rightarrow> string \<Rightarrow> string \<Rightarrow> http_response" where
  "writeAuthProblem status title detail =
     \<lparr>rs_Status = status, rs_ContentType = ''application/problem+json'',
      rs_Body = AuthProblem_json \<lparr>ap_Title = title, ap_Status = status, ap_Detail = detail\<rparr>\<rparr>"

lemma response_simps [simp]:
  "rs_Status (json_response s b) = s" "rs_Body (json_response s b) = b"
  "rs_Status (writeProblem s ti de) = s"
  "rs_Status (writeAuthProblem s ti de) = s"
  by (simp_all add: json_response_def writeProblem_def writeAuthProblem_def)

section \<open>The request logger\<close>

text \<open>One log line per request, before the handler runs; \<open>reqID\<close> is the id chi gave the request.\<close>

record log_line =
  ll_Method :: string
  ll_Path :: string
  ll_ID :: string

definition RequestLogger ::
    "(http_request \<Rightarrow> 'w \<Rightarrow> http_response \<times> 'w) \<Rightarrow> string \<Rightarrow> http_request \<Rightarrow> log_line list \<times> 'w \<Rightarrow>
      http_response \<times> log_line list \<times> 'w" where
  "RequestLogger next reqID r s =
     (case s of (logs, w) \<Rightarrow>
        (case next r w of
           (rs, w') \<Rightarrow>
             (rs, logs @ [\<lparr>ll_Method = rq_Method r, ll_Path = rq_Path r, ll_ID = reqID\<rparr>], w')))"

section \<open>Authentication\<close>

text \<open>The claims of a token: a value that is a string, or one that is not.\<close>

datatype claim = Claim_string string | Claim_other

type_synonym claims = "string \<rightharpoonup> claim"

datatype jwt_answer =
    Jwt_error bool
  | Jwt_token bool claims

text \<open>\<open>Jwt_error\<close> says whether the error is \<^verbatim>\<open>jwt.ErrTokenExpired\<close>, \<open>Jwt_token\<close> whether \<^verbatim>\<open>token.Valid\<close>.\<close>

definition string_claim :: "claims \<Rightarrow> string \<Rightarrow> string" where
  "string_claim c k = (case c k of Some (Claim_string s) \<Rightarrow> s | _ \<Rightarrow> [])"

text \<open>The request context: the values under the two keys, if they are set.\<close>

record request_context =
  cx_Subject :: "string option"
  cx_Scope :: "string option"

definition empty_context :: request_context where
  "empty_context = \<lparr>cx_Subject = None, cx_Scope = None\<rparr>"

definition SubjectFromContext :: "request_context \<Rightarrow> string" where
  "SubjectFromContext c = (case cx_Subject c of None \<Rightarrow> [] | Some s \<Rightarrow> s)"

definition ScopeFromContext :: "request_context \<Rightarrow> string" where
  "ScopeFromContext c = (case cx_Scope c of None \<Rightarrow> [] | Some s \<Rightarrow> s)"

definition bearer :: string where
  "bearer = ''Bearer ''"

definition HasPrefix :: "string \<Rightarrow> string \<Rightarrow> bool" where
  "HasPrefix s p \<longleftrightarrow> take (length p) s = p"

definition TrimPrefix :: "string \<Rightarrow> string \<Rightarrow> string" where
  "TrimPrefix s p = (if HasPrefix s p then drop (length p) s else s)"

text \<open>\<open>ValidateJWT\<close>: the response it writes, or the context it hands on.\<close>

definition ValidateJWT ::
    "(string \<Rightarrow> jwt_answer) \<Rightarrow> http_request \<Rightarrow> http_response + request_context" where
  "ValidateJWT verify r =
     (let authHeader = rq_Authorization r
      in if authHeader = [] \<or> \<not> HasPrefix authHeader bearer
         then Inl (writeAuthProblem StatusUnauthorized ''missing_token''
           ''Authorization: Bearer header required'')
         else (case verify (TrimPrefix authHeader bearer) of
                 Jwt_error expired \<Rightarrow>
                   (if expired
                    then Inl (writeAuthProblem StatusUnauthorized ''token_expired'' ''token has expired'')
                    else Inl (writeAuthProblem StatusUnauthorized ''invalid_token''
                      ''token validation failed''))
               | Jwt_token valid claims \<Rightarrow>
                   (if \<not> valid
                    then Inl (writeAuthProblem StatusUnauthorized ''invalid_token''
                      ''token is not valid'')
                    else Inr \<lparr>cx_Subject = Some (string_claim claims ''sub''),
                      cx_Scope = Some (string_claim claims ''scope'')\<rparr>)))"

section \<open>Scopes\<close>

text \<open>
  \<^verbatim>\<open>strings.Fields\<close>: \<open>space_width\<close> is the number of bytes of the white space character a string
  begins with, 0 when it begins with none.
\<close>

definition ascii_space :: "char \<Rightarrow> bool" where
  "ascii_space c \<longleftrightarrow> c \<in> {CHR 0x09, CHR 0x0A, CHR 0x0B, CHR 0x0C, CHR 0x0D, CHR 0x20}"

fun space_width :: "string \<Rightarrow> nat" where
  "space_width [] = 0"
| "space_width (c # cs) =
     (if ascii_space c then 1
      else if c = CHR 0xC2 \<and> take 1 cs \<in> {[CHR 0x85], [CHR 0xA0]} then 2
      else if c = CHR 0xE1 \<and> take 2 cs = [CHR 0x9A, CHR 0x80] then 3
      else if c = CHR 0xE2 \<and> take 1 cs = [CHR 0x80] \<and> take 1 (drop 1 cs) \<in>
          {[CHR 0x80], [CHR 0x81], [CHR 0x82], [CHR 0x83], [CHR 0x84], [CHR 0x85], [CHR 0x86],
           [CHR 0x87], [CHR 0x88], [CHR 0x89], [CHR 0x8A], [CHR 0xA8], [CHR 0xA9], [CHR 0xAF]} then 3
      else if c = CHR 0xE2 \<and> take 2 cs = [CHR 0x81, CHR 0x9F] then 3
      else if c = CHR 0xE3 \<and> take 2 cs = [CHR 0x80, CHR 0x80] then 3
      else 0)"

text \<open>\<open>field\<close> is the field being read, in reverse.\<close>

function fields_from :: "string \<Rightarrow> string \<Rightarrow> string list" where
  "fields_from field [] = (if field = [] then [] else [rev field])"
| "fields_from field (c # cs) =
     (if space_width (c # cs) = 0 then fields_from (c # field) cs
      else (if field = [] then [] else [rev field]) @
        fields_from [] (drop (space_width (c # cs) - 1) cs))"
  by pat_completeness auto
termination
  by (relation "measure (\<lambda>(_, s). length s)") auto

definition Fields :: "string \<Rightarrow> string list" where
  "Fields s = fields_from [] s"

text \<open>\<open>RequireScope\<close>: the response it writes, or nothing when the request may go on.\<close>

definition RequireScope :: "string \<Rightarrow> request_context \<Rightarrow> http_response option" where
  "RequireScope required c =
     (if required \<in> set (Fields (ScopeFromContext c)) then None
      else Some (writeAuthProblem StatusForbidden ''insufficient_scope''
        (''required scope: '' @ required)))"

section \<open>What the guards let through\<close>

lemma ValidateJWT_Inr:
  "ValidateJWT verify r = Inr c \<longleftrightarrow>
     (\<exists>raw claims. rq_Authorization r = bearer @ raw \<and> verify raw = Jwt_token True claims \<and>
        c = \<lparr>cx_Subject = Some (string_claim claims ''sub''),
             cx_Scope = Some (string_claim claims ''scope'')\<rparr>)"
proof -
  have prefix: "HasPrefix s bearer \<longleftrightarrow> (\<exists>raw. s = bearer @ raw)" for s
    by (auto simp: HasPrefix_def) (metis append_take_drop_id)
  have "bearer @ raw \<noteq> []" for raw by (simp add: bearer_def)
  show ?thesis
  proof (cases "\<exists>raw. rq_Authorization r = bearer @ raw")
    case True
    then obtain raw where "rq_Authorization r = bearer @ raw" by blast
    then show ?thesis
      using \<open>bearer @ raw \<noteq> []\<close>
      by (auto simp: ValidateJWT_def Let_def TrimPrefix_def HasPrefix_def split: jwt_answer.splits)
  next
    case False
    then show ?thesis by (auto simp: ValidateJWT_def Let_def prefix)
  qed
qed

lemma ValidateJWT_Inl: "ValidateJWT verify r = Inl rs \<Longrightarrow> rs_Status rs = StatusUnauthorized"
  by (auto simp: ValidateJWT_def Let_def split: jwt_answer.splits if_splits)

lemma RequireScope_Some: "RequireScope sc c = Some rs \<Longrightarrow> rs_Status rs = StatusForbidden"
  by (auto simp: RequireScope_def split: if_splits)

text \<open>
  Fields are what lies between white space: no field is empty, and none that is a plain word
  of visible ASCII characters is lost or split.
\<close>

definition plain_word :: "string \<Rightarrow> bool" where
  "plain_word s \<longleftrightarrow> s \<noteq> [] \<and> (\<forall>c \<in> set s. 0x21 \<le> (of_char c :: nat) \<and> (of_char c :: nat) < 0x7F)"

lemma space_width_plain:
  assumes "0x21 \<le> (of_char c :: nat)" "(of_char c :: nat) < 0x7F"
  shows "space_width (c # cs) = 0"
proof -
  have "c \<noteq> CHR 0x09" "c \<noteq> CHR 0x0A" "c \<noteq> CHR 0x0B" "c \<noteq> CHR 0x0C" "c \<noteq> CHR 0x0D" "c \<noteq> CHR 0x20"
    using assms(1) by auto
  moreover have "c \<noteq> CHR 0xC2" "c \<noteq> CHR 0xE1" "c \<noteq> CHR 0xE2" "c \<noteq> CHR 0xE3"
    using assms(2) by auto
  ultimately show ?thesis by (simp only: space_width.simps ascii_space_def insert_iff empty_iff simp_thms if_False)
qed

lemma fields_from_plain:
  assumes "\<forall>c \<in> set s. 0x21 \<le> (of_char c :: nat) \<and> (of_char c :: nat) < 0x7F"
  shows "fields_from f (s @ rest) = fields_from (rev s @ f) rest"
  using assms
proof (induction s arbitrary: f)
  case (Cons c s)
  then have "space_width (c # (s @ rest)) = 0" by (intro space_width_plain) auto
  with Cons show ?case by (simp del: space_width.simps)
qed simp

fun join_words :: "string list \<Rightarrow> string" where
  "join_words [] = []"
| "join_words [w] = w"
| "join_words (w # ws) = w @ CHR '' '' # join_words ws"

lemma Fields_join:
  assumes "\<forall>w \<in> set ws. plain_word w"
  shows "Fields (join_words ws) = ws"
  using assms unfolding Fields_def
proof (induction ws rule: join_words.induct)
  case 1
  then show ?case by simp
next
  case (2 w)
  then show ?case using fields_from_plain [of w "[]" "[]"] by (simp add: plain_word_def)
next
  case (3 w v ws)
  then have "fields_from [] (w @ CHR '' '' # join_words (v # ws)) =
      fields_from (rev w) (CHR '' '' # join_words (v # ws))"
    using fields_from_plain [of w "[]" "CHR '' '' # join_words (v # ws)"] by (simp add: plain_word_def)
  also have "\<dots> = w # fields_from [] (join_words (v # ws))"
    using 3(2) by (simp add: ascii_space_def plain_word_def)
  finally show ?case using 3 by simp
qed

section \<open>Properties\<close>

text \<open>
  C39. A scope claim of words separated by single spaces grants exactly its words: the guard lets a
  request pass when the required scope is one of them, not when it is only a part of one, and
  answers 403 otherwise.
\<close>

theorem scope_guard_is_exact:
  assumes "\<forall>w \<in> set ws. plain_word w" and "cx_Scope c = Some (join_words ws)"
  shows "if sc \<in> set ws then RequireScope sc c = None
    else \<exists>rs. RequireScope sc c = Some rs \<and> rs_Status rs = 403"
  using assms Fields_join by (auto simp: RequireScope_def ScopeFromContext_def status_code_defs)

theorem scope_guard_is_exact_witness:
  "\<exists>rs. RequireScope ''policy:write'' \<lparr>cx_Subject = None, cx_Scope = Some ''openid policy:writer''\<rparr> = Some rs \<and>
     rs_Status rs = 403"
proof -
  have "\<forall>w \<in> set [''openid'', ''policy:writer'']. plain_word w" by code_simp
  from scope_guard_is_exact [OF this, of "\<lparr>cx_Subject = None, cx_Scope = Some ''openid policy:writer''\<rparr>" "''policy:write''"]
  show ?thesis by simp
qed

end
