(* ===== verification/Schema.thy ===== *)
theory Schema
  imports Domain Utf8
begin

text \<open>
  The tables that the migrations under \<^verbatim>\<open>db/migrations\<close> leave behind, with their constraints,
  and the SQL statements of the repositories as functions on them. A statement either fails with the SQLSTATE of
  the constraint it would break and changes nothing, or yields the new tables. PostgreSQL
  evaluates the CHECK constraints of a row in the order of their names, before it inserts into
  the unique indexes, and foreign keys last. A table is the list of its rows; what a query
  without a total ORDER BY returns is stated in the theorems only up to the order of the rows.
\<close>

record tables =
  t_policies :: "policy list"
  t_coverages :: "coverage list"
  t_premiums :: "premium list"
  t_audit :: "audit_log list"
  t_documents :: "document list"

definition empty_tables :: tables where
  "empty_tables = \<lparr>t_policies = [], t_coverages = [], t_premiums = [], t_audit = [],
     t_documents = []\<rparr>"

text \<open>The SQLSTATE codes of the violations.\<close>

definition unique_violation :: string where "unique_violation = ''23505''"
definition check_violation :: string where "check_violation = ''23514''"
definition foreign_key_violation :: string where "foreign_key_violation = ''23503''"
definition character_not_in_repertoire :: string where "character_not_in_repertoire = ''22021''"

text \<open>
  A parameter of type TEXT has to be UTF-8 without the character 0, or the statement is refused
  before anything else is looked at.
\<close>

definition text_ok :: "string \<Rightarrow> bool" where
  "text_ok s \<longleftrightarrow> valid_utf8 s \<and> CHR 0x00 \<notin> set s"

definition texts_check :: "string list \<Rightarrow> error option" where
  "texts_check ss = (if list_all text_ok ss then None else Some (PgError character_not_in_repertoire []))"

lemma texts_check_None [simp]: "texts_check ss = None \<longleftrightarrow> list_all text_ok ss"
  by (simp add: texts_check_def)

lemma text_ok_ascii: "\<forall>c \<in> set s. 0 < byte c \<and> byte c < 0x80 \<Longrightarrow> text_ok s"
  by (auto simp: text_ok_def intro!: valid_ascii) (auto simp: byte_def)

section \<open>Constraints\<close>

definition chk_policy_dates :: "policy \<Rightarrow> bool" where
  "chk_policy_dates p \<longleftrightarrow> EffectiveDate p < ExpiryDate p"

definition policies_status_check :: "policy \<Rightarrow> bool" where
  "policies_status_check p \<longleftrightarrow>
     Status p \<in> set [''draft'', ''submitted'', ''active'', ''rejected'', ''amended'', ''cancelled'',
       ''expired'', ''suspended'', ''terminated'']"

definition policies_checks :: "policy \<Rightarrow> error option" where
  "policies_checks p =
     (if texts_check [PolicyNumber p, HolderName p, ProductCode p, Status p] \<noteq> None
      then Some (PgError character_not_in_repertoire [])
      else if \<not> chk_policy_dates p then Some (PgError check_violation ''chk_policy_dates'')
      else if \<not> policies_status_check p then Some (PgError check_violation ''policies_status_check'')
      else None)"

definition policies_unique :: "policy \<Rightarrow> policy list \<Rightarrow> error option" where
  "policies_unique p rows =
     (if \<exists>r \<in> set rows. ID r = ID p then Some (PgError unique_violation ''policies_pkey'')
      else if \<exists>r \<in> set rows. PolicyNumber r = PolicyNumber p
      then Some (PgError unique_violation ''policies_policy_number_key'')
      else None)"

definition policy_exists :: "uuid \<Rightarrow> tables \<Rightarrow> bool" where
  "policy_exists i t \<longleftrightarrow> (\<exists>p \<in> set (t_policies t). ID p = i)"

definition chk_deductible :: "coverage \<Rightarrow> bool" where
  "chk_deductible c \<longleftrightarrow> 0 \<le> sint (Deductible c)"

definition chk_insured_amount :: "coverage \<Rightarrow> bool" where
  "chk_insured_amount c \<longleftrightarrow> 0 < sint (InsuredAmount c)"

definition coverages_checks :: "coverage \<Rightarrow> error option" where
  "coverages_checks c =
     (if texts_check [cov_Type c] \<noteq> None then Some (PgError character_not_in_repertoire [])
      else if \<not> chk_deductible c then Some (PgError check_violation ''chk_deductible'')
      else if \<not> chk_insured_amount c then Some (PgError check_violation ''chk_insured_amount'')
      else None)"

definition chk_premium_amount :: "premium \<Rightarrow> bool" where
  "chk_premium_amount p \<longleftrightarrow> 0 < sint (Amount p)"

definition chk_premium_frequency :: "premium \<Rightarrow> bool" where
  "chk_premium_frequency p \<longleftrightarrow> Frequency p \<in> set [''monthly'', ''quarterly'', ''annual'']"

definition premiums_checks :: "premium \<Rightarrow> error option" where
  "premiums_checks p =
     (if texts_check [Frequency p] \<noteq> None then Some (PgError character_not_in_repertoire [])
      else if \<not> chk_premium_amount p then Some (PgError check_violation ''chk_premium_amount'')
      else if \<not> chk_premium_frequency p then Some (PgError check_violation ''chk_premium_frequency'')
      else None)"

section \<open>Statements on policies\<close>

type_synonym statement = "tables \<Rightarrow> error + tables"

text \<open>
  The INSERT, and the constraints it can break. Limits of the server that are in no migration, like
  the size of an index entry (about 2700 bytes of a policy number, after compression), are not
  constraints of the tables: a statement that runs into one is a failing call of the
  environment.
\<close>

definition insert_policy :: "policy \<Rightarrow> statement" where
  "insert_policy p t =
     (case policies_checks p of
        Some e \<Rightarrow> Inl e
      | None \<Rightarrow>
          (case policies_unique p (t_policies t) of
             Some e \<Rightarrow> Inl e
           | None \<Rightarrow> Inr (t\<lparr>t_policies := t_policies t @ [p]\<rparr>)))"

text \<open>
  \<^verbatim>\<open>UPDATE policies SET ... WHERE id = ...\<close>: the rows with that id are replaced and have to
  satisfy the CHECK constraints; no matching row is no error. Neither the id nor the policy
  number is ever in the SET list.
\<close>

definition update_policies :: "uuid \<Rightarrow> (policy \<Rightarrow> policy) \<Rightarrow> statement" where
  "update_policies i f t =
     (case find (\<lambda>p. ID p = i \<and> policies_checks (f p) \<noteq> None) (t_policies t) of
        Some p \<Rightarrow> Inl (the (policies_checks (f p)))
      | None \<Rightarrow> Inr (t\<lparr>t_policies := update_where (\<lambda>p. ID p = i) f (t_policies t)\<rparr>))"

text \<open>The parameters of an UPDATE are checked even when no row matches.\<close>

definition with_texts :: "string list \<Rightarrow> statement \<Rightarrow> statement" where
  "with_texts ss st t = (case texts_check ss of Some e \<Rightarrow> Inl e | None \<Rightarrow> st t)"

lemma with_texts_Inr [simp]: "with_texts ss st t = Inr t' \<longleftrightarrow> list_all text_ok ss \<and> st t = Inr t'"
  by (simp add: with_texts_def texts_check_def)

text \<open>The SET list of the repository's UPDATE: every column but the keys and \<^verbatim>\<open>created_at\<close>.\<close>

definition policy_columns :: "policy \<Rightarrow> policy \<Rightarrow> policy" where
  "policy_columns p q = q\<lparr>HolderName := HolderName p, ProductCode := ProductCode p,
     Status := Status p, EffectiveDate := EffectiveDate p, ExpiryDate := ExpiryDate p,
     UpdatedAt := UpdatedAt p\<rparr>"

text \<open>The SET list of a transition: \<^verbatim>\<open>status\<close> and \<^verbatim>\<open>updated_at\<close>.\<close>

definition status_columns :: "policy_status \<Rightarrow> time \<Rightarrow> policy \<Rightarrow> policy" where
  "status_columns s at q = q\<lparr>Status := s, UpdatedAt := at\<rparr>"

definition select_policies :: "(policy \<Rightarrow> bool) \<Rightarrow> tables \<Rightarrow> policy list" where
  "select_policies P t = filter P (t_policies t)"

section \<open>The row order of a list request\<close>

text \<open>
  \<^verbatim>\<open>(created_at, id)\<close> as PostgreSQL compares it: the row comparison looks at the instants
  first and at the bytes of the ids when they are equal.
\<close>

datatype page_key = Page_Key (key_time: time) (key_id: uuid)

instantiation page_key :: linorder
begin

definition less_eq_page_key :: "page_key \<Rightarrow> page_key \<Rightarrow> bool" where
  "less_eq_page_key a b \<longleftrightarrow>
     key_time a < key_time b \<or> (key_time a = key_time b \<and> key_id a \<le> key_id b)"

definition less_page_key :: "page_key \<Rightarrow> page_key \<Rightarrow> bool" where
  "less_page_key a b \<longleftrightarrow>
     key_time a < key_time b \<or> (key_time a = key_time b \<and> key_id a < key_id b)"

instance
  by standard
    (auto simp: less_eq_page_key_def less_page_key_def intro: page_key.expand)

end

definition policy_key :: "policy \<Rightarrow> page_key" where
  "policy_key p = Page_Key (CreatedAt p) (ID p)"

text \<open>
  \<^verbatim>\<open>SELECT ... WHERE status=$1 AND (created_at,id) < ($2,$3) ORDER BY created_at DESC, id DESC
  LIMIT $4\<close>, each condition present or not.
\<close>

definition select_page ::
    "policy_status option \<Rightarrow> page_key option \<Rightarrow> nat \<Rightarrow> tables \<Rightarrow> policy list" where
  "select_page status cursor limit t =
     take limit (rev (sort_key policy_key (select_policies
       (\<lambda>p. (case status of None \<Rightarrow> True | Some s \<Rightarrow> Status p = s) \<and>
            (case cursor of None \<Rightarrow> True | Some k \<Rightarrow> policy_key p < k)) t)))"

section \<open>Statements on the dependent tables\<close>

definition insert_audit :: "audit_log \<Rightarrow> statement" where
  "insert_audit l t =
     (if texts_check [FromStatus l, ToStatus l, ActorID l, Reason l] \<noteq> None
      then Inl (PgError character_not_in_repertoire [])
      else if \<exists>r \<in> set (t_audit t). log_ID r = log_ID l
      then Inl (PgError unique_violation ''policy_audit_log_pkey'')
      else if \<not> policy_exists (log_PolicyID l) t
      then Inl (PgError foreign_key_violation ''policy_audit_log_policy_id_fkey'')
      else Inr (t\<lparr>t_audit := t_audit t @ [l]\<rparr>))"

definition insert_document :: "document \<Rightarrow> statement" where
  "insert_document d t =
     (if texts_check [doc_Type d, MinIOKey d] \<noteq> None
      then Inl (PgError character_not_in_repertoire [])
      else if \<exists>r \<in> set (t_documents t). doc_ID r = doc_ID d
      then Inl (PgError unique_violation ''policy_documents_pkey'')
      else if \<not> policy_exists (doc_PolicyID d) t
      then Inl (PgError foreign_key_violation ''policy_documents_policy_id_fkey'')
      else Inr (t\<lparr>t_documents := t_documents t @ [d]\<rparr>))"

definition insert_coverage :: "coverage \<Rightarrow> statement" where
  "insert_coverage c t =
     (case coverages_checks c of
        Some e \<Rightarrow> Inl e
      | None \<Rightarrow>
          (if \<exists>r \<in> set (t_coverages t). cov_ID r = cov_ID c
           then Inl (PgError unique_violation ''coverages_pkey'')
           else if \<not> policy_exists (cov_PolicyID c) t
           then Inl (PgError foreign_key_violation ''coverages_policy_id_fkey'')
           else Inr (t\<lparr>t_coverages := t_coverages t @ [c]\<rparr>)))"

definition delete_coverage :: "uuid \<Rightarrow> statement" where
  "delete_coverage i t = Inr (t\<lparr>t_coverages := filter (\<lambda>c. cov_ID c \<noteq> i) (t_coverages t)\<rparr>)"

definition insert_premium :: "premium \<Rightarrow> statement" where
  "insert_premium p t =
     (case premiums_checks p of
        Some e \<Rightarrow> Inl e
      | None \<Rightarrow>
          (if \<exists>r \<in> set (t_premiums t). prem_ID r = prem_ID p
           then Inl (PgError unique_violation ''premiums_pkey'')
           else if \<not> policy_exists (prem_PolicyID p) t
           then Inl (PgError foreign_key_violation ''premiums_policy_id_fkey'')
           else Inr (t\<lparr>t_premiums := t_premiums t @ [p]\<rparr>)))"

definition mark_premium_paid :: "uuid \<Rightarrow> time \<Rightarrow> statement" where
  "mark_premium_paid i paidAt t =
     Inr (t\<lparr>t_premiums :=
       update_where (\<lambda>p. prem_ID p = i) (\<lambda>p. p\<lparr>PaidAt := Some paidAt\<rparr>) (t_premiums t)\<rparr>)"

section \<open>What the constraints keep\<close>

text \<open>The contents the constraints of the migrations allow.\<close>

definition wf_tables :: "tables \<Rightarrow> bool" where
  "wf_tables t \<longleftrightarrow>
     distinct (map ID (t_policies t)) \<and>
     distinct (map PolicyNumber (t_policies t)) \<and>
     (\<forall>p \<in> set (t_policies t). policies_checks p = None) \<and>
     distinct (map log_ID (t_audit t)) \<and>
     (\<forall>l \<in> set (t_audit t). policy_exists (log_PolicyID l) t) \<and>
     distinct (map doc_ID (t_documents t)) \<and>
     (\<forall>d \<in> set (t_documents t). policy_exists (doc_PolicyID d) t) \<and>
     distinct (map cov_ID (t_coverages t)) \<and>
     (\<forall>c \<in> set (t_coverages t). coverages_checks c = None \<and> policy_exists (cov_PolicyID c) t) \<and>
     distinct (map prem_ID (t_premiums t)) \<and>
     (\<forall>p \<in> set (t_premiums t). premiums_checks p = None \<and> policy_exists (prem_PolicyID p) t)"

definition policy_at :: "tables \<Rightarrow> uuid \<Rightarrow> policy option" where
  "policy_at t i = find (\<lambda>p. ID p = i) (t_policies t)"

lemma policy_at_Some: "policy_at t i = Some p \<Longrightarrow> p \<in> set (t_policies t) \<and> ID p = i"
  unfolding policy_at_def by (rule find_Some_mem)

lemma policy_at_None: "policy_at t i = None \<longleftrightarrow> \<not> policy_exists i t"
  by (auto simp: policy_at_def policy_exists_def find_None_mem)

lemma policy_at_mem:
  "wf_tables t \<Longrightarrow> p \<in> set (t_policies t) \<Longrightarrow> policy_at t (ID p) = Some p"
  unfolding policy_at_def wf_tables_def by (blast intro: find_unique)

lemma policy_exists_cong [simp]:
  "policy_exists i (t\<lparr>t_audit := a\<rparr>) = policy_exists i t"
  "policy_exists i (t\<lparr>t_documents := ds\<rparr>) = policy_exists i t"
  "policy_exists i (t\<lparr>t_coverages := cs\<rparr>) = policy_exists i t"
  "policy_exists i (t\<lparr>t_premiums := ps\<rparr>) = policy_exists i t"
  by (simp_all add: policy_exists_def)

lemma policy_exists_append [simp]:
  "policy_exists i (t\<lparr>t_policies := t_policies t @ [p]\<rparr>) \<longleftrightarrow> policy_exists i t \<or> ID p = i"
  by (auto simp: policy_exists_def)

text \<open>A change of policy rows that keeps their keys, as every UPDATE of the service does.\<close>

definition keeps_keys :: "(policy \<Rightarrow> policy) \<Rightarrow> bool" where
  "keeps_keys f \<longleftrightarrow> (\<forall>p. ID (f p) = ID p \<and> PolicyNumber (f p) = PolicyNumber p)"

lemma keeps_keysD: "keeps_keys f \<Longrightarrow> ID (f p) = ID p" "keeps_keys f \<Longrightarrow> PolicyNumber (f p) = PolicyNumber p"
  by (simp_all add: keeps_keys_def)

lemma policy_exists_update [simp]:
  assumes "keeps_keys f"
  shows "policy_exists i (t\<lparr>t_policies := update_where P f (t_policies t)\<rparr>) \<longleftrightarrow> policy_exists i t"
proof -
  have "map ID (update_where P f (t_policies t)) = map ID (t_policies t)"
    using assms by (intro map_update_where_same) (simp add: keeps_keysD)
  then have "ID ` set (update_where P f (t_policies t)) = ID ` set (t_policies t)"
    by (metis list.set_map)
  then show ?thesis by (auto simp: policy_exists_def image_iff set_eq_iff) metis+
qed

text \<open>
  A statement of the service: if it succeeds it keeps the constraints, and it never removes a
  policy. Everything that is done with a statement, alone or in a transaction, rests on
  these two laws.
\<close>

locale safe_statement =
  fixes st :: statement
  assumes st_wf: "st t = Inr t' \<Longrightarrow> wf_tables t \<Longrightarrow> wf_tables t'"
    and st_policies: "st t = Inr t' \<Longrightarrow> policy_exists i t \<Longrightarrow> policy_exists i t'"

lemma insert_policy_Inr:
  "insert_policy p t = Inr t' \<longleftrightarrow>
     policies_checks p = None \<and> policies_unique p (t_policies t) = None \<and>
     t' = t\<lparr>t_policies := t_policies t @ [p]\<rparr>"
  by (auto simp: insert_policy_def split: option.splits)

lemma policies_unique_None:
  "policies_unique p rows = None \<longleftrightarrow>
     ID p \<notin> ID ` set rows \<and> PolicyNumber p \<notin> PolicyNumber ` set rows"
  by (auto simp: policies_unique_def key_in_image)

lemma update_policies_Inr:
  "update_policies i f t = Inr t' \<longleftrightarrow>
     (\<forall>p \<in> set (t_policies t). ID p = i \<longrightarrow> policies_checks (f p) = None) \<and>
     t' = t\<lparr>t_policies := update_where (\<lambda>p. ID p = i) f (t_policies t)\<rparr>"
  by (auto simp: update_policies_def find_None_mem split: option.splits dest: find_Some_mem)

lemma insert_audit_Inr:
  "insert_audit l t = Inr t' \<longleftrightarrow>
     list_all text_ok [FromStatus l, ToStatus l, ActorID l, Reason l] \<and>
     log_ID l \<notin> log_ID ` set (t_audit t) \<and> policy_exists (log_PolicyID l) t \<and>
     t' = t\<lparr>t_audit := t_audit t @ [l]\<rparr>"
  by (auto simp: insert_audit_def key_in_image)

lemma insert_document_Inr:
  "insert_document d t = Inr t' \<longleftrightarrow>
     list_all text_ok [doc_Type d, MinIOKey d] \<and>
     doc_ID d \<notin> doc_ID ` set (t_documents t) \<and> policy_exists (doc_PolicyID d) t \<and>
     t' = t\<lparr>t_documents := t_documents t @ [d]\<rparr>"
  by (auto simp: insert_document_def key_in_image)

lemma insert_coverage_Inr:
  "insert_coverage c t = Inr t' \<longleftrightarrow>
     coverages_checks c = None \<and> cov_ID c \<notin> cov_ID ` set (t_coverages t) \<and>
     policy_exists (cov_PolicyID c) t \<and> t' = t\<lparr>t_coverages := t_coverages t @ [c]\<rparr>"
  by (auto simp: insert_coverage_def key_in_image split: option.splits)

lemma insert_premium_Inr:
  "insert_premium p t = Inr t' \<longleftrightarrow>
     premiums_checks p = None \<and> prem_ID p \<notin> prem_ID ` set (t_premiums t) \<and>
     policy_exists (prem_PolicyID p) t \<and> t' = t\<lparr>t_premiums := t_premiums t @ [p]\<rparr>"
  by (auto simp: insert_premium_def key_in_image split: option.splits)

lemma wf_update_policies:
  assumes "keeps_keys f" and "wf_tables t"
    and "\<forall>p \<in> set (t_policies t). P p \<longrightarrow> policies_checks (f p) = None"
  shows "wf_tables (t\<lparr>t_policies := update_where P f (t_policies t)\<rparr>)"
proof -
  have "map ID (update_where P f (t_policies t)) = map ID (t_policies t)"
    "map PolicyNumber (update_where P f (t_policies t)) = map PolicyNumber (t_policies t)"
    using assms(1) by (intro map_update_where_same; simp add: keeps_keysD)+
  moreover have "\<forall>p \<in> set (update_where P f (t_policies t)). policies_checks p = None"
    using assms(2,3) by (auto simp: set_update_where wf_tables_def)
  ultimately show ?thesis using assms(1,2) by (simp add: wf_tables_def)
qed

interpretation insert_policy: safe_statement "insert_policy p" for p
  by unfold_locales (auto simp: insert_policy_Inr policies_unique_None wf_tables_def)

interpretation insert_audit: safe_statement "insert_audit l" for l
  by unfold_locales (auto simp: insert_audit_Inr wf_tables_def)

interpretation insert_document: safe_statement "insert_document d" for d
  by unfold_locales (auto simp: insert_document_Inr wf_tables_def)

interpretation insert_coverage: safe_statement "insert_coverage c" for c
  by unfold_locales (auto simp: insert_coverage_Inr wf_tables_def)

interpretation insert_premium: safe_statement "insert_premium p" for p
  by unfold_locales (auto simp: insert_premium_Inr wf_tables_def)

lemma distinct_map_filter_key: "distinct (map k xs) \<Longrightarrow> distinct (map k (filter P xs))"
  by (induction xs) auto

interpretation delete_coverage: safe_statement "delete_coverage i" for i
  by unfold_locales (auto simp: delete_coverage_def wf_tables_def distinct_map_filter_key)

lemma premiums_checks_PaidAt [simp]: "premiums_checks (p\<lparr>PaidAt := d\<rparr>) = premiums_checks p"
  by (simp add: premiums_checks_def chk_premium_amount_def chk_premium_frequency_def)

interpretation mark_premium_paid: safe_statement "mark_premium_paid i d" for i d
proof unfold_locales
  fix t t' :: tables
  assume st: "mark_premium_paid i d t = Inr t'" and wf: "wf_tables t"
  have "map prem_ID (update_where (\<lambda>p. prem_ID p = i) (\<lambda>p. p\<lparr>PaidAt := Some d\<rparr>) (t_premiums t))
      = map prem_ID (t_premiums t)"
    by (intro map_update_where_same) simp
  with st wf show "wf_tables t'"
    by (auto simp: mark_premium_paid_def wf_tables_def set_update_where)
qed (auto simp: mark_premium_paid_def)

text \<open>The UPDATE statements of the service are safe because their SET lists keep the keys.\<close>

lemma update_policies_safe: "keeps_keys f \<Longrightarrow> safe_statement (update_policies i f)"
  by unfold_locales (auto simp: update_policies_Inr intro!: wf_update_policies)

lemma policy_at_update:
  assumes "keeps_keys f" and "update_policies i f t = Inr t'"
  shows "policy_at t' j = (if j = i then map_option f (policy_at t i) else policy_at t j)"
  using assms by (simp add: update_policies_Inr policy_at_def keeps_keysD
      find_update_where_same find_update_where_other)

lemma policy_at_insert:
  assumes "insert_policy p t = Inr t'"
  shows "policy_at t' j = (if j = ID p then Some p else policy_at t j)"
proof -
  have t': "t_policies t' = t_policies t @ [p]" and new: "ID p \<notin> ID ` set (t_policies t)"
    using assms by (auto simp: insert_policy_Inr policies_unique_None)
  have "find (\<lambda>q. ID q = j) (xs @ [p]) =
      (if j = ID p then Some p else find (\<lambda>q. ID q = j) xs)" if "ID p \<notin> ID ` set xs" for xs
    using that by (induction xs) auto
  with t' new show ?thesis by (simp add: policy_at_def)
qed

lemma keeps_keys_columns [intro, simp]:
  "keeps_keys (policy_columns p)" "keeps_keys (status_columns s at)"
  by (simp_all add: keeps_keys_def policy_columns_def status_columns_def)

interpretation update_policy: safe_statement "update_policies i (policy_columns p)" for i p
  by (rule update_policies_safe) simp

interpretation update_status: safe_statement "update_policies i (status_columns s at)" for i s at
  by (rule update_policies_safe) simp

lemma policies_checks_status:
  "policies_checks p = None \<Longrightarrow> policies_status_check (status_columns s at p) \<Longrightarrow> text_ok s \<Longrightarrow>
     policies_checks (status_columns s at p) = None"
  by (simp add: policies_checks_def chk_policy_dates_def status_columns_def split: if_splits)

end
