(* ===== verification/PolicyEvents.thy ===== *)
theory PolicyEvents
  imports Domain GoTime Env Json
begin

text \<open>
  The lifecycle events of \<^verbatim>\<open>events/policy_events.go\<close>: the internal record, the CloudEvents 1.0
  envelope it is sent as with its JSON encoding, and the two builders. Members marked
  \<^verbatim>\<open>omitempty\<close> are strings in the records and missing from the encoding when they are empty.
\<close>

section \<open>Event types\<close>

definition EventCreated :: string where "EventCreated = ''created''"
definition EventSubmitted :: string where "EventSubmitted = ''submitted''"
definition EventActivated :: string where "EventActivated = ''activated''"
definition EventRejected :: string where "EventRejected = ''rejected''"
definition EventAmended :: string where "EventAmended = ''amended''"
definition EventCancelled :: string where "EventCancelled = ''cancelled''"
definition EventExpired :: string where "EventExpired = ''expired''"
definition source :: string where "source = ''ktayl-policy-service''"

lemmas event_type_defs =
  EventCreated_def EventSubmitted_def EventActivated_def EventRejected_def EventAmended_def
  EventCancelled_def EventExpired_def

record policy_event =
  EventType :: string
  ev_PolicyID :: string
  ev_Policy :: policy
  ev_Actor :: string
  ev_Reason :: string
  ev_OccurredAt :: time

record policy_event_data =
  data_PolicyID :: string
  data_PolicyNumber :: string
  data_HolderName :: string
  data_ProductCode :: string
  data_Status :: string
  data_Actor :: string
  data_Reason :: string
  data_EffectiveDate :: string
  data_ExpiryDate :: string

record cloud_event =
  SpecVersion :: string
  ce_ID :: string
  Source :: string
  ce_Type :: string
  DataContentType :: string
  ce_Time :: string
  Data :: policy_event_data

text \<open>\<^verbatim>\<open>toCloudEvent\<close>; \<open>u\<close> is the UUID that \<^verbatim>\<open>uuid.NewString\<close> draws.\<close>

definition toCloudEvent :: "env \<Rightarrow> uuid \<Rightarrow> policy_event \<Rightarrow> cloud_event" where
  "toCloudEvent E u e =
     (let p = ev_Policy e in
      \<lparr>SpecVersion = ''1.0'',
       ce_ID = env_uuid_String E u,
       Source = source,
       ce_Type = ''com.ktayl.policy.'' @ EventType e,
       DataContentType = ''application/json'',
       ce_Time = Format_RFC3339 (ev_OccurredAt e),
       Data =
         \<lparr>data_PolicyID = env_uuid_String E (ID p),
          data_PolicyNumber = PolicyNumber p,
          data_HolderName = HolderName p,
          data_ProductCode = ProductCode p,
          data_Status = Status p,
          data_Actor = ev_Actor e,
          data_Reason = ev_Reason e,
          data_EffectiveDate = Format_RFC3339 (EffectiveDate p),
          data_ExpiryDate = Format_RFC3339 (ExpiryDate p)\<rparr>\<rparr>)"

text \<open>\<^verbatim>\<open>json.Marshal\<close> of the envelope: all its members are strings, so it does not fail.\<close>

definition event_data_json :: "policy_event_data \<Rightarrow> json" where
  "event_data_json d = json_object
     ([(''policy_id'', json_string (data_PolicyID d)),
       (''policy_number'', json_string (data_PolicyNumber d)),
       (''holder_name'', json_string (data_HolderName d)),
       (''product_code'', json_string (data_ProductCode d)),
       (''status'', json_string (data_Status d))] @
      omitempty ''actor'' (data_Actor d) @
      omitempty ''reason'' (data_Reason d) @
      [(''effective_date'', json_string (data_EffectiveDate d)),
       (''expiry_date'', json_string (data_ExpiryDate d))])"

definition cloud_event_json :: "cloud_event \<Rightarrow> json" where
  "cloud_event_json e = json_object
     [(''specversion'', json_string (SpecVersion e)),
      (''id'', json_string (ce_ID e)),
      (''source'', json_string (Source e)),
      (''type'', json_string (ce_Type e)),
      (''datacontenttype'', json_string (DataContentType e)),
      (''time'', json_string (ce_Time e)),
      (''data'', event_data_json (Data e))]"

definition Marshal_event :: "cloud_event \<Rightarrow> error + bytes" where
  "Marshal_event e = Inr (print_json (cloud_event_json e))"

definition BuildTransitionEvent ::
    "env \<Rightarrow> string \<Rightarrow> policy \<Rightarrow> string \<Rightarrow> string \<Rightarrow> policy_event" where
  "BuildTransitionEvent E eventType p actor reason =
     \<lparr>EventType = eventType, ev_PolicyID = env_uuid_String E (ID p), ev_Policy = p,
      ev_Actor = actor, ev_Reason = reason, ev_OccurredAt = UpdatedAt p\<rparr>"

definition BuildCreatedEvent :: "env \<Rightarrow> policy \<Rightarrow> string \<Rightarrow> policy_event" where
  "BuildCreatedEvent E p actor =
     \<lparr>EventType = EventCreated, ev_PolicyID = env_uuid_String E (ID p), ev_Policy = p,
      ev_Actor = actor, ev_Reason = [], ev_OccurredAt = CreatedAt p\<rparr>"

definition EventTypeForTransition :: "policy_status \<Rightarrow> string" where
  "EventTypeForTransition s =
     (if s = StatusSubmitted then EventSubmitted
      else if s = StatusActive then EventActivated
      else if s = StatusRejected then EventRejected
      else if s = StatusAmended then EventAmended
      else if s = StatusCancelled then EventCancelled
      else if s = StatusExpired then EventExpired
      else s)"

text \<open>Dates are printed in plain ASCII, which every encoding keeps.\<close>

lemma ascii_digit: "is_digit c \<Longrightarrow> byte c < 0x80"
  by (simp add: is_digit_def byte_def)

lemma appendInt_ascii: "c \<in> set (appendInt x w) \<Longrightarrow> byte c < 0x80"
  by (auto simp: appendInt_def byte_def dest: digits_pad_dec [THEN ascii_digit, unfolded byte_def] split: if_splits)

lemma to_valid_Format [simp]: "to_valid (Format_RFC3339 t) = Format_RFC3339 t"
proof -
  have "\<forall>c \<in> set (Format_RFC3339 t). byte c < 0x80"
    by (auto simp: Format_RFC3339_def format_date_time_def byte_def Let_def
        dest: appendInt_ascii [unfolded byte_def] split: prod.splits)
  then show ?thesis by (intro to_valid_id valid_ascii)
qed

text \<open>
  A policy that has just been created carries the same instant in both timestamps, so the
  created event of \<^verbatim>\<open>BuildCreatedEvent\<close> and the one the service builds are the same.
\<close>

lemma BuildCreatedEvent_eq:
  "CreatedAt p = UpdatedAt p \<Longrightarrow>
     BuildCreatedEvent E p actor = BuildTransitionEvent E EventCreated p actor []"
  by (simp add: BuildCreatedEvent_def BuildTransitionEvent_def)

end
