(* ===== verification/World.thy ===== *)
theory World
  imports Schema PolicyEvents
begin

text \<open>
  The state the service acts on: the committed tables, the transaction of the running
  request, the number of calls made so far, the publications handed to goroutines and the
  objects in the document bucket. Each operation takes the environment and the world and
  returns its result with the new world. The operations of this theory are those the sources
  call on \<^verbatim>\<open>pgxpool.Pool\<close>, \<^verbatim>\<open>pgx.Tx\<close>, \<^verbatim>\<open>uuid\<close> and \<^verbatim>\<open>time\<close>: what a statement does is its SQL
  text (theory Schema), whether the call fails is the environment's choice. A failed call may
  still have been carried out by the server (\<open>fault_applied\<close>); a failed COMMIT leaves either
  the old tables or the new ones.
\<close>

datatype transaction = Open tables | Aborted

record world =
  db :: tables
  txn :: "transaction option"
  tick :: nat
  spawned :: "policy_event list"
  objects :: "(string \<times> bytes) list"

definition init_world :: "tables \<Rightarrow> world" where
  "init_world t = \<lparr>db = t, txn = None, tick = 0, spawned = [], objects = []\<rparr>"

definition call :: "env \<Rightarrow> world \<Rightarrow> fault option \<times> world" where
  "call E w = (env_fault E (tick w), w\<lparr>tick := Suc (tick w)\<rparr>)"

definition uuid_New :: "env \<Rightarrow> world \<Rightarrow> uuid \<times> world" where
  "uuid_New E w = (env_uuid E (tick w), w\<lparr>tick := Suc (tick w)\<rparr>)"

definition time_Now :: "env \<Rightarrow> world \<Rightarrow> time \<times> world" where
  "time_Now E w = (env_now E (tick w), w\<lparr>tick := Suc (tick w)\<rparr>)"

section \<open>Statements outside a transaction\<close>

definition db_Exec :: "env \<Rightarrow> statement \<Rightarrow> world \<Rightarrow> error option \<times> world" where
  "db_Exec E st w =
     (case call E w of
        (None, w1) \<Rightarrow>
          (case st (db w1) of
             Inl e \<Rightarrow> (Some e, w1)
           | Inr t \<Rightarrow> (None, w1\<lparr>db := t\<rparr>))
      | (Some f, w1) \<Rightarrow>
          (Some (Plain (fault_text f)),
           (case st (db w1) of
              Inr t \<Rightarrow> if fault_applied f then w1\<lparr>db := t\<rparr> else w1
            | Inl _ \<Rightarrow> w1)))"

definition db_Query :: "env \<Rightarrow> (tables \<Rightarrow> 'a) \<Rightarrow> world \<Rightarrow> (error + 'a) \<times> world" where
  "db_Query E q w =
     (case call E w of
        (None, w1) \<Rightarrow> (Inr (q (db w1)), w1)
      | (Some f, w1) \<Rightarrow> (Inl (Plain (fault_text f)), w1))"

text \<open>A query with parameters of type TEXT.\<close>

definition db_Query_text ::
    "env \<Rightarrow> string list \<Rightarrow> (tables \<Rightarrow> 'a) \<Rightarrow> world \<Rightarrow> (error + 'a) \<times> world" where
  "db_Query_text E ss q w =
     (case db_Query E q w of
        (Inl e, w1) \<Rightarrow> (Inl e, w1)
      | (Inr x, w1) \<Rightarrow> (case texts_check ss of Some e \<Rightarrow> (Inl e, w1) | None \<Rightarrow> (Inr x, w1)))"

section \<open>Transactions\<close>

definition BeginTx :: "env \<Rightarrow> world \<Rightarrow> error option \<times> world" where
  "BeginTx E w =
     (case call E w of
        (None, w1) \<Rightarrow> (None, w1\<lparr>txn := Some (Open (db w1))\<rparr>)
      | (Some f, w1) \<Rightarrow> (Some (Plain (fault_text f)), w1))"

definition tx_Exec :: "env \<Rightarrow> statement \<Rightarrow> world \<Rightarrow> error option \<times> world" where
  "tx_Exec E st w =
     (case txn w of
        Some (Open t) \<Rightarrow>
          (case call E w of
             (None, w1) \<Rightarrow>
               (case st t of
                  Inl e \<Rightarrow> (Some e, w1\<lparr>txn := Some Aborted\<rparr>)
                | Inr t' \<Rightarrow> (None, w1\<lparr>txn := Some (Open t')\<rparr>))
           | (Some f, w1) \<Rightarrow> (Some (Plain (fault_text f)), w1\<lparr>txn := Some Aborted\<rparr>))
      | Some Aborted \<Rightarrow> (Some (PgError ''25P02'' []), w)
      | None \<Rightarrow> (Some (Plain ''tx is closed''), w))"

definition Commit :: "env \<Rightarrow> world \<Rightarrow> error option \<times> world" where
  "Commit E w =
     (case txn w of
        Some (Open t) \<Rightarrow>
          (case call E w of
             (None, w1) \<Rightarrow> (None, w1\<lparr>db := t, txn := None\<rparr>)
           | (Some f, w1) \<Rightarrow>
               (Some (Plain (fault_text f)),
                if fault_applied f then w1\<lparr>db := t, txn := None\<rparr> else w1\<lparr>txn := None\<rparr>))
      | Some Aborted \<Rightarrow>
          (Some (Plain ''commit unexpectedly resulted in rollback''), w\<lparr>txn := None\<rparr>)
      | None \<Rightarrow> (Some (Plain ''tx is closed''), w))"

definition Rollback :: "world \<Rightarrow> world" where
  "Rollback w = w\<lparr>txn := None\<rparr>"

section \<open>Their effect\<close>

lemma call_simps [simp]:
  "fst (call E w) = env_fault E (tick w)"
  "snd (call E w) = w\<lparr>tick := Suc (tick w)\<rparr>"
  by (simp_all add: call_def)

lemma db_Query_cases:
  assumes "db_Query E q w = (r, w')"
  obtains (ok) "r = Inr (q (db w))" "w' = w\<lparr>tick := Suc (tick w)\<rparr>" "env_fault E (tick w) = None"
  | (fail) f where "r = Inl (Plain (fault_text f))" "w' = w\<lparr>tick := Suc (tick w)\<rparr>"
      "env_fault E (tick w) = Some f"
  using assms by (auto simp: db_Query_def call_def split: option.splits)

lemma db_Query_text_cases:
  assumes "db_Query_text E ss q w = (r, w')"
  obtains (ok) "r = Inr (q (db w))" "w' = w\<lparr>tick := Suc (tick w)\<rparr>" "list_all text_ok ss"
  | (fail) s where "r = Inl (Plain s)" "w' = w\<lparr>tick := Suc (tick w)\<rparr>"
  | (encoding) "r = Inl (PgError character_not_in_repertoire [])" "w' = w\<lparr>tick := Suc (tick w)\<rparr>"
      "\<not> list_all text_ok ss"
proof (cases "db_Query E q w")
  case (Pair x w1)
  from Pair show thesis
    by (rule db_Query_cases)
      (use assms Pair ok fail encoding in \<open>auto simp: db_Query_text_def texts_check_def split: if_splits\<close>)
qed

lemma db_Exec_cases:
  assumes "db_Exec E st w = (r, w')"
  obtains (ok) t where "r = None" "st (db w) = Inr t" "w' = w\<lparr>db := t, tick := Suc (tick w)\<rparr>"
      "env_fault E (tick w) = None"
  | (rejected) e where "r = Some e" "st (db w) = Inl e" "w' = w\<lparr>tick := Suc (tick w)\<rparr>"
      "env_fault E (tick w) = None"
  | (lost) f where "r = Some (Plain (fault_text f))" "w' = w\<lparr>tick := Suc (tick w)\<rparr>"
      "env_fault E (tick w) = Some f"
  | (unanswered) f t where "r = Some (Plain (fault_text f))" "st (db w) = Inr t"
      "w' = w\<lparr>db := t, tick := Suc (tick w)\<rparr>" "env_fault E (tick w) = Some f" "fault_applied f"
  using assms by (auto simp: db_Exec_def call_def split: option.splits sum.splits if_splits)

context safe_statement
begin

lemma db_Exec_wf: "db_Exec E st w = (r, w') \<Longrightarrow> wf_tables (db w) \<Longrightarrow> wf_tables (db w')"
  by (erule db_Exec_cases) (auto intro: st_wf)

lemma db_Exec_policies:
  "db_Exec E st w = (r, w') \<Longrightarrow> policy_exists i (db w) \<Longrightarrow> policy_exists i (db w')"
  by (erule db_Exec_cases) (auto intro: st_policies)

end

lemma db_Exec_frame [frame]:
  assumes "db_Exec E st w = (r, w')"
  shows "txn w' = txn w" "spawned w' = spawned w" "objects w' = objects w"
  using assms by (auto elim!: db_Exec_cases)

lemma db_Query_frame [frame]:
  assumes "db_Query E q w = (r, w')"
  shows "db w' = db w" "txn w' = txn w" "spawned w' = spawned w" "objects w' = objects w"
  using assms by (auto elim!: db_Query_cases)

end
