(* ===== verification/Attestation.thy ===== *)
theory Attestation
  imports World
begin

text \<open>
  The PDF attestation of \<^verbatim>\<open>documents/pdf_generator.go\<close>, as the list of the calls it makes on the
  fpdf document, in order. fpdf itself, which turns the calls into bytes or an error, is the
  argument \<open>render\<close>. String literals are written as their UTF-8 bytes.
\<close>

section \<open>Accented letters\<close>

definition e_acute :: string where "e_acute = [CHR 0xC3, CHR 0xA9]"
definition a_grave :: string where "a_grave = [CHR 0xC3, CHR 0xA0]"
definition em_dash :: string where "em_dash = [CHR 0xE2, CHR 0x80, CHR 0x94]"
definition degree :: string where "degree = [CHR 0xC2, CHR 0xB0]"

section \<open>Names and dates\<close>

definition productNames :: "string \<rightharpoonup> string" where
  "productNames =
    [ ''IARD-AUTO-RC'' \<mapsto> ''Responsabilit'' @ e_acute @ '' Civile Auto'',
      ''IARD-HAB-MRH'' \<mapsto> ''Multirisque Habitation'',
      ''PREV-IND-01'' \<mapsto> ''Pr'' @ e_acute @ ''voyance Individuelle'' ]"

definition lobNames :: "string \<rightharpoonup> string" where
  "lobNames =
    [ ''IARD-AUTO-RC'' \<mapsto> ''IARD '' @ em_dash @ '' Automobile'',
      ''IARD-HAB-MRH'' \<mapsto> ''IARD '' @ em_dash @ '' Habitation'',
      ''PREV-IND-01'' \<mapsto> ''Vie & Pr'' @ e_acute @ ''voyance'' ]"

definition productName :: "string \<Rightarrow> string" where
  "productName code = (case productNames code of Some n \<Rightarrow> n | None \<Rightarrow> code)"

definition lob :: "string \<Rightarrow> string" where
  "lob code = (case lobNames code of Some l \<Rightarrow> l | None \<Rightarrow> ''Autre'')"

definition statusLabel :: "policy_status \<Rightarrow> string" where
  "statusLabel s =
     (if s = StatusActive then ''ACTIVE''
      else if s = StatusAmended then ''EN COURS D'' @ [CHR 0x27] @ ''AVENANT''
      else s)"

text \<open>The layouts \<^verbatim>\<open>02/01/2006\<close> and \<^verbatim>\<open>15:04:05\<close>, in UTC.\<close>

definition format_day :: "time \<Rightarrow> string" where
  "format_day t =
     (let (y, m, d) = civil_of_days (t div nanos_per_day)
      in appendInt d 2 @ ''/'' @ appendInt m 2 @ ''/'' @ appendInt y 4)"

definition format_clock :: "time \<Rightarrow> string" where
  "format_clock t =
     (let sec = (t mod nanos_per_day) div nanos_per_second
      in appendInt (sec div 3600) 2 @ '':'' @ appendInt (sec div 60 mod 60) 2 @ '':'' @
         appendInt (sec mod 60) 2)"

section \<open>The page\<close>

text \<open>
  The calls on the document. \<open>Rect_at_Y\<close> and \<open>Line_at_Y\<close> take their vertical position from
  \<^verbatim>\<open>GetY\<close>; the line width is in tenths.
\<close>

datatype pdf_call =
    New string string string string
  | SetMargins int int int
  | AddPage
  | SetFont string string int
  | SetTextColor int int int
  | SetDrawColor int int int
  | SetFillColor int int int
  | SetLineWidth_tenths int
  | Rect_at_Y int int int string
  | Line_at_Y int int
  | SetX int
  | SetY int
  | Ln int
  | CellFormat int int string string int string bool int string
  | MultiCell int int string string string bool

definition attestation_rows :: "policy \<Rightarrow> (string \<times> string) list" where
  "attestation_rows p =
    [ (''Num'' @ e_acute @ ''ro de police'', PolicyNumber p),
      (''Assur'' @ e_acute, HolderName p),
      (''Produit'', productName (ProductCode p)),
      (''Branche'', lob (ProductCode p)),
      (''Date d'' @ [CHR 0x27] @ ''effet'', format_day (EffectiveDate p)),
      (''Date d'' @ [CHR 0x27] @ e_acute @ ''ch'' @ e_acute @ ''ance'', format_day (ExpiryDate p)) ]"

fun row_calls :: "string \<times> string \<Rightarrow> pdf_call list" where
  "row_calls (label, value) =
    [ SetX 24,
      SetFont ''Helvetica'' ''B'' 10,
      CellFormat 55 7 (label @ '' :'') [] 0 ''L'' False 0 [],
      SetFont ''Helvetica'' [] 10,
      CellFormat 0 7 value [] 1 ''L'' False 0 [] ]"

definition legal_notice :: string where
  "legal_notice =
     ''Ce document constitue une attestation d'' @ [CHR 0x27] @ ''assurance conform'' @ e_acute @ ''ment '' @
     a_grave @ '' l'' @ [CHR 0x27] @ ''article L113-5 du Code des assurances et '' @ a_grave @
     '' la r'' @ e_acute @ ''glementation ACPR en vigueur. Il est valable uniquement pour la p'' @ e_acute @
     ''riode mentionn'' @ e_acute @ ''e ci-dessus.''"

definition attestation_page :: "policy \<Rightarrow> time \<Rightarrow> pdf_call list" where
  "attestation_page p now =
    [ New ''P'' ''mm'' ''A4'' [], SetMargins 20 20 20, AddPage,
      SetFont ''Helvetica'' ''B'' 18, SetTextColor 10 60 120,
      CellFormat 0 10 (''ATTESTATION D'' @ [CHR 0x27] @ ''ASSURANCE'') [] 1 ''C'' False 0 [],
      SetFont ''Helvetica'' [] 11, SetTextColor 80 80 80,
      CellFormat 0 7 (''ktayl solution '' @ em_dash @ '' Courtier en Assurances'') [] 1 ''C'' False 0 [],
      Ln 6,
      SetDrawColor 10 60 120, SetLineWidth_tenths 5, Rect_at_Y 20 170 54 ''D'',
      SetFont ''Helvetica'' ''B'' 10, SetTextColor 10 60 120, SetX 24,
      CellFormat 0 8 ''INFORMATIONS DE LA POLICE'' [] 1 ''L'' False 0 [],
      SetFont ''Helvetica'' [] 10, SetTextColor 30 30 30 ] @
    concat (map row_calls (attestation_rows p)) @
    [ Ln 8,
      SetFillColor 220 240 220, SetFont ''Helvetica'' ''B'' 11, SetTextColor 10 100 10,
      CellFormat 0 9 (''  Statut : '' @ statusLabel (Status p)) [] 1 ''L'' True 0 [],
      Ln 6,
      SetFont ''Helvetica'' ''I'' 9, SetTextColor 100 100 100,
      MultiCell 0 5 legal_notice [] ''L'' False,
      Ln 6,
      SetFont ''Helvetica'' [] 8, SetTextColor 140 140 140,
      CellFormat 0 5 (''Document g'' @ e_acute @ ''n'' @ e_acute @ ''r'' @ e_acute @ '' le '' @ format_day now @
        '' '' @ a_grave @ '' '' @ format_clock now @ '' UTC'') [] 1 ''R'' False 0 [],
      SetY (- 20), SetDrawColor 180 180 180, Line_at_Y 20 190,
      SetFont ''Helvetica'' ''I'' 8, SetTextColor 150 150 150,
      CellFormat 0 5 (''ktayl solution SAS '' @ em_dash @ '' ORIAS n'' @ degree @ '' 00000000 '' @ em_dash @
        '' Document non contractuel'') [] 0 ''C'' False 0 [] ]"

text \<open>\<^verbatim>\<open>GenerateAttestation\<close>; \<open>render\<close> is \<^verbatim>\<open>pdf.Output\<close> of the document the calls build.\<close>

definition GenerateAttestation ::
    "(pdf_call list \<Rightarrow> error + bytes) \<Rightarrow> env \<Rightarrow> policy \<Rightarrow> world \<Rightarrow> (error + bytes) \<times> world" where
  "GenerateAttestation render E p w =
     (case time_Now E w of (now, w1) \<Rightarrow>
        (case render (attestation_page p now) of
           Inl e \<Rightarrow> (Inl (Errorf ''pdf render: '' e []), w1)
         | Inr b \<Rightarrow> (Inr b, w1)))"

section \<open>Dates can be read back\<close>

lemma appendInt_inject:
  assumes "appendInt x k = appendInt y k" and "0 \<le> x" "x < 10 ^ k" "0 \<le> y" "y < 10 ^ k" "0 < k"
  shows "x = y"
proof -
  have "nat x = nat y"
    using assms(1,2,4) digits_val_pad_dec by (simp add: appendInt_def) metis
  with assms(2,4) show ?thesis by simp
qed

lemma two_digits_inject:
  "0 \<le> x \<Longrightarrow> x < 100 \<Longrightarrow> 0 \<le> y \<Longrightarrow> y < 100 \<Longrightarrow> appendInt x 2 = appendInt y 2 \<longleftrightarrow> x = y"
  using appendInt_inject [of x 2 y] by auto

lemma length_appendInt: "0 \<le> x \<Longrightarrow> x < 10 ^ k \<Longrightarrow> 0 < k \<Longrightarrow> length (appendInt x k) = k"
  by (simp add: appendInt_def length_pad_dec nat_less_iff)

lemma format_day_inject:
  assumes "format_day t = format_day u" and "0 \<le> Year t" "Year t \<le> 9999" "0 \<le> Year u" "Year u \<le> 9999"
  shows "t div nanos_per_day = u div nanos_per_day"
proof -
  obtain y m d where 1: "civil_of_days (t div nanos_per_day) = (y, m, d)" by (metis prod_cases3)
  obtain y' m' d' where 2: "civil_of_days (u div nanos_per_day) = (y', m', d')" by (metis prod_cases3)
  note v1 = civil_of_days_valid [OF 1] and v2 = civil_of_days_valid [OF 2]
  have day: "daysIn m y \<le> 31" "daysIn m' y' \<le> 31" by (simp_all add: daysIn_def)
  have years: "0 \<le> y" "y \<le> 9999" "0 \<le> y'" "y' \<le> 9999" using assms 1 2 by (simp_all add: Year_def)
  from assms(1) 1 2 have "appendInt d 2 @ ''/'' @ appendInt m 2 @ ''/'' @ appendInt y 4 =
      appendInt d' 2 @ ''/'' @ appendInt m' 2 @ ''/'' @ appendInt y' 4"
    by (simp add: format_day_def)
  moreover have "length (appendInt d 2) = length (appendInt d' 2)"
    "length (appendInt m 2) = length (appendInt m' 2)"
    using v1 v2 day by (simp_all add: length_appendInt)
  ultimately have "appendInt d 2 = appendInt d' 2" "appendInt m 2 = appendInt m' 2"
    "appendInt y 4 = appendInt y' 4" by simp_all
  then have "d = d'" "m = m'" "y = y'"
    using v1 v2 day years by (auto intro: appendInt_inject)
  with v1(5) v2(5) show ?thesis by simp
qed

lemma length_format_day:
  assumes "0 \<le> Year t" "Year t \<le> 9999"
  shows "length (format_day t) = 10"
proof -
  obtain y m d where 1: "civil_of_days (t div nanos_per_day) = (y, m, d)" by (metis prod_cases3)
  note v = civil_of_days_valid [OF 1]
  have "daysIn m y \<le> 31" by (simp add: daysIn_def)
  with v 1 assms show ?thesis by (simp add: format_day_def Year_def length_appendInt)
qed

lemma split_same_length: "length a = length b \<Longrightarrow> a @ c = b @ d \<Longrightarrow> a = b \<and> c = d"
  by simp

text \<open>The second of the day, from its hours, minutes and seconds.\<close>

lemma clock_bounds:
  defines "sec \<equiv> \<lambda>t :: time. (t mod nanos_per_day) div nanos_per_second"
  shows "0 \<le> sec t" "sec t < 86400"
proof -
  have "0 \<le> t mod nanos_per_day" "t mod nanos_per_day < 86400 * nanos_per_second"
    by (simp_all add: nanos_per_day_def nanos_per_second_def)
  then show "0 \<le> sec t" "sec t < 86400"
    unfolding sec_def nanos_per_second_def by linarith+
qed

lemma hms_unique:
  fixes a b :: int
  assumes "a div 3600 = b div 3600" "a div 60 mod 60 = b div 60 mod 60" "a mod 60 = b mod 60"
  shows "a = b"
proof -
  have "a div 60 div 60 = b div 60 div 60"
    using assms(1) zdiv_zmult2_eq [of 60 a 60] zdiv_zmult2_eq [of 60 b 60] by simp
  with assms(2) have "a div 60 = b div 60" by (metis div_mult_mod_eq)
  with assms(3) show ?thesis by (metis div_mult_mod_eq)
qed

lemma format_clock_inject:
  assumes "format_clock t = format_clock u"
  shows "(t mod nanos_per_day) div nanos_per_second = (u mod nanos_per_day) div nanos_per_second"
proof -
  define a where "a = (t mod nanos_per_day) div nanos_per_second"
  define b where "b = (u mod nanos_per_day) div nanos_per_second"
  have bounds: "0 \<le> a" "a < 86400" "0 \<le> b" "b < 86400"
    unfolding a_def b_def by (rule clock_bounds)+
  then have small: "0 \<le> a div 3600" "a div 3600 < 100" "0 \<le> b div 3600" "b div 3600 < 100"
    by linarith+
  have parts: "0 \<le> x mod 60 \<and> x mod 60 < 100" for x :: int
    by (simp add: less_trans [OF pos_mod_bound])
  from assms have "appendInt (a div 3600) 2 @ '':'' @ appendInt (a div 60 mod 60) 2 @ '':'' @
      appendInt (a mod 60) 2 = appendInt (b div 3600) 2 @ '':'' @ appendInt (b div 60 mod 60) 2 @ '':'' @
      appendInt (b mod 60) 2"
    by (simp add: format_clock_def Let_def a_def b_def)
  then have whole: "appendInt (a div 3600) 2 @ ('':'' @ appendInt (a div 60 mod 60) 2 @ '':'' @ appendInt (a mod 60) 2) =
      appendInt (b div 3600) 2 @ ('':'' @ appendInt (b div 60 mod 60) 2 @ '':'' @ appendInt (b mod 60) 2)" .
  have len: "length (appendInt x 2) = 2" if "0 \<le> x" "x < 100" for x
    using that by (simp add: length_appendInt)
  have len60: "length (appendInt (x mod 60) 2) = 2" for x
    by (rule len [OF conjunct1 [OF parts] conjunct2 [OF parts]])
  note hours = split_same_length [OF trans [OF len [OF small(1,2)] len [OF small(3,4), symmetric]] whole]
  then have "appendInt (a div 60 mod 60) 2 @ ('':'' @ appendInt (a mod 60) 2) =
      appendInt (b div 60 mod 60) 2 @ ('':'' @ appendInt (b mod 60) 2)"
    by (simp only: append.simps list.inject)
  note minutes = split_same_length [OF trans [OF len60 len60 [symmetric]] this]
  then have seconds: "appendInt (a mod 60) 2 = appendInt (b mod 60) 2" by (simp only: append.simps list.inject)
  note eq = conjunct1 [OF hours] conjunct1 [OF minutes] seconds
  have mods: "x mod 60 = y mod 60" if "appendInt (x mod 60) 2 = appendInt (y mod 60) 2" for x y :: int
    by (rule iffD1 [OF two_digits_inject [OF conjunct1 [OF parts] conjunct2 [OF parts]
      conjunct1 [OF parts] conjunct2 [OF parts]] that])
  have "a = b"
    by (rule hms_unique [OF iffD1 [OF two_digits_inject [OF small] eq(1)] mods [OF eq(2)] mods [OF eq(3)]])
  then show ?thesis by (simp add: a_def b_def)
qed

lemma same_second:
  assumes "t div nanos_per_day = u div nanos_per_day"
    and "(t mod nanos_per_day) div nanos_per_second = (u mod nanos_per_day) div nanos_per_second"
  shows "t div nanos_per_second = u div nanos_per_second"
proof -
  have "x div nanos_per_second =
      86400 * (x div nanos_per_day) + (x mod nanos_per_day) div nanos_per_second" for x
    using div_mult_mod_eq [of x nanos_per_day]
    unfolding nanos_per_day_def nanos_per_second_def by linarith
  with assms show ?thesis by metis
qed

section \<open>What a reader of the page sees\<close>

text \<open>
  The field that stands next to a label: the first cell after the one of width 55 with that label.
  The coloured cell shows the status, the right-aligned one says when the page was made.
\<close>

fun next_cell :: "pdf_call list \<Rightarrow> string option" where
  "next_cell [] = None"
| "next_cell (CellFormat wd h s border ln align fill link url # cs) = Some s"
| "next_cell (c # cs) = next_cell cs"

fun field_shown :: "string \<Rightarrow> pdf_call list \<Rightarrow> string option" where
  "field_shown label [] = None"
| "field_shown label (CellFormat wd h s border ln align fill link url # cs) =
     (if wd = 55 \<and> s = label @ '' :'' then next_cell cs else field_shown label cs)"
| "field_shown label (c # cs) = field_shown label cs"

fun coloured_cell :: "pdf_call list \<Rightarrow> string option" where
  "coloured_cell [] = None"
| "coloured_cell (CellFormat wd h s border ln align fill link url # cs) =
     (if fill then Some s else coloured_cell cs)"
| "coloured_cell (c # cs) = coloured_cell cs"

fun right_cell :: "pdf_call list \<Rightarrow> string option" where
  "right_cell [] = None"
| "right_cell (CellFormat wd h s border ln align fill link url # cs) =
     (if align = ''R'' then Some s else right_cell cs)"
| "right_cell (c # cs) = right_cell cs"

text \<open>A date of the form day, month and year, as the number of its day.\<close>

definition read_day :: "string \<Rightarrow> int" where
  "read_day s = days_of_civil (int (digits_val (take 4 (drop 6 s)))) (int (digits_val (take 2 (drop 3 s))))
     (int (digits_val (take 2 s)))"

lemma digits_val_appendInt: "0 \<le> x \<Longrightarrow> int (digits_val (appendInt x k)) = x"
  by (simp add: appendInt_def digits_val_pad_dec)

lemma read_format_day:
  assumes "0 \<le> Year t" "Year t \<le> 9999"
  shows "read_day (format_day t) = t div nanos_per_day"
proof -
  obtain y m d where 1: "civil_of_days (t div nanos_per_day) = (y, m, d)" by (metis prod_cases3)
  note v = civil_of_days_valid [OF 1]
  have "daysIn m y \<le> 31" by (simp add: daysIn_def)
  with v 1 assms have bounds: "0 \<le> d" "d < 100" "0 \<le> m" "m < 100" "0 \<le> y" "y < 10000"
    by (simp_all add: Year_def)
  then have len: "length (appendInt d 2) = 2" "length (appendInt m 2) = 2" "length (appendInt y 4) = 4"
    by (simp_all add: length_appendInt)
  from 1 have shown: "format_day t = appendInt d 2 @ ''/'' @ appendInt m 2 @ ''/'' @ appendInt y 4"
    by (simp add: format_day_def)
  have "take 2 (format_day t) = appendInt d 2" "take 2 (drop 3 (format_day t)) = appendInt m 2"
    "take 4 (drop 6 (format_day t)) = appendInt y 4"
    unfolding shown by (simp_all add: len)
  with bounds v(5) show ?thesis by (simp add: read_day_def digits_val_appendInt)
qed

section \<open>Properties\<close>

lemma attestation_page_inject:
  assumes "attestation_page p t = attestation_page q u"
    and "\<forall>d \<in> {EffectiveDate p, ExpiryDate p, EffectiveDate q, ExpiryDate q, t, u}.
      0 \<le> Year d \<and> Year d \<le> 9999"
  shows "PolicyNumber p = PolicyNumber q \<and> HolderName p = HolderName q \<and>
    productName (ProductCode p) = productName (ProductCode q) \<and>
    lob (ProductCode p) = lob (ProductCode q) \<and>
    EffectiveDate p div nanos_per_day = EffectiveDate q div nanos_per_day \<and>
    ExpiryDate p div nanos_per_day = ExpiryDate q div nanos_per_day \<and>
    statusLabel (Status p) = statusLabel (Status q) \<and>
    t div nanos_per_second = u div nanos_per_second"
proof -
  have "attestation_rows p = attestation_rows q" and label: "statusLabel (Status p) = statusLabel (Status q)"
    and stamp: "format_day t @ '' '' @ a_grave @ '' '' @ format_clock t @ '' UTC'' =
      format_day u @ '' '' @ a_grave @ '' '' @ format_clock u @ '' UTC''"
    using assms(1) by (simp_all add: attestation_page_def attestation_rows_def)
  then have rows: "PolicyNumber p = PolicyNumber q" "HolderName p = HolderName q"
    "productName (ProductCode p) = productName (ProductCode q)"
    "lob (ProductCode p) = lob (ProductCode q)"
    "format_day (EffectiveDate p) = format_day (EffectiveDate q)"
    "format_day (ExpiryDate p) = format_day (ExpiryDate q)"
    by (simp_all add: attestation_rows_def)
  have day: "format_day d = format_day e \<Longrightarrow> d div nanos_per_day = e div nanos_per_day"
    if "d \<in> {EffectiveDate p, ExpiryDate p, t}" "e \<in> {EffectiveDate q, ExpiryDate q, u}" for d e
    using assms(2) that by (intro format_day_inject) auto
  have "length (format_day t) = length (format_day u)"
    using assms(2) by (simp add: length_format_day)
  from split_same_length [OF this stamp]
  have "format_day t = format_day u \<and> format_clock t = format_clock u" by simp
  then have "format_day t = format_day u" "format_clock t = format_clock u" by simp_all
  then have "t div nanos_per_second = u div nanos_per_second"
    using day [of t u] format_clock_inject same_second by blast
  with rows label day show ?thesis by blast
qed

text \<open>
  C31. An attestation shows the policy it is for. Of a policy whose dates lie in the years 0 to 9999,
  every field stands next to its own label: the number, the holder, the name and the line of
  business of the product, the day of effect and the day of expiry, which are read back from
  day, month and year; the coloured cell shows the status. Two such pages, made in those years,
  that read the same down to the last call are of policies that agree in all of this, and were
  made in the same second.
\<close>

theorem attestation_identifies_the_policy:
  assumes "\<forall>d \<in> {EffectiveDate p, ExpiryDate p, t}. 0 \<le> Year d \<and> Year d \<le> 9999"
  shows "field_shown (''Num'' @ e_acute @ ''ro de police'') (attestation_page p t) = Some (PolicyNumber p) \<and>
    field_shown (''Assur'' @ e_acute) (attestation_page p t) = Some (HolderName p) \<and>
    field_shown ''Produit'' (attestation_page p t) = Some (productName (ProductCode p)) \<and>
    field_shown ''Branche'' (attestation_page p t) = Some (lob (ProductCode p)) \<and>
    map_option read_day (field_shown (''Date d'' @ [CHR 0x27] @ ''effet'') (attestation_page p t)) =
      Some (EffectiveDate p div nanos_per_day) \<and>
    map_option read_day (field_shown (''Date d'' @ [CHR 0x27] @ e_acute @ ''ch'' @ e_acute @ ''ance'')
      (attestation_page p t)) = Some (ExpiryDate p div nanos_per_day) \<and>
    coloured_cell (attestation_page p t) = Some (''  Statut : '' @
      (if Status p = StatusActive then ''ACTIVE''
       else if Status p = StatusAmended then ''EN COURS D'' @ [CHR 0x27] @ ''AVENANT'' else Status p)) \<and>
    right_cell (attestation_page p t) = Some (''Document g'' @ e_acute @ ''n'' @ e_acute @ ''r'' @ e_acute @
      '' le '' @ format_day t @ '' '' @ a_grave @ '' '' @ format_clock t @ '' UTC'') \<and>
    (\<forall>q u. attestation_page p t = attestation_page q u \<and>
       (\<forall>d \<in> {EffectiveDate q, ExpiryDate q, u}. 0 \<le> Year d \<and> Year d \<le> 9999) \<longrightarrow>
       PolicyNumber p = PolicyNumber q \<and> HolderName p = HolderName q \<and>
       productName (ProductCode p) = productName (ProductCode q) \<and>
       lob (ProductCode p) = lob (ProductCode q) \<and>
       EffectiveDate p div nanos_per_day = EffectiveDate q div nanos_per_day \<and>
       ExpiryDate p div nanos_per_day = ExpiryDate q div nanos_per_day \<and>
       statusLabel (Status p) = statusLabel (Status q) \<and>
       t div nanos_per_second = u div nanos_per_second)"
proof -
  have same: "attestation_page p t = attestation_page q u \<and>
       (\<forall>d \<in> {EffectiveDate q, ExpiryDate q, u}. 0 \<le> Year d \<and> Year d \<le> 9999) \<longrightarrow>
       PolicyNumber p = PolicyNumber q \<and> HolderName p = HolderName q \<and>
       productName (ProductCode p) = productName (ProductCode q) \<and>
       lob (ProductCode p) = lob (ProductCode q) \<and>
       EffectiveDate p div nanos_per_day = EffectiveDate q div nanos_per_day \<and>
       ExpiryDate p div nanos_per_day = ExpiryDate q div nanos_per_day \<and>
       statusLabel (Status p) = statusLabel (Status q) \<and>
       t div nanos_per_second = u div nanos_per_second" for q u
    using attestation_page_inject [of p t q u] assms by simp
  have days: "read_day (format_day (EffectiveDate p)) = EffectiveDate p div nanos_per_day"
    "read_day (format_day (ExpiryDate p)) = ExpiryDate p div nanos_per_day"
    using assms by (simp_all add: read_format_day)
  show ?thesis
    by (intro conjI allI same)
      (simp_all add: attestation_page_def attestation_rows_def e_acute_def days statusLabel_def)
qed

theorem attestation_identifies_the_policy_witness:
  "field_shown (''Date d'' @ [CHR 0x27] @ ''effet'')
     (attestation_page (zero_policy\<lparr>EffectiveDate := 1788220800000000000\<rparr>) 0) \<noteq> None \<and>
   map_option read_day (field_shown (''Date d'' @ [CHR 0x27] @ ''effet'')
     (attestation_page (zero_policy\<lparr>EffectiveDate := 1788220800000000000\<rparr>) 0)) = Some 20697"
proof -
  let ?p = "zero_policy\<lparr>EffectiveDate := 1788220800000000000\<rparr>"
  have "\<forall>d \<in> {EffectiveDate ?p, ExpiryDate ?p, 0}. 0 \<le> Year d \<and> Year d \<le> 9999" by code_simp
  from attestation_identifies_the_policy [OF this]
  have "map_option read_day (field_shown (''Date d'' @ [CHR 0x27] @ ''effet'') (attestation_page ?p 0)) =
      Some (1788220800000000000 div nanos_per_day)"
    by simp
  then show ?thesis by (auto simp: nanos_per_day_def nanos_per_second_def)
qed

end
