(* ===== verification/Lifecycle.thy ===== *)
theory Lifecycle
  imports Domain "HOL-Library.Transitive_Closure_Table"
begin

text \<open>
  The state machine of \<^verbatim>\<open>state_machine.go\<close>. \<open>transitionTable\<close> is the Go map of maps and
  \<open>Transition\<close> its lookup. Beside it stands what the lifecycle promises: \<open>stage\<close>, the nine
  stages a policy can be in, and \<open>advances\<close>, the legal moves as a relation with one rule per
  move. \<open>Transition\<close> refines that relation through \<open>stage_of\<close>.
\<close>

section \<open>Events and reasons\<close>

type_synonym event = string

definition EventSubmit :: event where "EventSubmit = ''submit''"
definition EventActivate :: event where "EventActivate = ''activate''"
definition EventReject :: event where "EventReject = ''reject''"
definition EventAmend :: event where "EventAmend = ''amend''"
definition EventConfirm :: event where "EventConfirm = ''confirm''"
definition EventCancel :: event where "EventCancel = ''cancel''"
definition EventExpire :: event where "EventExpire = ''expire''"

lemmas event_defs =
  EventSubmit_def EventActivate_def EventReject_def EventAmend_def EventConfirm_def
  EventCancel_def EventExpire_def

type_synonym reason_code = string

definition ReasonUnderwriterApproved :: reason_code where
  "ReasonUnderwriterApproved = ''UNDERWRITER_APPROVED''"
definition ReasonUnderwriterRejected :: reason_code where
  "ReasonUnderwriterRejected = ''UNDERWRITER_REJECTED''"
definition ReasonCustomerRequest :: reason_code where
  "ReasonCustomerRequest = ''CUSTOMER_REQUEST''"
definition ReasonNonPayment :: reason_code where
  "ReasonNonPayment = ''NON_PAYMENT''"
definition ReasonRegulatory :: reason_code where
  "ReasonRegulatory = ''REGULATORY''"

section \<open>The transition table\<close>

definition transitionTable :: "policy_status \<rightharpoonup> (event \<rightharpoonup> policy_status)" where
  "transitionTable =
    [ StatusDraft \<mapsto>
        [ EventSubmit \<mapsto> StatusSubmitted ],
      StatusSubmitted \<mapsto>
        [ EventActivate \<mapsto> StatusActive,
          EventReject \<mapsto> StatusRejected ],
      StatusActive \<mapsto>
        [ EventAmend \<mapsto> StatusAmended,
          EventCancel \<mapsto> StatusCancelled,
          EventExpire \<mapsto> StatusExpired ],
      StatusAmended \<mapsto>
        [ EventConfirm \<mapsto> StatusActive ] ]"

definition Transition :: "policy_status \<Rightarrow> event \<Rightarrow> error + policy_status" where
  "Transition current event =
     (case transitionTable current of
        None \<Rightarrow> Inl (TransitionErr ErrInvalidTransition)
      | Some events \<Rightarrow>
          (case events event of
             None \<Rightarrow> Inl (TransitionErr ErrInvalidTransition)
           | Some next_status \<Rightarrow> Inr next_status))"

lemma Transition_error: "Transition s ev = Inl e \<Longrightarrow> e = TransitionErr ErrInvalidTransition"
  by (auto simp: Transition_def split: option.splits)

section \<open>The lifecycle the table implements\<close>

datatype stage =
  Draft | Submitted | Active | Rejected | Amended | Cancelled | Expired | Suspended | Terminated

datatype action = Submit | Activate | Reject | Amend | Confirm | Cancel | Expire

fun status_of :: "stage \<Rightarrow> policy_status" where
  "status_of Draft = StatusDraft"
| "status_of Submitted = StatusSubmitted"
| "status_of Active = StatusActive"
| "status_of Rejected = StatusRejected"
| "status_of Amended = StatusAmended"
| "status_of Cancelled = StatusCancelled"
| "status_of Expired = StatusExpired"
| "status_of Suspended = StatusSuspended"
| "status_of Terminated = StatusTerminated"

fun event_of :: "action \<Rightarrow> event" where
  "event_of Submit = EventSubmit"
| "event_of Activate = EventActivate"
| "event_of Reject = EventReject"
| "event_of Amend = EventAmend"
| "event_of Confirm = EventConfirm"
| "event_of Cancel = EventCancel"
| "event_of Expire = EventExpire"

definition all_stages :: "stage list" where
  "all_stages = [Draft, Submitted, Active, Rejected, Amended, Cancelled, Expired, Suspended,
     Terminated]"

definition all_actions :: "action list" where
  "all_actions = [Submit, Activate, Reject, Amend, Confirm, Cancel, Expire]"

definition stage_of :: "policy_status \<Rightarrow> stage option" where
  "stage_of s = find (\<lambda>g. status_of g = s) all_stages"

definition action_of :: "event \<Rightarrow> action option" where
  "action_of e = find (\<lambda>a. event_of a = e) all_actions"

lemma set_all_stages [simp]: "g \<in> set all_stages"
  by (cases g) (simp_all add: all_stages_def)

lemma set_all_actions [simp]: "a \<in> set all_actions"
  by (cases a) (simp_all add: all_actions_def)

lemma status_of_inject [simp]: "status_of g = status_of h \<longleftrightarrow> g = h"
  by (cases g; cases h) (simp_all add: status_defs)

lemma event_of_inject [simp]: "event_of a = event_of b \<longleftrightarrow> a = b"
  by (cases a; cases b) (simp_all add: event_defs)

lemma stage_of_status_of [simp]: "stage_of (status_of g) = Some g"
  by (cases g) (simp_all add: stage_of_def all_stages_def del: status_of.simps)

lemma action_of_event_of [simp]: "action_of (event_of a) = Some a"
  by (cases a) (simp_all add: action_of_def all_actions_def del: event_of.simps)

lemma stage_of_Some: "stage_of s = Some g \<longleftrightarrow> s = status_of g"
  using find_Some_mem stage_of_def stage_of_status_of by fastforce

lemma action_of_Some: "action_of e = Some a \<longleftrightarrow> e = event_of a"
  using find_Some_mem action_of_def action_of_event_of by fastforce

text \<open>The legal moves of the lifecycle, one rule per move.\<close>

inductive advances :: "stage \<Rightarrow> action \<Rightarrow> stage \<Rightarrow> bool" where
  submit: "advances Draft Submit Submitted"
| activate: "advances Submitted Activate Active"
| reject: "advances Submitted Reject Rejected"
| amend: "advances Active Amend Amended"
| cancel: "advances Active Cancel Cancelled"
| expire: "advances Active Expire Expired"
| confirm: "advances Amended Confirm Active"

code_pred advances .

inductive_cases advances_from: "advances g a h"

inductive_simps advances_simps:
  "advances Draft a h" "advances Submitted a h" "advances Active a h" "advances Rejected a h"
  "advances Amended a h" "advances Cancelled a h" "advances Expired a h"
  "advances Suspended a h" "advances Terminated a h"

lemma advances_functional: "advances g a h \<Longrightarrow> advances g a h' \<Longrightarrow> h = h'"
  by (auto elim!: advances_from)

lemma transitionTable_unfold:
  "transitionTable s =
    (if s = StatusAmended then Some [EventConfirm \<mapsto> StatusActive]
     else if s = StatusActive then Some [EventAmend \<mapsto> StatusAmended,
       EventCancel \<mapsto> StatusCancelled, EventExpire \<mapsto> StatusExpired]
     else if s = StatusSubmitted then Some [EventActivate \<mapsto> StatusActive,
       EventReject \<mapsto> StatusRejected]
     else if s = StatusDraft then Some [EventSubmit \<mapsto> StatusSubmitted]
     else None)"
  by (simp add: transitionTable_def)

lemma Transition_cases:
  assumes "Transition s ev = Inr s'"
  obtains g a h where "s = status_of g" "ev = event_of a" "s' = status_of h" "advances g a h"
  using assms unfolding Transition_def transitionTable_unfold
  by (auto split: if_splits option.splits)
    (metis advances.intros event_of.simps status_of.simps)+

lemma advances_Transition:
  "advances g a h \<Longrightarrow> Transition (status_of g) (event_of a) = Inr (status_of h)"
  by (auto elim!: advances_from simp: Transition_def transitionTable_unfold status_defs event_defs)

lemma Transition_status_of:
  "Transition (status_of g) ev = Inr s' \<longleftrightarrow>
     (\<exists>a h. ev = event_of a \<and> s' = status_of h \<and> advances g a h)"
  by (auto elim!: Transition_cases intro: advances_Transition)

section \<open>Sequences of events\<close>

text \<open>The status after a sequence of events, each of which has to be accepted.\<close>

fun run_events :: "policy_status \<Rightarrow> event list \<Rightarrow> error + policy_status" where
  "run_events s [] = Inr s"
| "run_events s (e # es) =
     (case Transition s e of Inl err \<Rightarrow> Inl err | Inr s' \<Rightarrow> run_events s' es)"

fun_cases run_events_NilE: "run_events s [] = Inr s'"

lemma run_events_Cons:
  "run_events s (e # es) = Inr s' \<longleftrightarrow> (\<exists>t. Transition s e = Inr t \<and> run_events t es = Inr s')"
  by (auto split: sum.splits)

lemma run_events_snoc:
  "run_events s (es @ [e]) = Inr s' \<longleftrightarrow> (\<exists>t. run_events s es = Inr t \<and> Transition t e = Inr s')"
  by (induction es arbitrary: s) (auto split: sum.splits)

text \<open>The stages no event leaves, and the stages the events can reach from a draft.\<close>

definition final_stages :: "stage list" where
  "final_stages = [Rejected, Cancelled, Expired, Suspended, Terminated]"

definition underwritten_stages :: "stage list" where
  "underwritten_stages = [Active, Amended, Cancelled, Expired]"

lemma final_no_Transition:
  "g \<in> set final_stages \<Longrightarrow> Transition (status_of g) ev \<noteq> Inr s'"
  by (auto simp: Transition_status_of final_stages_def advances_simps)

lemma run_events_stage:
  "run_events (status_of g) es = Inr s' \<Longrightarrow> \<exists>h. s' = status_of h"
proof (induction es arbitrary: g)
  case Nil
  then show ?case by auto
next
  case (Cons e es)
  then show ?case unfolding run_events_Cons Transition_status_of by blast
qed

text \<open>What a run from a draft leaves behind, by induction on the run read backwards.\<close>

lemma draft_run_history:
  "run_events StatusDraft es = Inr (status_of g) \<Longrightarrow>
     g \<noteq> Suspended \<and> g \<noteq> Terminated \<and>
     (g = Draft \<longleftrightarrow> es = []) \<and>
     (g = Submitted \<longrightarrow> es = [EventSubmit]) \<and>
     (g \<in> set underwritten_stages \<longrightarrow> (\<exists>rest. es = EventSubmit # EventActivate # rest))"
proof (induction es arbitrary: g rule: rev_induct)
  case Nil
  then have "status_of Draft = status_of g" by simp
  then have "g = Draft" by (simp only: status_of_inject)
  then show ?case by (simp add: underwritten_stages_def)
next
  case (snoc e es)
  then obtain t where t: "run_events StatusDraft es = Inr t" and e: "Transition t e = Inr (status_of g)"
    unfolding run_events_snoc by blast
  from e obtain h a where h: "t = status_of h" and a: "e = event_of a" and adv: "advances h a g"
    by (auto elim: Transition_cases)
  from snoc.IH [OF t [unfolded h]] adv show ?case
    by (auto elim!: advances_from simp: underwritten_stages_def a)
qed

section \<open>Properties\<close>

text \<open>
  C4. \<^verbatim>\<open>Transition\<close> succeeds on exactly the moves of the lifecycle: the status names a stage, the
  event names an action the lifecycle allows there, and the result names the stage it leads to.
  Every other pair of strings, known or not, is the error \<^verbatim>\<open>ErrInvalidTransition\<close>.
\<close>

theorem Transition_refines_lifecycle:
  "(Transition s ev = Inr s' \<longleftrightarrow>
     (\<exists>g a h. s = status_of g \<and> ev = event_of a \<and> s' = status_of h \<and> advances g a h)) \<and>
   (Transition s ev = Inl e \<longleftrightarrow>
     e = TransitionErr ErrInvalidTransition \<and>
     \<not> (\<exists>g a h. s = status_of g \<and> ev = event_of a \<and> advances g a h))"
proof
  show "Transition s ev = Inr s' \<longleftrightarrow>
     (\<exists>g a h. s = status_of g \<and> ev = event_of a \<and> s' = status_of h \<and> advances g a h)"
    by (blast elim: Transition_cases dest: advances_Transition)
  show "Transition s ev = Inl e \<longleftrightarrow>
     e = TransitionErr ErrInvalidTransition \<and>
     \<not> (\<exists>g a h. s = status_of g \<and> ev = event_of a \<and> advances g a h)"
  proof (cases "Transition s ev")
    case (Inl k)
    then have "\<not> (\<exists>g a h. s = status_of g \<and> ev = event_of a \<and> advances g a h)"
      by (auto dest: advances_Transition)
    with Inl Transition_error show ?thesis by auto
  next
    case (Inr s')
    then show ?thesis by (auto elim!: Transition_cases)
  qed
qed

text \<open>
  C16. From a draft, every accepted sequence of events keeps the policy in a stage of the lifecycle
  other than suspended and terminated, and whenever it is active, amended, cancelled or
  expired the sequence began with submit and activate: no policy comes into force, and none
  leaves it, without an underwriter's activation.
\<close>

theorem in_force_only_after_activation:
  assumes "run_events StatusDraft es = Inr s"
  shows "\<exists>g. s = status_of g \<and> g \<noteq> Suspended \<and> g \<noteq> Terminated \<and>
    (g \<in> set underwritten_stages \<longrightarrow> (\<exists>rest. es = EventSubmit # EventActivate # rest))"
proof -
  from assms obtain g where "s = status_of g"
    using run_events_stage [of Draft] by auto
  with assms draft_run_history show ?thesis by blast
qed

theorem in_force_only_after_activation_witness:
  "run_events StatusDraft [EventSubmit, EventActivate, EventAmend] = Inr StatusAmended \<and>
   (\<exists>g. StatusAmended = status_of g \<and> g \<noteq> Suspended \<and> g \<noteq> Terminated \<and>
    (g \<in> set underwritten_stages \<longrightarrow>
      (\<exists>rest. [EventSubmit, EventActivate, EventAmend] = EventSubmit # EventActivate # rest)))"
proof -
  have run: "run_events StatusDraft [EventSubmit, EventActivate, EventAmend] = Inr StatusAmended"
    by (simp add: Transition_def transitionTable_def status_defs event_defs)
  show ?thesis using run in_force_only_after_activation [OF run] by blast
qed

text \<open>
  C38. A rejected, cancelled, expired, suspended or terminated policy accepts no event at all, so
  a sequence of events from it succeeds only when it is empty.
\<close>

theorem final_stages_are_final:
  assumes "g \<in> set final_stages"
  shows "run_events (status_of g) es = Inr s \<longleftrightarrow> es = [] \<and> s = status_of g"
proof (cases es)
  case Nil
  then show ?thesis by auto
next
  case (Cons e rest)
  with assms show ?thesis by (auto simp: run_events_Cons final_no_Transition simp del: run_events.simps(2))
qed

theorem final_stages_are_final_witness:
  "run_events StatusCancelled [EventConfirm] = Inl (TransitionErr ErrInvalidTransition) \<and>
   run_events StatusCancelled [EventConfirm] \<noteq> Inr StatusActive"
proof
  show "run_events StatusCancelled [EventConfirm] = Inl (TransitionErr ErrInvalidTransition)"
    by (simp add: Transition_def transitionTable_def status_defs event_defs)
  have "Cancelled \<in> set final_stages" by (simp add: final_stages_def)
  from final_stages_are_final [OF this, of "[EventConfirm]" StatusActive]
  show "run_events StatusCancelled [EventConfirm] \<noteq> Inr StatusActive" by simp
qed

end
