(* ===== verification/Ports.thy ===== *)
theory Ports
  imports World "HOL-Library.Multiset"
begin

text \<open>
  The ports of \<^verbatim>\<open>domain/ports.go\<close>, \<^verbatim>\<open>policy_service.go\<close> and \<^verbatim>\<open>document_service.go\<close>: a Go
  interface is a record of its methods, each taking the environment and the world. Beside
  the records stand the contracts the services rely on, as locales: what every
  implementation keeps (\<open>policy_port\<close>, \<open>audit_port\<close>), and what an implementation that
  stores adds (\<open>policy_store\<close>, \<open>audit_store\<close>). The implementations interpret them in the
  theories that model them.
\<close>

section \<open>Interfaces\<close>

record policy_repository =
  repo_Create :: "env \<Rightarrow> policy \<Rightarrow> world \<Rightarrow> error option \<times> world"
  repo_GetByID :: "env \<Rightarrow> uuid \<Rightarrow> world \<Rightarrow> (error + policy) \<times> world"
  repo_GetByPolicyNumber :: "env \<Rightarrow> string \<Rightarrow> world \<Rightarrow> (error + policy) \<times> world"
  repo_Update :: "env \<Rightarrow> policy \<Rightarrow> world \<Rightarrow> error option \<times> world"
  repo_List :: "env \<Rightarrow> list_params \<Rightarrow> world \<Rightarrow> (error + policy list) \<times> world"

record coverage_repository =
  coverage_Create :: "env \<Rightarrow> coverage \<Rightarrow> world \<Rightarrow> error option \<times> world"
  coverage_ListByPolicy :: "env \<Rightarrow> uuid \<Rightarrow> world \<Rightarrow> (error + coverage list) \<times> world"
  coverage_Delete :: "env \<Rightarrow> uuid \<Rightarrow> world \<Rightarrow> error option \<times> world"

record premium_repository =
  premium_Create :: "env \<Rightarrow> premium \<Rightarrow> world \<Rightarrow> error option \<times> world"
  premium_ListByPolicy :: "env \<Rightarrow> uuid \<Rightarrow> world \<Rightarrow> (error + premium list) \<times> world"
  premium_MarkPaid :: "env \<Rightarrow> uuid \<Rightarrow> time \<Rightarrow> world \<Rightarrow> error option \<times> world"

text \<open>
  The transaction argument of \<^verbatim>\<open>AuditLogRepository.Insert\<close> has type \<^verbatim>\<open>any\<close>; what matters is
  whether it holds a \<^verbatim>\<open>pgx.Tx\<close>, which is then the transaction of the world.
\<close>

datatype any_tx = PgxTx | OtherValue

record audit_log_repository =
  audit_Insert :: "env \<Rightarrow> any_tx \<Rightarrow> audit_log \<Rightarrow> world \<Rightarrow> error option \<times> world"
  audit_ListByPolicy :: "env \<Rightarrow> uuid \<Rightarrow> world \<Rightarrow> (error + audit_log list) \<times> world"

record document_repository =
  document_Create :: "env \<Rightarrow> document \<Rightarrow> world \<Rightarrow> (error + document) \<times> world"
  document_ListByPolicy :: "env \<Rightarrow> uuid \<Rightarrow> world \<Rightarrow> (error + document list) \<times> world"

record event_publisher =
  PublishAsync :: "env \<Rightarrow> string \<Rightarrow> policy \<Rightarrow> string \<Rightarrow> string \<Rightarrow> world \<Rightarrow> world"
  IsConnected :: bool

record document_storer =
  store_Upload :: "env \<Rightarrow> uuid \<Rightarrow> bytes \<Rightarrow> world \<Rightarrow> (error + string \<times> string) \<times> world"
  store_PresignKey :: "env \<Rightarrow> string \<Rightarrow> world \<Rightarrow> (error + string) \<times> world"

type_synonym document_generator = "env \<Rightarrow> policy \<Rightarrow> world \<Rightarrow> (error + bytes) \<times> world"

section \<open>Rows as the database keeps them\<close>

text \<open>The columns of type TIMESTAMPTZ hold the instants at the resolution of the column.\<close>

definition policy_row :: "env \<Rightarrow> policy \<Rightarrow> policy" where
  "policy_row E p = p\<lparr>EffectiveDate := env_timestamptz E (EffectiveDate p),
     ExpiryDate := env_timestamptz E (ExpiryDate p),
     CreatedAt := env_timestamptz E (CreatedAt p),
     UpdatedAt := env_timestamptz E (UpdatedAt p)\<rparr>"

definition audit_row :: "env \<Rightarrow> audit_log \<Rightarrow> audit_log" where
  "audit_row E l = l\<lparr>OccurredAt := env_timestamptz E (OccurredAt l)\<rparr>"

definition document_row :: "env \<Rightarrow> document \<Rightarrow> document" where
  "document_row E d = d\<lparr>doc_CreatedAt := env_timestamptz E (doc_CreatedAt d)\<rparr>"

definition premium_row :: "env \<Rightarrow> premium \<Rightarrow> premium" where
  "premium_row E p = p\<lparr>DueDate := env_timestamptz E (DueDate p),
     PaidAt := map_option (env_timestamptz E) (PaidAt p)\<rparr>"

lemma policy_row_simps [simp]:
  "ID (policy_row E p) = ID p" "PolicyNumber (policy_row E p) = PolicyNumber p"
  "HolderName (policy_row E p) = HolderName p" "ProductCode (policy_row E p) = ProductCode p"
  "Status (policy_row E p) = Status p"
  "EffectiveDate (policy_row E p) = env_timestamptz E (EffectiveDate p)"
  "ExpiryDate (policy_row E p) = env_timestamptz E (ExpiryDate p)"
  "CreatedAt (policy_row E p) = env_timestamptz E (CreatedAt p)"
  "UpdatedAt (policy_row E p) = env_timestamptz E (UpdatedAt p)"
  by (simp_all add: policy_row_def)

lemma audit_row_simps [simp]:
  "log_ID (audit_row E l) = log_ID l" "log_PolicyID (audit_row E l) = log_PolicyID l"
  "FromStatus (audit_row E l) = FromStatus l" "ToStatus (audit_row E l) = ToStatus l"
  "ActorID (audit_row E l) = ActorID l" "Reason (audit_row E l) = Reason l"
  "OccurredAt (audit_row E l) = env_timestamptz E (OccurredAt l)"
  by (simp_all add: audit_row_def)

section \<open>Contracts\<close>

text \<open>Two worlds that differ at most in the committed tables and the number of calls.\<close>

definition only_db :: "world \<Rightarrow> world \<Rightarrow> bool" where
  "only_db w w' \<longleftrightarrow> txn w' = txn w \<and> spawned w' = spawned w \<and> objects w' = objects w"

definition unchanged :: "world \<Rightarrow> world \<Rightarrow> bool" where
  "unchanged w w' \<longleftrightarrow> db w' = db w \<and> only_db w w'"

lemma only_db_refl [simp]: "only_db w w" and unchanged_refl [simp]: "unchanged w w"
  by (simp_all add: only_db_def unchanged_def)

lemma only_db_trans: "only_db u v \<Longrightarrow> only_db v w \<Longrightarrow> only_db u w"
  and unchanged_trans: "unchanged u v \<Longrightarrow> unchanged v w \<Longrightarrow> unchanged u w"
  by (simp_all add: only_db_def unchanged_def)

lemma unchanged_tick [simp]: "unchanged w (w\<lparr>tick := n\<rparr>)"
  by (simp add: unchanged_def only_db_def)

lemma unchangedD:
  assumes "unchanged w w'"
  shows "db w' = db w" "txn w' = txn w" "spawned w' = spawned w" "objects w' = objects w"
  using assms by (simp_all add: unchanged_def only_db_def)

lemma only_dbD:
  assumes "only_db w w'"
  shows "txn w' = txn w" "spawned w' = spawned w" "objects w' = objects w"
  using assms by (simp_all add: only_db_def)

lemma db_Query_unchanged: "db_Query E q w = (r, w') \<Longrightarrow> unchanged w w'"
  by (auto elim!: db_Query_cases)

lemma db_Query_text_unchanged: "db_Query_text E ss q w = (r, w') \<Longrightarrow> unchanged w w'"
  by (auto elim!: db_Query_text_cases)

lemma db_Exec_only_db: "db_Exec E st w = (r, w') \<Longrightarrow> only_db w w'"
  by (auto elim!: db_Exec_cases simp: only_db_def)

locale policy_port =
  fixes R :: policy_repository
  assumes get_unchanged: "repo_GetByID R E i w = (r, w') \<Longrightarrow> unchanged w w'"
    and get_stored: "repo_GetByID R E i w = (Inr p, w') \<Longrightarrow> policy_at (db w) i = Some p"
    and list_unchanged: "repo_List R E lp w = (rl, w') \<Longrightarrow> unchanged w w'"
    and create_only_db: "repo_Create R E p w = (re, w') \<Longrightarrow> only_db w w'"
    and create_wf: "repo_Create R E p w = (re, w') \<Longrightarrow> wf_tables (db w) \<Longrightarrow> wf_tables (db w')"
    and update_only_db: "repo_Update R E p w = (re, w') \<Longrightarrow> only_db w w'"
    and update_wf: "repo_Update R E p w = (re, w') \<Longrightarrow> wf_tables (db w) \<Longrightarrow> wf_tables (db w')"

text \<open>
  A repository that stores: a policy that is reported missing is missing, a write that is
  reported done has been done, and a write that is reported failed was done or not done.
\<close>

locale policy_store = policy_port +
  assumes get_missing:
      "repo_GetByID R E i w = (Inl e, w') \<Longrightarrow> errors_Is e (PortErr ErrNotFound) \<Longrightarrow>
        policy_at (db w) i = None"
    and create_done:
      "repo_Create R E p w = (None, w') \<Longrightarrow> insert_policy (policy_row E p) (db w) = Inr (db w')"
    and create_failed:
      "repo_Create R E p w = (Some e, w') \<Longrightarrow>
        db w' = db w \<or> insert_policy (policy_row E p) (db w) = Inr (db w')"
    and update_done:
      "repo_Update R E p w = (None, w') \<Longrightarrow>
        update_policies (ID p) (policy_columns (policy_row E p)) (db w) = Inr (db w')"
    and update_failed:
      "repo_Update R E p w = (Some e, w') \<Longrightarrow>
        db w' = db w \<or>
        update_policies (ID p) (policy_columns (policy_row E p)) (db w) = Inr (db w')"

locale audit_port =
  fixes A :: audit_log_repository
  assumes insert_frame:
      "audit_Insert A E tx l w = (re, w') \<Longrightarrow>
        db w' = db w \<and> spawned w' = spawned w \<and> objects w' = objects w"
    and history_unchanged: "audit_ListByPolicy A E i w = (rl, w') \<Longrightarrow> unchanged w w'"

text \<open>
  An audit log that stores: a row that is reported inserted has been appended to the open
  transaction, with the fields of the entry, and the history holds the committed rows of the
  policy, oldest first.
\<close>

locale audit_store = audit_port +
  assumes insert_done:
      "audit_Insert A E tx l w = (None, w') \<Longrightarrow>
        \<exists>t t' u at. txn w = Some (Open t) \<and> txn w' = Some (Open t') \<and>
          insert_audit (l\<lparr>log_ID := u, OccurredAt := at\<rparr>) t = Inr t' \<and>
          (OccurredAt l \<noteq> time_zero \<longrightarrow> at = env_timestamptz E (OccurredAt l))"
    and history_done:
      "audit_ListByPolicy A E i w = (Inr ls, w') \<Longrightarrow>
        mset ls = mset (filter (\<lambda>l. log_PolicyID l = i) (t_audit (db w))) \<and>
        sorted (map OccurredAt ls)"

text \<open>Publishing hands one event over and touches nothing else.\<close>

locale publisher_port =
  fixes P :: event_publisher
  assumes publish_frame:
      "db (PublishAsync P E ty p actor reason w) = db w"
      "txn (PublishAsync P E ty p actor reason w) = txn w"
      "objects (PublishAsync P E ty p actor reason w) = objects w"
    and publish_one:
      "spawned (PublishAsync P E ty p actor reason w) =
        spawned w @ [BuildTransitionEvent E ty p actor reason]"

end
