(* ===== verification/PolicyService.thy ===== *)
theory PolicyService
  imports Lifecycle Ports
begin

text \<open>
  The policy service of \<^verbatim>\<open>domain/policy_service.go\<close> over its ports. Every method is one
  definition with the code's calls in the code's order; an early return is a branch. What a
  method does to the world whatever the repositories are is proved in the contexts of the
  port contracts, and what it does to the tables in those of the storing contracts.
\<close>

section \<open>The service\<close>

record policy_service =
  svc_repo :: policy_repository
  svc_auditRepo :: audit_log_repository
  svc_db :: bool
  svc_pub :: "event_publisher option"

definition NewPolicyService ::
    "policy_repository \<Rightarrow> audit_log_repository \<Rightarrow> bool \<Rightarrow> policy_service" where
  "NewPolicyService repo auditRepo pool =
     \<lparr>svc_repo = repo, svc_auditRepo = auditRepo, svc_db = pool, svc_pub = None\<rparr>"

definition SetPublisher :: "event_publisher \<Rightarrow> policy_service \<Rightarrow> policy_service" where
  "SetPublisher pub s = s\<lparr>svc_pub := Some pub\<rparr>"

definition NATSConnected :: "policy_service \<Rightarrow> bool" where
  "NATSConnected s = (case svc_pub s of None \<Rightarrow> False | Some pub \<Rightarrow> IsConnected pub)"

definition publish ::
    "env \<Rightarrow> policy_service \<Rightarrow> string \<Rightarrow> policy \<Rightarrow> string \<Rightarrow> string \<Rightarrow> world \<Rightarrow> world" where
  "publish E s eventType p actor reason w =
     (case svc_pub s of None \<Rightarrow> w | Some pub \<Rightarrow> PublishAsync pub E eventType p actor reason w)"

text \<open>
  \<^verbatim>\<open>Create\<close> fills in the policy it is given, which the caller goes on to read: the result of a
  success is that policy.
\<close>

definition PolicyService_Create ::
    "env \<Rightarrow> policy_service \<Rightarrow> policy \<Rightarrow> string \<Rightarrow> world \<Rightarrow> (error + policy) \<times> world" where
  "PolicyService_Create E s p actorID w =
     (case Policy_Validate p of
        Some e \<Rightarrow> (Inl e, w)
      | None \<Rightarrow>
          (case uuid_New E w of (u, w1) \<Rightarrow>
           case time_Now E w1 of (now, w2) \<Rightarrow>
             (let p' = p\<lparr>ID := u, Status := StatusDraft, CreatedAt := now, UpdatedAt := now\<rparr>
              in case repo_Create (svc_repo s) E p' w2 of
                   (Some e, w3) \<Rightarrow> (Inl e, w3)
                 | (None, w3) \<Rightarrow> (Inr p', publish E s ''created'' p' actorID [] w3))))"

definition PolicyService_GetByID ::
    "env \<Rightarrow> policy_service \<Rightarrow> uuid \<Rightarrow> world \<Rightarrow> (error + policy) \<times> world" where
  "PolicyService_GetByID E s i w =
     (case repo_GetByID (svc_repo s) E i w of
        (Inl e, w1) \<Rightarrow>
          (if errors_Is e (PortErr ErrNotFound) then (Inl (ServiceErr ErrPolicyNotFound), w1)
           else (Inl e, w1))
      | (Inr p, w1) \<Rightarrow> (Inr p, w1))"

definition PolicyService_List ::
    "env \<Rightarrow> policy_service \<Rightarrow> list_params \<Rightarrow> world \<Rightarrow> (error + policy list) \<times> world" where
  "PolicyService_List E s params w = repo_List (svc_repo s) E params w"

text \<open>The methods below begin with the lookup and the error mapping of \<^verbatim>\<open>GetByID\<close>.\<close>

definition PolicyService_Update ::
    "env \<Rightarrow> policy_service \<Rightarrow> uuid \<Rightarrow> policy \<Rightarrow> world \<Rightarrow> (error + policy) \<times> world" where
  "PolicyService_Update E s i upd w =
     (case PolicyService_GetByID E s i w of
        (Inl e, w1) \<Rightarrow> (Inl e, w1)
      | (Inr p, w1) \<Rightarrow>
          (case time_Now E w1 of (now, w2) \<Rightarrow>
             (let p' = p\<lparr>HolderName := HolderName upd, ProductCode := ProductCode upd,
                  EffectiveDate := EffectiveDate upd, ExpiryDate := ExpiryDate upd,
                  UpdatedAt := now\<rparr>
              in case Policy_Validate p' of
                   Some e \<Rightarrow> (Inl e, w2)
                 | None \<Rightarrow>
                     (case repo_Update (svc_repo s) E p' w2 of
                        (Some e, w3) \<Rightarrow> (Inl e, w3)
                      | (None, w3) \<Rightarrow> (Inr p', w3)))))"

definition PolicyService_Cancel ::
    "env \<Rightarrow> policy_service \<Rightarrow> uuid \<Rightarrow> world \<Rightarrow> error option \<times> world" where
  "PolicyService_Cancel E s i w =
     (case PolicyService_GetByID E s i w of
        (Inl e, w1) \<Rightarrow> (Some e, w1)
      | (Inr p, w1) \<Rightarrow>
          (if Status p \<noteq> StatusDraft then (Some (ServiceErr ErrCannotCancel), w1)
           else (case time_Now E w1 of (now, w2) \<Rightarrow>
             repo_Update (svc_repo s) E (p\<lparr>Status := StatusTerminated, UpdatedAt := now\<rparr>) w2)))"

section \<open>Transitions\<close>

definition transition_event_type :: "policy_status \<Rightarrow> string" where
  "transition_event_type nextStatus =
     (if nextStatus = StatusSubmitted then ''submitted''
      else if nextStatus = StatusActive then ''activated''
      else if nextStatus = StatusRejected then ''rejected''
      else if nextStatus = StatusAmended then ''amended''
      else if nextStatus = StatusCancelled then ''cancelled''
      else if nextStatus = StatusExpired then ''expired''
      else nextStatus)"

text \<open>The UTF-8 bytes of the arrow in the error message, with a space on either side.\<close>

definition arrow :: string where
  "arrow = [CHR '' '', CHR 0xE2, CHR 0x86, CHR 0x92, CHR '' '']"

definition invalid_transition :: "policy_status \<Rightarrow> event \<Rightarrow> error" where
  "invalid_transition s ev =
     Errorf [] (TransitionErr ErrInvalidTransition) ('': '' @ s @ arrow @ ev)"

text \<open>The body of the transaction, from the UPDATE to the publication.\<close>

definition transition_tx ::
    "env \<Rightarrow> policy_service \<Rightarrow> uuid \<Rightarrow> policy_status \<Rightarrow> policy \<Rightarrow> string \<Rightarrow> string \<Rightarrow> world \<Rightarrow>
      (error + policy) \<times> world" where
  "transition_tx E s i from_status p actorID reason w =
     (case tx_Exec E (update_policies i (status_columns (Status p) (env_timestamptz E (UpdatedAt p)))) w of
        (Some e, w1) \<Rightarrow> (Inl e, w1)
      | (None, w1) \<Rightarrow>
          (let entry = \<lparr>log_ID = uuid_Nil, log_PolicyID = i, FromStatus = from_status,
             ToStatus = Status p, ActorID = actorID, Reason = reason, OccurredAt = UpdatedAt p\<rparr>
           in case audit_Insert (svc_auditRepo s) E PgxTx entry w1 of
                (Some e, w2) \<Rightarrow> (Inl e, w2)
              | (None, w2) \<Rightarrow>
                  (case Commit E w2 of
                     (Some e, w3) \<Rightarrow> (Inl e, w3)
                   | (None, w3) \<Rightarrow>
                       (Inr p, publish E s (transition_event_type (Status p)) p actorID reason w3))))"

text \<open>\<^verbatim>\<open>applyTransition\<close>; the deferred rollback runs on every way out of the transaction.\<close>

definition applyTransition ::
    "env \<Rightarrow> policy_service \<Rightarrow> uuid \<Rightarrow> event \<Rightarrow> string \<Rightarrow> string \<Rightarrow> world \<Rightarrow>
      (error + policy) \<times> world" where
  "applyTransition E s i event actorID reason w =
     (case PolicyService_GetByID E s i w of
        (Inl e, w1) \<Rightarrow> (Inl e, w1)
      | (Inr p, w1) \<Rightarrow>
          (case Transition (Status p) event of
             Inl _ \<Rightarrow> (Inl (invalid_transition (Status p) event), w1)
           | Inr nextStatus \<Rightarrow>
               (case time_Now E w1 of (now, w2) \<Rightarrow>
                  (let p' = p\<lparr>Status := nextStatus, UpdatedAt := now\<rparr>
                   in if \<not> svc_db s then (Inl (Plain ''database not available''), w2)
                      else (case BeginTx E w2 of
                              (Some e, w3) \<Rightarrow> (Inl e, w3)
                            | (None, w3) \<Rightarrow>
                                (case transition_tx E s i (Status p) p' actorID reason w3 of
                                   (r, w4) \<Rightarrow> (r, Rollback w4)))))))"

definition PolicyService_Submit ::
    "env \<Rightarrow> policy_service \<Rightarrow> uuid \<Rightarrow> string \<Rightarrow> world \<Rightarrow> (error + policy) \<times> world" where
  "PolicyService_Submit E s i actorID w = applyTransition E s i EventSubmit actorID [] w"

definition PolicyService_Activate ::
    "env \<Rightarrow> policy_service \<Rightarrow> uuid \<Rightarrow> string \<Rightarrow> world \<Rightarrow> (error + policy) \<times> world" where
  "PolicyService_Activate E s i actorID w =
     applyTransition E s i EventActivate actorID ReasonUnderwriterApproved w"

definition PolicyService_Reject ::
    "env \<Rightarrow> policy_service \<Rightarrow> uuid \<Rightarrow> string \<Rightarrow> string \<Rightarrow> world \<Rightarrow> (error + policy) \<times> world" where
  "PolicyService_Reject E s i actorID reason w =
     applyTransition E s i EventReject actorID
       (if reason = [] then ReasonUnderwriterRejected else reason) w"

definition PolicyService_CancelActive ::
    "env \<Rightarrow> policy_service \<Rightarrow> uuid \<Rightarrow> string \<Rightarrow> string \<Rightarrow> world \<Rightarrow> (error + policy) \<times> world" where
  "PolicyService_CancelActive E s i actorID reason w =
     (if reason = [] then (Inl (ServiceErr ErrReasonRequired), w)
      else applyTransition E s i EventCancel actorID reason w)"

definition PolicyService_Expire ::
    "env \<Rightarrow> policy_service \<Rightarrow> uuid \<Rightarrow> string \<Rightarrow> world \<Rightarrow> (error + policy) \<times> world" where
  "PolicyService_Expire E s i actorID w =
     applyTransition E s i EventExpire actorID ReasonRegulatory w"

definition PolicyService_ListHistory ::
    "env \<Rightarrow> policy_service \<Rightarrow> uuid \<Rightarrow> world \<Rightarrow> (error + audit_log list) \<times> world" where
  "PolicyService_ListHistory E s i w =
     (case PolicyService_GetByID E s i w of
        (Inl e, w1) \<Rightarrow> (Inl e, w1)
      | (Inr _, w1) \<Rightarrow> audit_ListByPolicy (svc_auditRepo s) E i w1)"

end
