(* ===== verification/ServiceContract.thy ===== *)
theory ServiceContract
  imports PolicyService
begin

text \<open>
  What the methods of the policy service guarantee over any implementation of its ports
  (\<open>service_ports\<close>) and over implementations that store (\<open>stored_service\<close>).
  \<open>moved\<close> is the abstract effect of a transition on the tables: the status of one
  policy changes along the lifecycle and one audit row says so. Every outcome of
  \<open>applyTransition\<close> is nothing or that effect.
\<close>

section \<open>The ports together\<close>

locale service_ports =
  repo: policy_port "svc_repo s" + audit: audit_port "svc_auditRepo s" for s :: policy_service +
  assumes publisher: "svc_pub s = Some P \<Longrightarrow> publisher_port P"
begin

definition published :: "env \<Rightarrow> string \<Rightarrow> policy \<Rightarrow> string \<Rightarrow> string \<Rightarrow> policy_event list" where
  "published E ty p actor reason =
     (if svc_pub s = None then [] else [BuildTransitionEvent E ty p actor reason])"

lemma publish_effect [simp]:
  "db (publish E s ty p actor reason w) = db w"
  "txn (publish E s ty p actor reason w) = txn w"
  "objects (publish E s ty p actor reason w) = objects w"
  "spawned (publish E s ty p actor reason w) = spawned w @ published E ty p actor reason"
  using publisher publisher_port.publish_frame publisher_port.publish_one
  by (simp_all add: publish_def published_def split: option.splits)

lemma GetByID_cases:
  assumes "PolicyService_GetByID E s i w = (r, w')"
  obtains (found) p where "r = Inr p" "policy_at (db w) i = Some p" "unchanged w w'"
  | (failed) e where "r = Inl e" "unchanged w w'"
proof (cases "repo_GetByID (svc_repo s) E i w")
  case (Pair x w1)
  from assms Pair have "w1 = w'" and "\<And>p. r = Inr p \<Longrightarrow> x = Inr p"
    by (auto simp: PolicyService_GetByID_def split: sum.splits if_splits)
  with Pair repo.get_unchanged repo.get_stored found failed show thesis
    by (cases r) blast+
qed

lemma time_Now_unchanged: "time_Now E w = (n, w') \<Longrightarrow> unchanged w w'"
  by (auto simp: time_Now_def)

lemma uuid_New_unchanged: "uuid_New E w = (u, w') \<Longrightarrow> unchanged w w'"
  by (auto simp: uuid_New_def)

end

text \<open>Over a store, an error that says the policy is missing is right.\<close>

locale stored_service = service_ports +
  repo: policy_store "svc_repo s" + audit: audit_store "svc_auditRepo s"
begin

lemma GetByID_missing:
  assumes "repo_GetByID (svc_repo s) E i w = (Inl e, w')" and "errors_Is e (PortErr ErrNotFound)"
  shows "policy_at (db w) i = None" and "PolicyService_GetByID E s i w = (Inl (ServiceErr ErrPolicyNotFound), w')"
  using assms repo.get_missing by (simp_all add: PolicyService_GetByID_def)

end

section \<open>The effect of a transition\<close>

definition moved ::
    "uuid \<Rightarrow> policy_status \<Rightarrow> time \<Rightarrow> audit_log \<Rightarrow> tables \<Rightarrow> tables \<Rightarrow> bool" where
  "moved i to_status at l t t' \<longleftrightarrow>
     (\<exists>t1. update_policies i (status_columns to_status at) t = Inr t1 \<and> insert_audit l t1 = Inr t')"

lemma moved_tables:
  assumes "moved i s at l t t'"
  shows "t_audit t' = t_audit t @ [l]"
    and "t_policies t' = update_where (\<lambda>p. ID p = i) (status_columns s at) (t_policies t)"
    and "t_documents t' = t_documents t" "t_coverages t' = t_coverages t"
    and "t_premiums t' = t_premiums t"
  using assms by (auto simp: moved_def update_policies_Inr insert_audit_Inr)

lemma moved_policy_at:
  assumes "moved i s at l t t'"
  shows "policy_at t' j =
    (if j = i then map_option (status_columns s at) (policy_at t i) else policy_at t j)"
proof -
  obtain t1 where "update_policies i (status_columns s at) t = Inr t1" "t_policies t' = t_policies t1"
    using assms by (auto simp: moved_def insert_audit_Inr)
  then show ?thesis
    using policy_at_update [of "status_columns s at" i t t1 j] by (simp add: policy_at_def)
qed

lemma moved_map:
  assumes "moved i s at l t t'" and "policy_at t i = Some p"
  shows "policy_at t' = (policy_at t) (i \<mapsto> p\<lparr>Status := s, UpdatedAt := at\<rparr>)"
  using moved_policy_at [OF assms(1)] assms(2) by (auto simp: status_columns_def)

lemma moved_wf: "moved i s at l t t' \<Longrightarrow> wf_tables t \<Longrightarrow> wf_tables t'"
  unfolding moved_def using update_status.st_wf insert_audit.st_wf by blast

text \<open>The audit row of a transition.\<close>

definition records ::
    "audit_log \<Rightarrow> uuid \<Rightarrow> policy_status \<Rightarrow> policy_status \<Rightarrow> string \<Rightarrow> string \<Rightarrow> bool" where
  "records l i from_status to_status actor reason \<longleftrightarrow>
     log_PolicyID l = i \<and> FromStatus l = from_status \<and> ToStatus l = to_status \<and>
     ActorID l = actor \<and> Reason l = reason"

section \<open>After the read\<close>

text \<open>
  The write methods read the policy first and go on with what they read. What follows the
  read is a definition of its own, since other requests can come in between.
\<close>

definition transition_after_read ::
    "env \<Rightarrow> policy_service \<Rightarrow> uuid \<Rightarrow> event \<Rightarrow> string \<Rightarrow> string \<Rightarrow> policy \<Rightarrow> world \<Rightarrow>
      (error + policy) \<times> world" where
  "transition_after_read E s i event actorID reason p w1 =
     (case Transition (Status p) event of
        Inl _ \<Rightarrow> (Inl (invalid_transition (Status p) event), w1)
      | Inr nextStatus \<Rightarrow>
          (case time_Now E w1 of (now, w2) \<Rightarrow>
             (let p' = p\<lparr>Status := nextStatus, UpdatedAt := now\<rparr>
              in if \<not> svc_db s then (Inl (Plain ''database not available''), w2)
                 else (case BeginTx E w2 of
                         (Some e, w3) \<Rightarrow> (Inl e, w3)
                       | (None, w3) \<Rightarrow>
                           (case transition_tx E s i (Status p) p' actorID reason w3 of
                              (r, w4) \<Rightarrow> (r, Rollback w4))))))"

definition update_after_read ::
    "env \<Rightarrow> policy_service \<Rightarrow> policy \<Rightarrow> policy \<Rightarrow> world \<Rightarrow> (error + policy) \<times> world" where
  "update_after_read E s upd p w1 =
     (case time_Now E w1 of (now, w2) \<Rightarrow>
        (let p' = p\<lparr>HolderName := HolderName upd, ProductCode := ProductCode upd,
             EffectiveDate := EffectiveDate upd, ExpiryDate := ExpiryDate upd,
             UpdatedAt := now\<rparr>
         in case Policy_Validate p' of
              Some e \<Rightarrow> (Inl e, w2)
            | None \<Rightarrow>
                (case repo_Update (svc_repo s) E p' w2 of
                   (Some e, w3) \<Rightarrow> (Inl e, w3)
                 | (None, w3) \<Rightarrow> (Inr p', w3))))"

definition cancel_after_read ::
    "env \<Rightarrow> policy_service \<Rightarrow> policy \<Rightarrow> world \<Rightarrow> error option \<times> world" where
  "cancel_after_read E s p w1 =
     (if Status p \<noteq> StatusDraft then (Some (ServiceErr ErrCannotCancel), w1)
      else (case time_Now E w1 of (now, w2) \<Rightarrow>
        repo_Update (svc_repo s) E (p\<lparr>Status := StatusTerminated, UpdatedAt := now\<rparr>) w2))"

lemma applyTransition_read:
  "applyTransition E s i ev actor reason w =
     (case PolicyService_GetByID E s i w of
        (Inl e, w1) \<Rightarrow> (Inl e, w1)
      | (Inr p, w1) \<Rightarrow> transition_after_read E s i ev actor reason p w1)"
  unfolding applyTransition_def transition_after_read_def by (rule refl)

lemma Update_read:
  "PolicyService_Update E s i upd w =
     (case PolicyService_GetByID E s i w of
        (Inl e, w1) \<Rightarrow> (Inl e, w1)
      | (Inr p, w1) \<Rightarrow> update_after_read E s upd p w1)"
  unfolding PolicyService_Update_def update_after_read_def by (rule refl)

lemma Cancel_read:
  "PolicyService_Cancel E s i w =
     (case PolicyService_GetByID E s i w of
        (Inl e, w1) \<Rightarrow> (Some e, w1)
      | (Inr p, w1) \<Rightarrow> cancel_after_read E s p w1)"
  unfolding PolicyService_Cancel_def cancel_after_read_def by (rule refl)

lemma Commit_cases:
  assumes "Commit E w = (r, w')" and "txn w = Some (Open t)"
  obtains (committed) "r = None" "db w' = t" "txn w' = None" "spawned w' = spawned w"
      "objects w' = objects w"
  | (lost) e where "r = Some e" "db w' = db w \<or> db w' = t" "txn w' = None"
      "spawned w' = spawned w" "objects w' = objects w"
  using assms by (auto simp: Commit_def call_def split: option.splits if_splits)

lemma BeginTx_cases:
  assumes "BeginTx E w = (r, w')"
  obtains (begun) "r = None" "txn w' = Some (Open (db w))" "db w' = db w"
      "spawned w' = spawned w" "objects w' = objects w"
  | (failed) e where "r = Some e" "unchanged w w'"
  using assms by (auto simp: BeginTx_def call_def split: option.splits)

context stored_service
begin

lemma transition_tx_cases:
  assumes run: "transition_tx E s i from_status p actor reason w = (r, w')"
    and open_tx: "txn w = Some (Open (db w))"
  obtains (committed) l where "r = Inr p"
      "moved i (Status p) (env_timestamptz E (UpdatedAt p)) l (db w) (db w')"
      "records l i from_status (Status p) actor reason" "objects w' = objects w"
      "spawned w' = spawned w @ published E (transition_event_type (Status p)) p actor reason"
  | (unanswered) l e where "r = Inl e"
      "moved i (Status p) (env_timestamptz E (UpdatedAt p)) l (db w) (db w')"
      "records l i from_status (Status p) actor reason" "objects w' = objects w"
      "spawned w' = spawned w"
  | (undone) e where "r = Inl e" "db w' = db w" "objects w' = objects w" "spawned w' = spawned w"
proof -
  let ?at = "env_timestamptz E (UpdatedAt p)"
  let ?entry = "\<lparr>log_ID = uuid_Nil, log_PolicyID = i, FromStatus = from_status,
    ToStatus = Status p, ActorID = actor, Reason = reason, OccurredAt = UpdatedAt p\<rparr>"
  obtain r1 w1 where 1: "tx_Exec E (update_policies i (status_columns (Status p) ?at)) w = (r1, w1)"
    by (cases "tx_Exec E (update_policies i (status_columns (Status p) ?at)) w")
  have f1: "db w1 = db w" "spawned w1 = spawned w" "objects w1 = objects w"
    using 1 by (auto simp: tx_Exec_def call_def split: option.splits transaction.splits sum.splits)
  show thesis
  proof (cases r1)
    case (Some e)
    with run 1 f1 undone show thesis by (auto simp: transition_tx_def)
  next
    case None
    with 1 open_tx obtain t1 where t1: "update_policies i (status_columns (Status p) ?at) (db w) = Inr t1"
        "txn w1 = Some (Open t1)"
      by (auto simp: tx_Exec_def call_def split: option.splits sum.splits)
    obtain r2 w2 where 2: "audit_Insert (svc_auditRepo s) E PgxTx ?entry w1 = (r2, w2)"
      by (cases "audit_Insert (svc_auditRepo s) E PgxTx ?entry w1")
    note f2 = audit.insert_frame [OF 2]
    show thesis
    proof (cases r2)
      case (Some e)
      with run 1 None 2 f1 f2 undone show thesis by (auto simp: transition_tx_def)
    next
      case r2: None
      obtain t2 u at where t2: "txn w2 = Some (Open t2)"
          "insert_audit (?entry\<lparr>log_ID := u, OccurredAt := at\<rparr>) t1 = Inr t2"
        using audit.insert_done [OF 2 [unfolded r2]] t1(2) by auto
      define l where "l = ?entry\<lparr>log_ID := u, OccurredAt := at\<rparr>"
      have l: "records l i from_status (Status p) actor reason" by (simp add: l_def records_def)
      have mv: "moved i (Status p) ?at l (db w) t2"
        using t1(1) t2(2) unfolding moved_def l_def by blast
      obtain r3 w3 where 3: "Commit E w2 = (r3, w3)" by (cases "Commit E w2")
      from run 1 None 2 r2 3 have r: "(r, w') = (case r3 of Some e \<Rightarrow> (Inl e, w3)
          | None \<Rightarrow> (Inr p, publish E s (transition_event_type (Status p)) p actor reason w3))"
        by (simp add: transition_tx_def split: option.splits)
      from 3 t2(1) show thesis
      proof (cases rule: Commit_cases)
        case committed
        with r mv l f1 f2 show thesis by (intro that(1) [of l]) auto
      next
        case (lost e)
        with r have "r = Inl e" "w' = w3" by auto
        with lost mv l f1 f2 show thesis by (metis that(2,3))
      qed
    qed
  qed
qed

text \<open>
  What a transition can do with the policy it has read, whatever calls fail: it took place and
  was answered, it took place and the answer was lost, or nothing happened. In no case is a
  transaction left open.
\<close>

lemma transition_after_read_cases:
  assumes run: "transition_after_read E s i ev actor reason p w = (r, w')"
    and idle: "txn w = None"
  obtains (completed) to_st n l where "r = Inr (p\<lparr>Status := to_st, UpdatedAt := n\<rparr>)"
      "Transition (Status p) ev = Inr to_st"
      "moved i to_st (env_timestamptz E n) l (db w) (db w')"
      "records l i (Status p) to_st actor reason" "objects w' = objects w" "txn w' = None"
      "spawned w' = spawned w @ published E (transition_event_type to_st)
         (p\<lparr>Status := to_st, UpdatedAt := n\<rparr>) actor reason"
  | (unanswered) to_st n l e where "r = Inl e" "Transition (Status p) ev = Inr to_st"
      "moved i to_st (env_timestamptz E n) l (db w) (db w')"
      "records l i (Status p) to_st actor reason" "objects w' = objects w" "txn w' = None"
      "spawned w' = spawned w"
  | (refused) e where "r = Inl e" "db w' = db w" "objects w' = objects w" "txn w' = None"
      "spawned w' = spawned w"
proof (cases "Transition (Status p) ev")
  case (Inl k)
  with run idle show thesis by (intro refused) (auto simp: transition_after_read_def)
next
  case (Inr to_st)
  have stop: thesis if "unchanged w w'" "r = Inl e" for e
    using that(2) unchangedD [OF that(1)] idle by (intro refused) simp_all
  obtain n w2 where 2: "time_Now E w = (n, w2)" by (cases "time_Now E w")
  let ?p = "p\<lparr>Status := to_st, UpdatedAt := n\<rparr>"
  note u2 = time_Now_unchanged [OF 2]
  obtain r3 w3 where 3: "BeginTx E w2 = (r3, w3)" by (cases "BeginTx E w2")
  from run 2 3 Inr have rest: "(r, w') =
    (if \<not> svc_db s then (Inl (Plain ''database not available''), w2)
     else (case r3 of Some e \<Rightarrow> (Inl e, w3)
           | None \<Rightarrow> (case transition_tx E s i (Status p) ?p actor reason w3 of
               (r, w4) \<Rightarrow> (r, Rollback w4))))"
    by (auto simp: transition_after_read_def Let_def split: option.splits)
  show thesis
  proof (cases "svc_db s")
    case False
    with rest u2 stop show thesis by auto
  next
    case True
    from 3 show thesis
    proof (cases rule: BeginTx_cases)
      case (failed e)
      with rest True u2 stop show thesis by (auto intro: unchanged_trans)
    next
      case begun
      obtain r4 w4 where 4: "transition_tx E s i (Status p) ?p actor reason w3 = (r4, w4)"
        by (cases "transition_tx E s i (Status p) ?p actor reason w3")
      from rest True begun 4 have out: "r = r4" "w' = Rollback w4" by simp_all
      have base: "db w3 = db w" "spawned w3 = spawned w" "objects w3 = objects w"
        using begun unchangedD [OF u2] by simp_all
      have op: "txn w3 = Some (Open (db w3))" using begun by simp
      from 4 op show thesis
      proof (cases rule: transition_tx_cases)
        case (committed l)
        with out base Inr show thesis
          by (intro completed [where to_st = to_st and n = n and l = l])
            (auto simp: Rollback_def)
      next
        case (unanswered l e)
        with out base Inr show thesis
          by (intro that(2) [where to_st = to_st and n = n and l = l]) (auto simp: Rollback_def)
      next
        case (undone e)
        with out base refused show thesis by (auto simp: Rollback_def)
      qed
    qed
  qed
qed

lemma applyTransition_cases:
  assumes run: "applyTransition E s i ev actor reason w = (r, w')"
    and idle: "txn w = None"
  obtains (completed) p to_st n l where "r = Inr (p\<lparr>Status := to_st, UpdatedAt := n\<rparr>)"
      "policy_at (db w) i = Some p" "Transition (Status p) ev = Inr to_st"
      "moved i to_st (env_timestamptz E n) l (db w) (db w')"
      "records l i (Status p) to_st actor reason" "objects w' = objects w" "txn w' = None"
      "spawned w' = spawned w @ published E (transition_event_type to_st)
         (p\<lparr>Status := to_st, UpdatedAt := n\<rparr>) actor reason"
  | (unanswered) p to_st n l e where "r = Inl e"
      "policy_at (db w) i = Some p" "Transition (Status p) ev = Inr to_st"
      "moved i to_st (env_timestamptz E n) l (db w) (db w')"
      "records l i (Status p) to_st actor reason" "objects w' = objects w" "txn w' = None"
      "spawned w' = spawned w"
  | (refused) e where "r = Inl e" "db w' = db w" "objects w' = objects w" "txn w' = None"
      "spawned w' = spawned w"
proof -
  obtain r1 w1 where 1: "PolicyService_GetByID E s i w = (r1, w1)"
    by (cases "PolicyService_GetByID E s i w")
  from 1 show thesis
  proof (cases rule: GetByID_cases)
    case (failed e)
    with run 1 idle unchangedD [OF failed(2)] show thesis
      by (intro refused) (auto simp: applyTransition_read)
  next
    case (found p)
    note base = unchangedD [OF found(3)]
    from run 1 found have after: "transition_after_read E s i ev actor reason p w1 = (r, w')"
      by (simp add: applyTransition_read)
    have "txn w1 = None" using base idle by simp
    with after show thesis
    proof (cases rule: transition_after_read_cases)
      case (completed to_st n l)
      with base found(2) show thesis
        by (intro that(1) [where p = p and to_st = to_st and n = n and l = l]) simp_all
    next
      case (unanswered to_st n l e)
      with base found(2) show thesis
        by (intro that(2) [where p = p and to_st = to_st and n = n and l = l]) simp_all
    next
      case (refused e)
      with base that(3) show thesis by simp
    qed
  qed
qed

text \<open>The methods that write one row without a transaction.\<close>

lemma Create_cases:
  assumes run: "PolicyService_Create E s p actor w = (r, w')"
  obtains (stored) p' u n where "r = Inr p'" "Policy_Validate p = None"
      "p' = p\<lparr>ID := u, Status := StatusDraft, CreatedAt := n, UpdatedAt := n\<rparr>"
      "insert_policy (policy_row E p') (db w) = Inr (db w')" "txn w' = txn w"
      "spawned w' = spawned w @ published E ''created'' p' actor []" "objects w' = objects w"
  | (unanswered) p' u n e where "r = Inl e" "Policy_Validate p = None"
      "p' = p\<lparr>ID := u, Status := StatusDraft, CreatedAt := n, UpdatedAt := n\<rparr>"
      "insert_policy (policy_row E p') (db w) = Inr (db w')" "only_db w w'"
  | (refused) e where "r = Inl e" "unchanged w w'"
proof (cases "Policy_Validate p")
  case (Some e)
  with run refused show thesis by (auto simp: PolicyService_Create_def)
next
  case None
  obtain u w1 where 1: "uuid_New E w = (u, w1)" by (cases "uuid_New E w")
  obtain n w2 where 2: "time_Now E w1 = (n, w2)" by (cases "time_Now E w1")
  define p' where "p' = p\<lparr>ID := u, Status := StatusDraft, CreatedAt := n, UpdatedAt := n\<rparr>"
  obtain r3 w3 where 3: "repo_Create (svc_repo s) E p' w2 = (r3, w3)"
    by (cases "repo_Create (svc_repo s) E p' w2")
  from run None 1 2 3 have out: "(r, w') = (case r3 of Some e \<Rightarrow> (Inl e, w3)
      | None \<Rightarrow> (Inr p', publish E s ''created'' p' actor [] w3))"
    by (simp add: PolicyService_Create_def p'_def Let_def split: option.splits)
  have u2: "unchanged w w2"
    using uuid_New_unchanged [OF 1] time_Now_unchanged [OF 2] by (rule unchanged_trans)
  have f3: "only_db w w3"
    using u2 repo.create_only_db [OF 3] by (auto simp: unchanged_def intro: only_db_trans)
  have base: "db w2 = db w" using u2 by (simp add: unchanged_def)
  show thesis
  proof (cases r3)
    case None
    with 3 have "insert_policy (policy_row E p') (db w) = Inr (db w3)"
      using repo.create_done base by metis
    with out None \<open>Policy_Validate p = None\<close> p'_def only_dbD [OF f3] show thesis
      by (intro stored) simp_all
  next
    case (Some e)
    with out have r: "r = Inl e" "w' = w3" by simp_all
    from 3 Some repo.create_failed base
    have "db w3 = db w \<or> insert_policy (policy_row E p') (db w) = Inr (db w3)" by metis
    with r f3 None p'_def unanswered refused show thesis by (auto simp: unchanged_def)
  qed
qed

lemma update_after_read_cases:
  assumes run: "update_after_read E s upd p w = (r, w')"
  obtains (stored) p' n where "r = Inr p'"
      "p' = p\<lparr>HolderName := HolderName upd, ProductCode := ProductCode upd,
         EffectiveDate := EffectiveDate upd, ExpiryDate := ExpiryDate upd, UpdatedAt := n\<rparr>"
      "Policy_Validate p' = None" "only_db w w'"
      "update_policies (ID p) (policy_columns (policy_row E p')) (db w) = Inr (db w')"
  | (unanswered) p' n e where "r = Inl e"
      "p' = p\<lparr>HolderName := HolderName upd, ProductCode := ProductCode upd,
         EffectiveDate := EffectiveDate upd, ExpiryDate := ExpiryDate upd, UpdatedAt := n\<rparr>"
      "Policy_Validate p' = None" "only_db w w'"
      "update_policies (ID p) (policy_columns (policy_row E p')) (db w) = Inr (db w')"
  | (refused) e where "r = Inl e" "unchanged w w'"
proof -
  obtain n w2 where 2: "time_Now E w = (n, w2)" by (cases "time_Now E w")
  define p' where "p' = p\<lparr>HolderName := HolderName upd, ProductCode := ProductCode upd,
    EffectiveDate := EffectiveDate upd, ExpiryDate := ExpiryDate upd, UpdatedAt := n\<rparr>"
  obtain r3 w3 where 3: "repo_Update (svc_repo s) E p' w2 = (r3, w3)"
    by (cases "repo_Update (svc_repo s) E p' w2")
  note u2 = time_Now_unchanged [OF 2]
  have base: "db w2 = db w" and i: "ID p' = ID p" using u2 by (simp_all add: unchanged_def p'_def)
  have f3: "only_db w w3"
    using u2 repo.update_only_db [OF 3] by (auto simp: unchanged_def intro: only_db_trans)
  show thesis
  proof (cases "Policy_Validate p'")
    case (Some e)
    with run 2 have "r = Inl e" "w' = w2"
      by (simp_all add: update_after_read_def p'_def Let_def)
    with u2 refused show thesis by simp
  next
    case None
    with run 2 3 have out: "(r, w') = (case r3 of Some e \<Rightarrow> (Inl e, w3) | None \<Rightarrow> (Inr p', w3))"
      by (simp add: update_after_read_def p'_def Let_def split: option.splits)
    show thesis
    proof (cases r3)
      case r3: None
      with 3 have "update_policies (ID p) (policy_columns (policy_row E p')) (db w) = Inr (db w3)"
        using repo.update_done base i by metis
      with out r3 None f3 p'_def show thesis by (intro stored) simp_all
    next
      case (Some e)
      with out have r: "r = Inl e" "w' = w3" by simp_all
      from 3 Some repo.update_failed base i
      have "db w3 = db w \<or>
          update_policies (ID p) (policy_columns (policy_row E p')) (db w) = Inr (db w3)" by metis
      with r f3 None p'_def unanswered refused show thesis by (auto simp: unchanged_def)
    qed
  qed
qed

lemma Update_cases:
  assumes run: "PolicyService_Update E s i upd w = (r, w')"
  obtains (stored) p p' n where "r = Inr p'" "policy_at (db w) i = Some p"
      "p' = p\<lparr>HolderName := HolderName upd, ProductCode := ProductCode upd,
         EffectiveDate := EffectiveDate upd, ExpiryDate := ExpiryDate upd, UpdatedAt := n\<rparr>"
      "Policy_Validate p' = None" "only_db w w'"
      "update_policies i (policy_columns (policy_row E p')) (db w) = Inr (db w')"
  | (unanswered) p p' n e where "r = Inl e" "policy_at (db w) i = Some p"
      "p' = p\<lparr>HolderName := HolderName upd, ProductCode := ProductCode upd,
         EffectiveDate := EffectiveDate upd, ExpiryDate := ExpiryDate upd, UpdatedAt := n\<rparr>"
      "Policy_Validate p' = None" "only_db w w'"
      "update_policies i (policy_columns (policy_row E p')) (db w) = Inr (db w')"
  | (refused) e where "r = Inl e" "unchanged w w'"
proof -
  obtain r1 w1 where 1: "PolicyService_GetByID E s i w = (r1, w1)"
    by (cases "PolicyService_GetByID E s i w")
  from 1 show thesis
  proof (cases rule: GetByID_cases)
    case (failed e)
    with run 1 refused show thesis by (auto simp: Update_read)
  next
    case (found p)
    have base: "db w1 = db w" "ID p = i"
      using found policy_at_Some by (auto simp: unchanged_def)
    have frame: "only_db w1 w' \<Longrightarrow> only_db w w'" "unchanged w1 w' \<Longrightarrow> unchanged w w'"
      using found(3) unchanged_trans by (auto simp: unchanged_def intro: only_db_trans)
    from run 1 found have "update_after_read E s upd p w1 = (r, w')" by (simp add: Update_read)
    then show thesis
    proof (cases rule: update_after_read_cases)
      case (stored p' n)
      with base frame found(2) that(1) show thesis by simp
    next
      case (unanswered p' n e)
      with base frame found(2) that(2) show thesis by simp
    next
      case (refused e)
      with frame that(3) show thesis by blast
    qed
  qed
qed

lemma cancel_after_read_cases:
  assumes run: "cancel_after_read E s p w = (r, w')"
  obtains (written) p' n where "Status p = StatusDraft"
      "p' = p\<lparr>Status := StatusTerminated, UpdatedAt := n\<rparr>" "only_db w w'"
      "update_policies (ID p) (policy_columns (policy_row E p')) (db w) = Inr (db w')"
  | (refused) e where "r = Some e" "unchanged w w'"
proof (cases "Status p = StatusDraft")
  case False
  with run refused show thesis by (auto simp: cancel_after_read_def)
next
  case True
  obtain n w2 where 2: "time_Now E w = (n, w2)" by (cases "time_Now E w")
  define p' where "p' = p\<lparr>Status := StatusTerminated, UpdatedAt := n\<rparr>"
  from run 2 True have 3: "repo_Update (svc_repo s) E p' w2 = (r, w')"
    by (simp add: cancel_after_read_def p'_def)
  note u2 = time_Now_unchanged [OF 2]
  have base: "db w2 = db w" and i: "ID p' = ID p" using u2 by (simp_all add: unchanged_def p'_def)
  have f3: "only_db w w'"
    using u2 repo.update_only_db [OF 3] by (auto simp: unchanged_def intro: only_db_trans)
  show thesis
  proof (cases "update_policies (ID p) (policy_columns (policy_row E p')) (db w) = Inr (db w')")
    case True
    with \<open>Status p = StatusDraft\<close> p'_def f3 written show thesis by blast
  next
    case False
    with 3 base i repo.update_done repo.update_failed obtain e where
      "r = Some e" "db w' = db w" by (cases r) metis+
    with f3 refused show thesis by (simp add: unchanged_def)
  qed
qed

lemma Cancel_cases:
  assumes run: "PolicyService_Cancel E s i w = (r, w')"
  obtains (written) p p' n where "policy_at (db w) i = Some p" "Status p = StatusDraft"
      "p' = p\<lparr>Status := StatusTerminated, UpdatedAt := n\<rparr>" "only_db w w'"
      "update_policies i (policy_columns (policy_row E p')) (db w) = Inr (db w')"
  | (refused) e where "r = Some e" "unchanged w w'"
proof -
  obtain r1 w1 where 1: "PolicyService_GetByID E s i w = (r1, w1)"
    by (cases "PolicyService_GetByID E s i w")
  from 1 show thesis
  proof (cases rule: GetByID_cases)
    case (failed e)
    with run 1 refused show thesis by (auto simp: Cancel_read)
  next
    case (found p)
    have base: "db w1 = db w" "ID p = i"
      using found policy_at_Some by (auto simp: unchanged_def)
    have frame: "only_db w1 w' \<Longrightarrow> only_db w w'" "unchanged w1 w' \<Longrightarrow> unchanged w w'"
      using found(3) unchanged_trans by (auto simp: unchanged_def intro: only_db_trans)
    from run 1 found have "cancel_after_read E s p w1 = (r, w')" by (simp add: Cancel_read)
    then show thesis
    proof (cases rule: cancel_after_read_cases)
      case (written p' n)
      with base frame found(2) that(1) show thesis by simp
    next
      case (refused e)
      with frame that(2) show thesis by blast
    qed
  qed
qed

lemma ListHistory_cases:
  assumes "PolicyService_ListHistory E s i w = (r, w')"
  shows "unchanged w w'" and "r = Inr ls \<Longrightarrow> policy_exists i (db w) \<and>
    mset ls = mset (filter (\<lambda>l. log_PolicyID l = i) (t_audit (db w))) \<and> sorted (map OccurredAt ls)"
proof -
  obtain r1 w1 where 1: "PolicyService_GetByID E s i w = (r1, w1)"
    by (cases "PolicyService_GetByID E s i w")
  then have "unchanged w w' \<and> (r = Inr ls \<longrightarrow> policy_exists i (db w) \<and>
    mset ls = mset (filter (\<lambda>l. log_PolicyID l = i) (t_audit (db w))) \<and> sorted (map OccurredAt ls))"
  proof (cases rule: GetByID_cases)
    case (failed e)
    with assms 1 show ?thesis by (auto simp: PolicyService_ListHistory_def)
  next
    case (found p)
    with assms 1 have 2: "audit_ListByPolicy (svc_auditRepo s) E i w1 = (r, w')"
      by (simp add: PolicyService_ListHistory_def)
    have "policy_exists i (db w)" using found(2) by (metis option.distinct(1) policy_at_None)
    with found 2 audit.history_unchanged [OF 2] audit.history_done unchangedD(1) [OF found(3)]
    show ?thesis by (auto intro: unchanged_trans)
  qed
  then show "unchanged w w'" "r = Inr ls \<Longrightarrow> policy_exists i (db w) \<and>
    mset ls = mset (filter (\<lambda>l. log_PolicyID l = i) (t_audit (db w))) \<and> sorted (map OccurredAt ls)"
    by simp_all
qed

end

end
