(* ===== verification/Base64.thy ===== *)
theory Base64
  imports Utf8
begin

text \<open>
  Go's \<^verbatim>\<open>base64.StdEncoding\<close>, which the list cursors use: the standard alphabet with
  padding. The decoder skips carriage returns and line feeds wherever they stand, asks for
  whole groups of four characters, accepts padding at the end only, and does not look at the
  bits that the last character of a padded group has to spare.
\<close>

definition alphabet :: string where
  "alphabet = ''ABCDEFGHIJKLMNOPQRSTUVWXYZabcdefghijklmnopqrstuvwxyz0123456789+/''"

definition enc_sextet :: "nat \<Rightarrow> char" where
  "enc_sextet n = alphabet ! n"

definition dec_sextet :: "char \<Rightarrow> nat option" where
  "dec_sextet c = (let n = length (takeWhile (\<lambda>a. a \<noteq> c) alphabet)
     in if n < length alphabet then Some n else None)"

definition pad_char :: char where
  "pad_char = CHR ''=''"

fun EncodeToString :: "string \<Rightarrow> string" where
  "EncodeToString [] = []"
| "EncodeToString [a] =
     [enc_sextet (byte a div 4), enc_sextet (byte a mod 4 * 16), pad_char, pad_char]"
| "EncodeToString [a, b] =
     [enc_sextet (byte a div 4), enc_sextet (byte a mod 4 * 16 + byte b div 16),
      enc_sextet (byte b mod 16 * 4), pad_char]"
| "EncodeToString (a # b # c # rest) =
     enc_sextet (byte a div 4) # enc_sextet (byte a mod 4 * 16 + byte b div 16) #
     enc_sextet (byte b mod 16 * 4 + byte c div 64) # enc_sextet (byte c mod 64) #
     EncodeToString rest"

text \<open>One group of four characters: its bytes, and whether it ends the text.\<close>

definition dec_group :: "char \<Rightarrow> char \<Rightarrow> char \<Rightarrow> char \<Rightarrow> (string \<times> bool) option" where
  "dec_group w x y z =
     (case (dec_sextet w, dec_sextet x) of
        (Some i, Some j) \<Rightarrow>
          (let b1 = char_of (i * 4 + j div 16) in
           if y = pad_char \<and> z = pad_char then Some ([b1], True)
           else (case dec_sextet y of
                   None \<Rightarrow> None
                 | Some k \<Rightarrow>
                     (let b2 = char_of (j mod 16 * 16 + k div 4) in
                      if z = pad_char then Some ([b1, b2], True)
                      else (case dec_sextet z of
                              None \<Rightarrow> None
                            | Some l \<Rightarrow> Some ([b1, b2, char_of (k mod 4 * 64 + l)], False)))))
      | _ \<Rightarrow> None)"

fun dec_groups :: "string \<Rightarrow> string option" where
  "dec_groups [] = Some []"
| "dec_groups (w # x # y # z # rest) =
     (case dec_group w x y z of
        None \<Rightarrow> None
      | Some (bs, True) \<Rightarrow> (if rest = [] then Some bs else None)
      | Some (bs, False) \<Rightarrow> map_option ((@) bs) (dec_groups rest))"
| "dec_groups _ = None"

definition DecodeString :: "string \<Rightarrow> string option" where
  "DecodeString s = dec_groups (filter (\<lambda>c. c \<noteq> CHR 0x0D \<and> c \<noteq> CHR 0x0A) s)"

section \<open>Decoding undoes encoding\<close>

lemma sextets_ok:
  "\<forall>n \<in> set [0..<64]. dec_sextet (enc_sextet n) = Some n \<and> enc_sextet n \<noteq> pad_char \<and>
     enc_sextet n \<noteq> CHR 0x0D \<and> enc_sextet n \<noteq> CHR 0x0A"
  by code_simp

lemma dec_enc_sextet [simp]: "n < 64 \<Longrightarrow> dec_sextet (enc_sextet n) = Some n"
  using sextets_ok by auto

lemma enc_sextet_neq [simp]:
  "n < 64 \<Longrightarrow> enc_sextet n \<noteq> pad_char"
  "n < 64 \<Longrightarrow> enc_sextet n \<noteq> CHR 0x0D"
  "n < 64 \<Longrightarrow> enc_sextet n \<noteq> CHR 0x0A"
  using sextets_ok by auto

lemma sextet_bounds:
  "byte a div 4 < 64" "byte a mod 4 * 16 < 64" "byte a mod 4 * 16 + byte b div 16 < 64"
  "byte b mod 16 * 4 < 64" "byte b mod 16 * 4 + byte c div 64 < 64" "byte c mod 64 < 64"
  using byte_less [of a] byte_less [of b] byte_less [of c] by linarith+

lemma recombine:
  "byte a div 4 * 4 + (byte a mod 4 * 16) div 16 = byte a"
  "byte a div 4 * 4 + (byte a mod 4 * 16 + byte b div 16) div 16 = byte a"
  "(byte a mod 4 * 16 + byte b div 16) mod 16 * 16 + (byte b mod 16 * 4) div 4 = byte b"
  "(byte a mod 4 * 16 + byte b div 16) mod 16 * 16 + (byte b mod 16 * 4 + byte c div 64) div 4
     = byte b"
  "(byte b mod 16 * 4 + byte c div 64) mod 4 * 64 + byte c mod 64 = byte c"
  using byte_less [of b] byte_less [of c] by (simp_all add: div_mult2_eq [symmetric])

lemma byte_high:
  "byte b div 16 div 16 = 0" "byte b div 16 mod 16 = byte b div 16"
  "byte b div 64 div 4 = 0" "byte b div 64 mod 4 = byte b div 64"
  using byte_less [of b] by (simp_all add: div_mult2_eq [symmetric])

lemma dec_groups_Encode: "dec_groups (EncodeToString s) = Some s"
proof (induction s rule: EncodeToString.induct)
  case (4 a b c rest)
  then show ?case by (simp add: dec_group_def Let_def sextet_bounds recombine byte_high)
qed (simp_all add: dec_group_def Let_def sextet_bounds recombine byte_high)

lemma Encode_no_newline:
  "filter (\<lambda>c. c \<noteq> CHR 0x0D \<and> c \<noteq> CHR 0x0A) (EncodeToString s) = EncodeToString s"
  by (induction s rule: EncodeToString.induct) (simp_all add: sextet_bounds pad_char_def)

lemma Decode_Encode: "DecodeString (EncodeToString s) = Some s"
  by (simp add: DecodeString_def Encode_no_newline dec_groups_Encode)

lemma Encode_example: "EncodeToString ''ktayl'' = ''a3RheWw=''"
  by code_simp

end
