(* ===== verification/Repositories.thy ===== *)
theory Repositories
  imports Ports
begin

text \<open>
  The remaining repositories of \<^verbatim>\<open>repository/postgres\<close>: audit log, documents, coverages and
  premiums, and the no-op implementations that stand in for them without a database
  (\<^verbatim>\<open>null_repo.go\<close>, \<^verbatim>\<open>null_audit_log.go\<close>). The audit log interprets \<open>audit_store\<close>, the no-op
  audit log \<open>audit_port\<close>, the no-op policy repository \<open>policy_port\<close>.
\<close>

section \<open>Audit log\<close>

definition fresh_log_ID :: "env \<Rightarrow> audit_log \<Rightarrow> world \<Rightarrow> audit_log \<times> world" where
  "fresh_log_ID E l w =
     (if log_ID l = uuid_Nil then (case uuid_New E w of (u, w1) \<Rightarrow> (l\<lparr>log_ID := u\<rparr>, w1))
      else (l, w))"

definition fresh_log_time :: "env \<Rightarrow> audit_log \<Rightarrow> world \<Rightarrow> audit_log \<times> world" where
  "fresh_log_time E l w =
     (if IsZero (OccurredAt l) then (case time_Now E w of (n, w1) \<Rightarrow> (l\<lparr>OccurredAt := n\<rparr>, w1))
      else (l, w))"

definition AuditLogRepo_Insert ::
    "env \<Rightarrow> any_tx \<Rightarrow> audit_log \<Rightarrow> world \<Rightarrow> error option \<times> world" where
  "AuditLogRepo_Insert E tx entry w =
     (case tx of
        OtherValue \<Rightarrow> (Some (TransitionErr ErrInvalidTransition), w)
      | PgxTx \<Rightarrow>
          (case fresh_log_ID E entry w of (entry1, w1) \<Rightarrow>
           case fresh_log_time E entry1 w1 of (entry2, w2) \<Rightarrow>
             tx_Exec E (insert_audit (audit_row E entry2)) w2))"

definition AuditLogRepo_ListByPolicy ::
    "env \<Rightarrow> uuid \<Rightarrow> world \<Rightarrow> (error + audit_log list) \<times> world" where
  "AuditLogRepo_ListByPolicy E i w =
     db_Query E (\<lambda>t. sort_key OccurredAt (filter (\<lambda>l. log_PolicyID l = i) (t_audit t))) w"

definition AuditLogRepo :: audit_log_repository where
  "AuditLogRepo = \<lparr>audit_Insert = AuditLogRepo_Insert,
     audit_ListByPolicy = AuditLogRepo_ListByPolicy\<rparr>"

lemma AuditLogRepo_simps [simp]:
  "audit_Insert AuditLogRepo = AuditLogRepo_Insert"
  "audit_ListByPolicy AuditLogRepo = AuditLogRepo_ListByPolicy"
  by (simp_all add: AuditLogRepo_def)

lemma tx_Exec_frame:
  assumes "tx_Exec E st w = (r, w')"
  shows "db w' = db w" "spawned w' = spawned w" "objects w' = objects w"
  using assms
  by (auto simp: tx_Exec_def call_def split: option.splits transaction.splits sum.splits)

lemma tx_Exec_done:
  assumes "tx_Exec E st w = (None, w')"
  obtains t t' where "txn w = Some (Open t)" "st t = Inr t'" "txn w' = Some (Open t')"
    "w' = w\<lparr>tick := Suc (tick w), txn := Some (Open t')\<rparr>" "env_fault E (tick w) = None"
  using assms
  by (auto simp: tx_Exec_def call_def split: option.splits transaction.splits sum.splits)

lemma fresh_log_ID_frame:
  assumes "fresh_log_ID E l w = (l', w')"
  obtains u n where "l' = l\<lparr>log_ID := u\<rparr>" "w' = w\<lparr>tick := n\<rparr>"
proof (cases "log_ID l = uuid_Nil")
  case True
  with assms that show ?thesis by (auto simp: fresh_log_ID_def uuid_New_def)
next
  case False
  with assms that [of "log_ID l" "tick w"] show ?thesis by (simp add: fresh_log_ID_def)
qed

lemma fresh_log_time_frame:
  assumes "fresh_log_time E l w = (l', w')"
  obtains n k where "l' = l\<lparr>OccurredAt := n\<rparr>" "w' = w\<lparr>tick := k\<rparr>"
    "OccurredAt l \<noteq> time_zero \<longrightarrow> n = OccurredAt l"
proof (cases "IsZero (OccurredAt l)")
  case True
  with assms that show ?thesis by (auto simp: fresh_log_time_def time_Now_def IsZero_def)
next
  case False
  with assms that [of "OccurredAt l" "tick w"] show ?thesis by (simp add: fresh_log_time_def)
qed

lemma AuditLogRepo_Insert_frame:
  assumes "AuditLogRepo_Insert E tx l w = (r, w')"
  shows "db w' = db w \<and> spawned w' = spawned w \<and> objects w' = objects w"
  using assms unfolding AuditLogRepo_Insert_def
  by (auto split: any_tx.splits prod.splits elim!: fresh_log_ID_frame fresh_log_time_frame
      dest: tx_Exec_frame)

lemma AuditLogRepo_Insert_done:
  assumes "AuditLogRepo_Insert E tx l w = (None, w')"
  shows "\<exists>t t' u at. txn w = Some (Open t) \<and> txn w' = Some (Open t') \<and>
    insert_audit (l\<lparr>log_ID := u, OccurredAt := at\<rparr>) t = Inr t' \<and>
    (OccurredAt l \<noteq> time_zero \<longrightarrow> at = env_timestamptz E (OccurredAt l))"
proof -
  from assms have tx: "tx = PgxTx" by (auto simp: AuditLogRepo_Insert_def split: any_tx.splits)
  obtain l1 w1 where 1: "fresh_log_ID E l w = (l1, w1)" by (cases "fresh_log_ID E l w")
  obtain l2 w2 where 2: "fresh_log_time E l1 w1 = (l2, w2)" by (cases "fresh_log_time E l1 w1")
  from assms tx 1 2 have ex: "tx_Exec E (insert_audit (audit_row E l2)) w2 = (None, w')"
    by (simp add: AuditLogRepo_Insert_def)
  from 1 obtain u n where u: "l1 = l\<lparr>log_ID := u\<rparr>" "w1 = w\<lparr>tick := n\<rparr>"
    by (rule fresh_log_ID_frame)
  from 2 obtain at k where at: "l2 = l1\<lparr>OccurredAt := at\<rparr>" "w2 = w1\<lparr>tick := k\<rparr>"
      "OccurredAt l1 \<noteq> time_zero \<longrightarrow> at = OccurredAt l1"
    by (rule fresh_log_time_frame)
  have "audit_row E l2 = l\<lparr>log_ID := u, OccurredAt := env_timestamptz E at\<rparr>"
    by (simp add: audit_row_def u at)
  from tx_Exec_done [OF ex [unfolded this]] obtain t t' where
    "txn w2 = Some (Open t)" "txn w' = Some (Open t')"
    "insert_audit (l\<lparr>log_ID := u, OccurredAt := env_timestamptz E at\<rparr>) t = Inr t'" .
  with u at show ?thesis by auto
qed

lemma AuditLogRepo_ListByPolicy_cases:
  assumes "AuditLogRepo_ListByPolicy E i w = (r, w')"
  shows "unchanged w w'" and "r = Inr ls \<Longrightarrow>
    mset ls = mset (filter (\<lambda>l. log_PolicyID l = i) (t_audit (db w))) \<and>
    sorted (map OccurredAt ls)"
  using assms by (auto simp: AuditLogRepo_ListByPolicy_def sorted_sort_key elim!: db_Query_cases)

interpretation pg_audit: audit_store AuditLogRepo
proof unfold_locales
  show "audit_Insert AuditLogRepo E tx l w = (re, w') \<Longrightarrow>
      db w' = db w \<and> spawned w' = spawned w \<and> objects w' = objects w" for E tx l w re w'
    using AuditLogRepo_Insert_frame by simp
  show "audit_ListByPolicy AuditLogRepo E i w = (rl, w') \<Longrightarrow> unchanged w w'" for E i w rl w'
    using AuditLogRepo_ListByPolicy_cases(1) by simp
  show "audit_Insert AuditLogRepo E tx l w = (None, w') \<Longrightarrow>
      \<exists>t t' u at. txn w = Some (Open t) \<and> txn w' = Some (Open t') \<and>
        insert_audit (l\<lparr>log_ID := u, OccurredAt := at\<rparr>) t = Inr t' \<and>
        (OccurredAt l \<noteq> time_zero \<longrightarrow> at = env_timestamptz E (OccurredAt l))" for E tx l w w'
    using AuditLogRepo_Insert_done by simp
  show "audit_ListByPolicy AuditLogRepo E i w = (Inr ls, w') \<Longrightarrow>
      mset ls = mset (filter (\<lambda>l. log_PolicyID l = i) (t_audit (db w))) \<and>
      sorted (map OccurredAt ls)" for E i w ls w'
    using AuditLogRepo_ListByPolicy_cases(2) by simp
qed

section \<open>Documents\<close>

definition fresh_doc_ID :: "env \<Rightarrow> document \<Rightarrow> world \<Rightarrow> document \<times> world" where
  "fresh_doc_ID E d w =
     (if doc_ID d = uuid_Nil then (case uuid_New E w of (u, w1) \<Rightarrow> (d\<lparr>doc_ID := u\<rparr>, w1))
      else (d, w))"

definition fresh_doc_time :: "env \<Rightarrow> document \<Rightarrow> world \<Rightarrow> document \<times> world" where
  "fresh_doc_time E d w =
     (if IsZero (doc_CreatedAt d)
      then (case time_Now E w of (n, w1) \<Rightarrow> (d\<lparr>doc_CreatedAt := n\<rparr>, w1))
      else (d, w))"

text \<open>The document is passed by pointer: its id and time are set for the caller too.\<close>

definition DocumentRepo_Create ::
    "env \<Rightarrow> document \<Rightarrow> world \<Rightarrow> (error + document) \<times> world" where
  "DocumentRepo_Create E d w =
     (case fresh_doc_ID E d w of (d1, w1) \<Rightarrow>
      case fresh_doc_time E d1 w1 of (d2, w2) \<Rightarrow>
        (case db_Exec E (insert_document (document_row E d2)) w2 of
           (Some e, w3) \<Rightarrow> (Inl e, w3)
         | (None, w3) \<Rightarrow> (Inr d2, w3)))"

definition DocumentRepo_ListByPolicy ::
    "env \<Rightarrow> uuid \<Rightarrow> world \<Rightarrow> (error + document list) \<times> world" where
  "DocumentRepo_ListByPolicy E i w =
     db_Query E (\<lambda>t. rev (sort_key doc_CreatedAt
       (filter (\<lambda>d. doc_PolicyID d = i) (t_documents t)))) w"

definition DocumentRepo :: document_repository where
  "DocumentRepo = \<lparr>document_Create = DocumentRepo_Create,
     document_ListByPolicy = DocumentRepo_ListByPolicy\<rparr>"

section \<open>Coverages and premiums\<close>

definition CoverageRepo_Create :: "env \<Rightarrow> coverage \<Rightarrow> world \<Rightarrow> error option \<times> world" where
  "CoverageRepo_Create E c w = db_Exec E (insert_coverage c) w"

definition CoverageRepo_ListByPolicy ::
    "env \<Rightarrow> uuid \<Rightarrow> world \<Rightarrow> (error + coverage list) \<times> world" where
  "CoverageRepo_ListByPolicy E i w =
     db_Query E (\<lambda>t. filter (\<lambda>c. cov_PolicyID c = i) (t_coverages t)) w"

definition CoverageRepo_Delete :: "env \<Rightarrow> uuid \<Rightarrow> world \<Rightarrow> error option \<times> world" where
  "CoverageRepo_Delete E i w = db_Exec E (delete_coverage i) w"

definition CoverageRepo :: coverage_repository where
  "CoverageRepo = \<lparr>coverage_Create = CoverageRepo_Create,
     coverage_ListByPolicy = CoverageRepo_ListByPolicy, coverage_Delete = CoverageRepo_Delete\<rparr>"

definition PremiumRepo_Create :: "env \<Rightarrow> premium \<Rightarrow> world \<Rightarrow> error option \<times> world" where
  "PremiumRepo_Create E p w = db_Exec E (insert_premium (premium_row E p)) w"

definition PremiumRepo_ListByPolicy ::
    "env \<Rightarrow> uuid \<Rightarrow> world \<Rightarrow> (error + premium list) \<times> world" where
  "PremiumRepo_ListByPolicy E i w =
     db_Query E (\<lambda>t. sort_key DueDate (filter (\<lambda>p. prem_PolicyID p = i) (t_premiums t))) w"

definition PremiumRepo_MarkPaid :: "env \<Rightarrow> uuid \<Rightarrow> time \<Rightarrow> world \<Rightarrow> error option \<times> world" where
  "PremiumRepo_MarkPaid E i paidAt w =
     db_Exec E (mark_premium_paid i (env_timestamptz E paidAt)) w"

definition PremiumRepo :: premium_repository where
  "PremiumRepo = \<lparr>premium_Create = PremiumRepo_Create,
     premium_ListByPolicy = PremiumRepo_ListByPolicy, premium_MarkPaid = PremiumRepo_MarkPaid\<rparr>"

section \<open>Without a database\<close>

definition NullPolicyRepo :: policy_repository where
  "NullPolicyRepo = \<lparr>repo_Create = (\<lambda>E p w. (None, w)),
     repo_GetByID = (\<lambda>E i w. (Inl (PortErr ErrNotFound), w)),
     repo_GetByPolicyNumber = (\<lambda>E n w. (Inl (PortErr ErrNotFound), w)),
     repo_Update = (\<lambda>E p w. (None, w)),
     repo_List = (\<lambda>E lp w. (Inr [], w))\<rparr>"

definition NullAuditLogRepo :: audit_log_repository where
  "NullAuditLogRepo = \<lparr>audit_Insert = (\<lambda>E tx l w. (None, w)),
     audit_ListByPolicy = (\<lambda>E i w. (Inr [], w))\<rparr>"

text \<open>The one of package \<^verbatim>\<open>domain\<close>, which its tests use.\<close>

definition NullAuditLog :: audit_log_repository where
  "NullAuditLog = \<lparr>audit_Insert = (\<lambda>E tx l w. (None, w)),
     audit_ListByPolicy = (\<lambda>E i w. (Inr [], w))\<rparr>"

definition NullDocumentRepo :: document_repository where
  "NullDocumentRepo = \<lparr>document_Create = (\<lambda>E d w. (Inr d, w)),
     document_ListByPolicy = (\<lambda>E i w. (Inr [], w))\<rparr>"

interpretation null: policy_port NullPolicyRepo
  by unfold_locales (auto simp: NullPolicyRepo_def)

lemma NullAuditLog_eq: "NullAuditLog = NullAuditLogRepo"
  by (simp add: NullAuditLog_def NullAuditLogRepo_def)

interpretation null_audit: audit_port NullAuditLogRepo
  by unfold_locales (auto simp: NullAuditLogRepo_def)

end
