(* ===== verification/Publisher.thy ===== *)
theory Publisher
  imports Ports
begin

text \<open>
  The NATS publisher of \<^verbatim>\<open>events/publisher.go\<close> and its adapter to the domain port
  (\<^verbatim>\<open>domain_adapter.go\<close>). The broker is a parameter: the answer of the n-th publish, and whether
  the context is done while the n-th wait lasts. \<open>Publish\<close> returns the list of the things it
  does, in order.
\<close>

section \<open>Connecting\<close>

definition StreamName :: string where "StreamName = ''POLICY_EVENTS''"
definition streamSubject :: string where "streamSubject = ''policy.>''"

definition second :: duration where "second = 1000000000"
definition hour :: duration where "hour = 3600 * second"
definition streamMaxAge :: duration where "streamMaxAge = 7 * 24 * hour"

datatype storage = FileStorage | MemoryStorage
datatype retention = LimitsPolicy | InterestPolicy | WorkQueuePolicy
datatype discard = DiscardOld | DiscardNew

record stream_config =
  sc_Name :: string
  sc_Subjects :: "string list"
  sc_MaxAge :: duration
  sc_Storage :: storage
  sc_Replicas :: int
  sc_Retention :: retention
  sc_Discard :: discard

text \<open>\<open>ensureStream\<close>; \<open>create\<close> is the answer of \<^verbatim>\<open>CreateOrUpdateStream\<close>.\<close>

definition ensureStream :: "(stream_config \<Rightarrow> error option) \<Rightarrow> error option" where
  "ensureStream create =
     (case create \<lparr>sc_Name = StreamName, sc_Subjects = [streamSubject], sc_MaxAge = streamMaxAge,
         sc_Storage = FileStorage, sc_Replicas = 1, sc_Retention = LimitsPolicy,
         sc_Discard = DiscardOld\<rparr> of
        Some e \<Rightarrow> Some (Errorf (''ensure stream '' @ StreamName @ '': '') e [])
      | None \<Rightarrow> None)"

text \<open>The options that are handed to \<^verbatim>\<open>nats.Connect\<close>; the root certificates are given as PEM text.\<close>

datatype tls_version = VersionTLS10 | VersionTLS11 | VersionTLS12 | VersionTLS13

record tls_config =
  RootCAs :: string
  MinVersion :: tls_version

record nats_options =
  opt_Name :: string
  opt_MaxReconnects :: int
  opt_ReconnectWait :: duration
  opt_Secure :: "tls_config option"

definition connect_options :: "string \<Rightarrow> nats_options" where
  "connect_options caCert =
     (let opts = \<lparr>opt_Name = ''ktayl-policy-service'', opt_MaxReconnects = -1,
            opt_ReconnectWait = 2 * second, opt_Secure = None\<rparr>
      in if caCert \<noteq> []
         then opts\<lparr>opt_Secure := Some \<lparr>RootCAs = caCert, MinVersion = VersionTLS12\<rparr>\<rparr>
         else opts)"

text \<open>
  \<^verbatim>\<open>Connect\<close>. \<open>pem_ok\<close> says whether the certificate pool takes the PEM text, \<open>dial\<close> and \<open>init\<close> are
  the answers of \<^verbatim>\<open>nats.Connect\<close> (given the options) and \<^verbatim>\<open>jetstream.New\<close>. The result comes
  with the number of connections left open.
\<close>

definition Connect ::
    "(string \<Rightarrow> bool) \<Rightarrow> (string \<Rightarrow> nats_options \<Rightarrow> error option) \<Rightarrow> error option \<Rightarrow>
      (stream_config \<Rightarrow> error option) \<Rightarrow> string \<Rightarrow> string \<Rightarrow> error option \<times> nat" where
  "Connect pem_ok dial init create natsURL caCert =
     (if caCert \<noteq> [] \<and> \<not> pem_ok caCert then (Some (Plain ''nats: invalid CA cert PEM''), 0)
      else (case dial natsURL (connect_options caCert) of
              Some e \<Rightarrow> (Some (Errorf (''nats connect '' @ natsURL @ '': '') e []), 0)
            | None \<Rightarrow>
                (case init of
                   Some e \<Rightarrow> (Some (Errorf ''jetstream init: '' e []), 0)
                 | None \<Rightarrow>
                     (case ensureStream create of
                        Some e \<Rightarrow> (Some e, 0)
                      | None \<Rightarrow> (None, 1)))))"

section \<open>Publishing\<close>

definition maxRetries :: nat where "maxRetries = 3"
definition retryBase :: duration where "retryBase = 5 * second"
definition retryMultiple :: duration where "retryMultiple = 5"

datatype publish_step =
    MarshalFailed string
  | Attempt nat string bytes
  | Published string string
  | PublishFailed nat
  | Waited duration
  | Abandoned_after_retries string string

function publish_loop ::
    "(nat \<Rightarrow> error option) \<Rightarrow> (nat \<Rightarrow> bool) \<Rightarrow> string \<Rightarrow> string \<Rightarrow> bytes \<Rightarrow> nat \<Rightarrow> duration \<Rightarrow>
      publish_step list" where
  "publish_loop js ctx_done subject ident data attempt wait =
     (if attempt \<le> maxRetries
      then Attempt attempt subject data #
        (case js attempt of
           None \<Rightarrow> [Published subject ident]
         | Some e \<Rightarrow>
             PublishFailed attempt #
             (if attempt < maxRetries
              then (if ctx_done attempt then []
                    else Waited wait #
                      publish_loop js ctx_done subject ident data (Suc attempt) (wait * retryMultiple))
              else publish_loop js ctx_done subject ident data (Suc attempt) wait))
      else [Abandoned_after_retries subject ident])"
  by pat_completeness auto
termination
  by (relation "measure (\<lambda>(_, _, _, _, _, attempt, _). Suc maxRetries - attempt)") auto

declare publish_loop.simps [simp del]

definition Publish ::
    "env \<Rightarrow> (nat \<Rightarrow> error option) \<Rightarrow> (nat \<Rightarrow> bool) \<Rightarrow> uuid \<Rightarrow>
      policy_event \<Rightarrow> publish_step list" where
  "Publish E js ctx_done u event =
     (let subject = ''policy.'' @ EventType event
      in case Marshal_event (toCloudEvent E u event) of
           Inl _ \<Rightarrow> [MarshalFailed (EventType event)]
         | Inr data \<Rightarrow> publish_loop js ctx_done subject (ev_PolicyID event) data 1 retryBase)"

text \<open>
  \<^verbatim>\<open>PublishAsync\<close> builds the event and starts a goroutine that publishes it. The goroutine runs
  with \<^verbatim>\<open>context.WithoutCancel\<close>, whose context is never done: \<open>run_spawned\<close>.
\<close>

definition Publisher_PublishAsync ::
    "env \<Rightarrow> string \<Rightarrow> policy \<Rightarrow> string \<Rightarrow> string \<Rightarrow> world \<Rightarrow> world" where
  "Publisher_PublishAsync E eventType pol actor reason w =
     w\<lparr>spawned := spawned w @ [BuildTransitionEvent E eventType pol actor reason]\<rparr>"

definition run_spawned ::
    "env \<Rightarrow> (nat \<Rightarrow> error option) \<Rightarrow> uuid \<Rightarrow> policy_event \<Rightarrow> publish_step list" where
  "run_spawned E js u event = Publish E js (\<lambda>_. False) u event"

text \<open>\<^verbatim>\<open>IsConnected\<close>: \<open>nc\<close> is the state of the connection, if there is one.\<close>

definition Publisher_IsConnected :: "bool option \<Rightarrow> bool" where
  "Publisher_IsConnected nc = (case nc of None \<Rightarrow> False | Some up \<Rightarrow> up)"

definition Publisher :: "bool option \<Rightarrow> event_publisher" where
  "Publisher nc = \<lparr>PublishAsync = Publisher_PublishAsync, IsConnected = Publisher_IsConnected nc\<rparr>"

interpretation nats: publisher_port "Publisher nc" for nc
  by unfold_locales (simp_all add: Publisher_def Publisher_PublishAsync_def)

section \<open>The retry loop\<close>

definition attempts :: "publish_step list \<Rightarrow> nat list" where
  "attempts tr = concat (map (\<lambda>s. case s of Attempt n _ _ \<Rightarrow> [n] | _ \<Rightarrow> []) tr)"

definition waits :: "publish_step list \<Rightarrow> duration list" where
  "waits tr = concat (map (\<lambda>s. case s of Waited d \<Rightarrow> [d] | _ \<Rightarrow> []) tr)"

lemma attempts_simps [simp]:
  "attempts [] = []"
  "attempts (Attempt n s d # tr) = n # attempts tr"
  "attempts (Published s i # tr) = attempts tr"
  "attempts (PublishFailed n # tr) = attempts tr"
  "attempts (Waited w # tr) = attempts tr"
  "attempts (Abandoned_after_retries s i # tr) = attempts tr"
  "attempts (MarshalFailed s # tr) = attempts tr"
  by (simp_all add: attempts_def)

lemma waits_simps [simp]:
  "waits [] = []"
  "waits (Attempt n s d # tr) = waits tr"
  "waits (Published s i # tr) = waits tr"
  "waits (PublishFailed n # tr) = waits tr"
  "waits (Waited w # tr) = w # waits tr"
  "waits (Abandoned_after_retries s i # tr) = waits tr"
  "waits (MarshalFailed s # tr) = waits tr"
  by (simp_all add: waits_def)

text \<open>The loop unrolled, one attempt after the other.\<close>

lemma publish_from_4:
  "publish_loop js dn subject ident data 4 wait = [Abandoned_after_retries subject ident]"
  by (subst publish_loop.simps) (simp add: maxRetries_def)

lemma publish_from_3:
  "publish_loop js dn subject ident data 3 wait =
     Attempt 3 subject data #
     (if js 3 = None then [Published subject ident]
      else [PublishFailed 3, Abandoned_after_retries subject ident])"
  by (subst publish_loop.simps) (auto simp: maxRetries_def publish_from_4 split: option.splits)

lemma publish_from_2:
  "publish_loop js dn subject ident data 2 wait =
     Attempt 2 subject data #
     (if js 2 = None then [Published subject ident]
      else PublishFailed 2 #
        (if dn 2 then []
         else Waited wait # publish_loop js dn subject ident data 3 (wait * retryMultiple)))"
  by (subst publish_loop.simps) (auto simp: maxRetries_def numeral_3_eq_3 split: option.splits)

lemma publish_from_1:
  "publish_loop js dn subject ident data 1 wait =
     Attempt 1 subject data #
     (if js 1 = None then [Published subject ident]
      else PublishFailed 1 #
        (if dn 1 then []
         else Waited wait # publish_loop js dn subject ident data 2 (wait * retryMultiple)))"
  by (subst publish_loop.simps) (auto simp: maxRetries_def numeral_2_eq_2 split: option.splits)

lemmas publish_unrolled = publish_from_1 publish_from_2 publish_from_3

definition first_success :: "(nat \<Rightarrow> error option) \<Rightarrow> nat option" where
  "first_success js = find (\<lambda>n. js n = None) [1, 2, 3]"

lemma first_success_unfold:
  "first_success js =
     (if js 1 = None then Some 1 else if js 2 = None then Some 2 else if js 3 = None then Some 3
      else None)"
  by (simp add: first_success_def)

section \<open>Properties\<close>

text \<open>
  C24. A publication handed to a goroutine is tried at most three times, in order, with the subject of
  its event type; it stops at the first attempt the broker accepts, and is abandoned, with a
  log entry, only after all three have failed. Between attempts it waits 5 seconds, then 25.
\<close>

theorem publication_retries:
  "(case first_success js of
      Some n \<Rightarrow> attempts (run_spawned E js u event) = [1..<Suc n] \<and>
        last (run_spawned E js u event) =
          Published (''policy.'' @ EventType event) (ev_PolicyID event)
    | None \<Rightarrow> attempts (run_spawned E js u event) = [1, 2, 3] \<and>
        last (run_spawned E js u event) =
          Abandoned_after_retries (''policy.'' @ EventType event) (ev_PolicyID event)) \<and>
    waits (run_spawned E js u event) =
      take (length (attempts (run_spawned E js u event)) - 1) [5 * second, 25 * second]"
  by (simp add: run_spawned_def Publish_def Marshal_event_def publish_unrolled first_success_unfold
      retryBase_def retryMultiple_def second_def upt_rec Let_def del: One_nat_def)

theorem publication_retries_witness:
  "waits (run_spawned (demo_env []) (\<lambda>n. if n < 3 then Some (Plain ''down'') else None)
     0 (BuildTransitionEvent (demo_env []) ''submitted'' zero_policy ''alice'' []))
   = [5 * second, 25 * second]"
  using publication_retries [where js = "\<lambda>n. if n < 3 then Some (Plain ''down'') else None" and u = 0 and
      E = "demo_env []" and event = "BuildTransitionEvent (demo_env []) ''submitted'' zero_policy ''alice'' []"]
  by (simp add: first_success_unfold)

section \<open>What a subscriber reads\<close>

lemma first_value_print: "printable maxNestingDepth v \<Longrightarrow> first_value (print_json v) = Some v"
  using scan_printed [of maxNestingDepth v "[]"] by (simp add: first_value_def number_end_def)

lemma ascii_text: "\<forall>c \<in> set s. byte c < 0x80 \<Longrightarrow> to_valid s = s"
  by (intro to_valid_id valid_ascii)

lemma event_keys [simp]:
  "to_valid ''specversion'' = ''specversion''" "to_valid ''id'' = ''id''" "to_valid ''source'' = ''source''"
  "to_valid ''type'' = ''type''" "to_valid ''datacontenttype'' = ''datacontenttype''"
  "to_valid ''time'' = ''time''" "to_valid ''data'' = ''data''" "to_valid ''policy_id'' = ''policy_id''"
  "to_valid ''policy_number'' = ''policy_number''" "to_valid ''holder_name'' = ''holder_name''"
  "to_valid ''product_code'' = ''product_code''" "to_valid ''status'' = ''status''"
  "to_valid ''actor'' = ''actor''" "to_valid ''reason'' = ''reason''"
  "to_valid ''effective_date'' = ''effective_date''" "to_valid ''expiry_date'' = ''expiry_date''"
  by (rule ascii_text, simp add: byte_def)+

lemma ascii_values:
  "to_valid ''1.0'' = ''1.0''" "to_valid ''ktayl-policy-service'' = ''ktayl-policy-service''"
  "to_valid ''application/json'' = ''application/json''"
  by (rule ascii_text, simp add: byte_def)+

lemma event_printable: "printable maxNestingDepth (cloud_event_json e)"
  by (auto simp: cloud_event_json_def event_data_json_def omitempty_def maxNestingDepth_def)

lemma attempt_data:
  "Attempt n subject d \<in> set (publish_loop js dn subj ident data 1 wait) \<Longrightarrow> d = data \<and> subject = subj"
  by (auto simp: publish_unrolled simp del: One_nat_def split: if_splits)

text \<open>
  C17. Whatever attempt reaches the broker, a subscriber that parses the message finds the event: one
  JSON object of the CloudEvents version, with the id, source, content type and time of the
  event and the type its subject names, whose data is the policy as the event has it, every
  member of it, the two dates in RFC 3339, with the actor and the reason exactly when there are
  any. Bytes that are no UTF-8 arrive as replacement characters; text that is valid arrives
  unchanged.
\<close>

theorem published_event_reads_back:
  assumes "Attempt n subject message \<in> set (run_spawned E js u e)"
  shows "\<exists>v data. first_value message = Some v \<and> member ''data'' v = Some data \<and>
    subject = ''policy.'' @ EventType e \<and>
    Option.bind (member ''type'' v) text_of = Some (to_valid (''com.ktayl.policy.'' @ EventType e)) \<and>
    Option.bind (member ''specversion'' v) text_of = Some ''1.0'' \<and>
    Option.bind (member ''id'' v) text_of = Some (to_valid (env_uuid_String E u)) \<and>
    Option.bind (member ''source'' v) text_of = Some ''ktayl-policy-service'' \<and>
    Option.bind (member ''datacontenttype'' v) text_of = Some ''application/json'' \<and>
    Option.bind (member ''time'' v) text_of = Some (Format_RFC3339 (ev_OccurredAt e)) \<and>
    Option.bind (member ''policy_id'' data) text_of =
      Some (to_valid (env_uuid_String E (ID (ev_Policy e)))) \<and>
    Option.bind (member ''policy_number'' data) text_of = Some (to_valid (PolicyNumber (ev_Policy e))) \<and>
    Option.bind (member ''holder_name'' data) text_of = Some (to_valid (HolderName (ev_Policy e))) \<and>
    Option.bind (member ''product_code'' data) text_of = Some (to_valid (ProductCode (ev_Policy e))) \<and>
    Option.bind (member ''status'' data) text_of = Some (to_valid (Status (ev_Policy e))) \<and>
    Option.bind (member ''effective_date'' data) text_of =
      Some (Format_RFC3339 (EffectiveDate (ev_Policy e))) \<and>
    Option.bind (member ''expiry_date'' data) text_of = Some (Format_RFC3339 (ExpiryDate (ev_Policy e))) \<and>
    Option.bind (member ''actor'' data) text_of =
      (if ev_Actor e = [] then None else Some (to_valid (ev_Actor e))) \<and>
    Option.bind (member ''reason'' data) text_of =
      (if ev_Reason e = [] then None else Some (to_valid (ev_Reason e))) \<and>
    (\<forall>s. valid_utf8 s \<longrightarrow> to_valid s = s)"
proof -
  let ?e = "toCloudEvent E u e"
  have "message = print_json (cloud_event_json ?e)" and subject: "subject = ''policy.'' @ EventType e"
    using assms attempt_data by (auto simp: run_spawned_def Publish_def Marshal_event_def Let_def)
  then have "first_value message = Some (cloud_event_json ?e)"
    using first_value_print [OF event_printable] by simp
  moreover have "member ''data'' (cloud_event_json ?e) = Some (event_data_json (Data ?e))"
    by (simp add: cloud_event_json_def member_object)
  ultimately show ?thesis
    using subject
    by (simp add: cloud_event_json_def event_data_json_def member_object omitempty_def toCloudEvent_def Let_def
        source_def ascii_values to_valid_id)
qed

theorem published_event_reads_back_witness:
  "\<exists>v data. first_value (print_json (cloud_event_json (toCloudEvent (demo_env []) 0
      (BuildTransitionEvent (demo_env []) ''cancelled'' zero_policy ''alice'' ''moved & sold'')))) = Some v \<and>
    member ''data'' v = Some data \<and> Option.bind (member ''reason'' data) text_of = Some ''moved & sold''"
proof -
  let ?e = "BuildTransitionEvent (demo_env []) ''cancelled'' zero_policy ''alice'' ''moved & sold''"
  have "Attempt 1 (''policy.'' @ EventType ?e) (print_json (cloud_event_json (toCloudEvent (demo_env []) 0 ?e)))
      \<in> set (run_spawned (demo_env []) (\<lambda>_. None) 0 ?e)"
    by (simp add: run_spawned_def Publish_def Marshal_event_def publish_unrolled Let_def del: One_nat_def)
  moreover have "to_valid ''moved & sold'' = ''moved & sold''" by (rule ascii_text) (simp add: byte_def)
  ultimately show ?thesis
    using published_event_reads_back [of 1 _ _ "demo_env []" "\<lambda>_. None" 0 ?e]
    by (simp add: BuildTransitionEvent_def) blast
qed

text \<open>
  Connecting leaves a connection open exactly when it succeeds: whatever fails after the
  dial, no connection is left behind.
\<close>

theorem connect_leaks_nothing:
  "snd (Connect pem_ok dial init create url ca) =
     (if fst (Connect pem_ok dial init create url ca) = None then 1 else 0)"
  by (auto simp: Connect_def ensureStream_def split: option.splits)

end
