(* ===== verification/LiveService.thy ===== *)
theory LiveService
  imports ServiceContract PolicyRepo Repositories Publisher
begin

text \<open>
  The policy service as \<^verbatim>\<open>main.go\<close> builds it: over PostgreSQL, with the NATS publisher when
  the broker was reached, and over the no-op repositories when no DSN is configured. The
  contracts of theory ServiceContract are interpreted on both, and the properties of the
  single methods follow.
\<close>

section \<open>The service as main builds it\<close>

text \<open>\<open>nats\<close> is the state of the connection, when connecting to the broker succeeded.\<close>

definition live_service :: "bool option \<Rightarrow> policy_service" where
  "live_service nats =
     (let svc = NewPolicyService PolicyRepo AuditLogRepo True
      in case nats of None \<Rightarrow> svc | Some up \<Rightarrow> SetPublisher (Publisher (Some up)) svc)"

definition offline_service :: policy_service where
  "offline_service = NewPolicyService NullPolicyRepo NullAuditLogRepo False"

lemma live_service_simps [simp]:
  "svc_repo (live_service nats) = PolicyRepo"
  "svc_auditRepo (live_service nats) = AuditLogRepo"
  "svc_db (live_service nats) = True"
  "svc_pub (live_service nats) = map_option (\<lambda>up. Publisher (Some up)) nats"
  by (simp_all add: live_service_def NewPolicyService_def SetPublisher_def Let_def split: option.splits)

lemma offline_service_simps [simp]:
  "svc_repo offline_service = NullPolicyRepo"
  "svc_auditRepo offline_service = NullAuditLogRepo"
  "svc_db offline_service = False"
  "svc_pub offline_service = None"
  by (simp_all add: offline_service_def NewPolicyService_def)

interpretation live: stored_service "live_service nats" for nats
  by (intro stored_service.intro service_ports.intro service_ports_axioms.intro)
    (auto simp: pg.policy_port_axioms pg.policy_store_axioms pg_audit.audit_port_axioms
      pg_audit.audit_store_axioms nats.publisher_port_axioms)

interpretation offline: service_ports offline_service
  by (intro service_ports.intro service_ports_axioms.intro)
    (auto simp: null.policy_port_axioms null_audit.audit_port_axioms)

text \<open>Tables for the examples: one draft policy, and nothing else.\<close>

definition demo_policy :: policy where
  "demo_policy = \<lparr>ID = 7, PolicyNumber = ''P-7'', HolderName = ''Ada'', ProductCode = ''AUTO'',
     Status = StatusDraft, EffectiveDate = 0, ExpiryDate = 1000000000, CreatedAt = 0,
     UpdatedAt = 0\<rparr>"

definition demo_world :: world where
  "demo_world = init_world (empty_tables\<lparr>t_policies := [demo_policy]\<rparr>)"

section \<open>Transitions\<close>

text \<open>
  C1. A transition is all or nothing, whatever calls fail and however its request ends: either
  the committed tables are the old ones, or the policy made a legal move of the lifecycle and
  exactly one audit row, which records that move with its actor and reason, was appended.
  No other policy and no other table changes, and no transaction stays open.
\<close>

theorem transition_all_or_nothing:
  assumes "applyTransition E (live_service nats) i ev actor reason w = (r, w')"
    and "txn w = None"
  shows "txn w' = None \<and> objects w' = objects w \<and>
    (db w' = db w \<or>
     (\<exists>p s' n l. policy_at (db w) i = Some p \<and> Transition (Status p) ev = Inr s' \<and>
        policy_at (db w') = (policy_at (db w)) (i \<mapsto> p\<lparr>Status := s', UpdatedAt := n\<rparr>) \<and>
        t_audit (db w') = t_audit (db w) @ [l] \<and>
        log_PolicyID l = i \<and> FromStatus l = Status p \<and> ToStatus l = s' \<and>
        ActorID l = actor \<and> Reason l = reason \<and>
        t_documents (db w') = t_documents (db w) \<and> t_coverages (db w') = t_coverages (db w) \<and>
        t_premiums (db w') = t_premiums (db w)))"
  using assms
proof (cases rule: live.applyTransition_cases)
  case (completed p s' n l)
  with moved_map [OF completed(4,2)] moved_tables [OF completed(4)] show ?thesis
    unfolding records_def by blast
next
  case (unanswered p s' n l e)
  with moved_map [OF unanswered(4,2)] moved_tables [OF unanswered(4)] show ?thesis
    unfolding records_def by blast
next
  case (refused e)
  then show ?thesis by simp
qed

theorem transition_all_or_nothing_witness:
  "let w' = snd (applyTransition (demo_env [(6, Fault ''connection lost'' True)]) (live_service None)
        7 EventSubmit ''alice'' [] demo_world)
   in db w' \<noteq> db demo_world \<and> txn w' = None \<and> objects w' = objects demo_world \<and>
    (db w' = db demo_world \<or>
     (\<exists>p s' n l. policy_at (db demo_world) 7 = Some p \<and> Transition (Status p) EventSubmit = Inr s' \<and>
        policy_at (db w') = (policy_at (db demo_world)) (7 \<mapsto> p\<lparr>Status := s', UpdatedAt := n\<rparr>) \<and>
        t_audit (db w') = t_audit (db demo_world) @ [l] \<and>
        log_PolicyID l = 7 \<and> FromStatus l = Status p \<and> ToStatus l = s' \<and>
        ActorID l = ''alice'' \<and> Reason l = [] \<and>
        t_documents (db w') = t_documents (db demo_world) \<and>
        t_coverages (db w') = t_coverages (db demo_world) \<and>
        t_premiums (db w') = t_premiums (db demo_world)))"
proof -
  let ?run = "applyTransition (demo_env [(6, Fault ''connection lost'' True)]) (live_service None)
    7 EventSubmit ''alice'' [] demo_world"
  have "t_audit (db (snd ?run)) \<noteq> t_audit (db demo_world)" by code_simp
  then have "db (snd ?run) \<noteq> db demo_world" by metis
  moreover have "txn demo_world = None" by code_simp
  ultimately show ?thesis
    using transition_all_or_nothing [OF prod.collapse [symmetric], of demo_world]
    unfolding Let_def by blast
qed

lemma transition_event_type_eq: "transition_event_type = EventTypeForTransition"
  by (simp add: fun_eq_iff transition_event_type_def EventTypeForTransition_def event_type_defs)

lemma live_published:
  "live.published nats E ty p actor reason =
     (if nats = None then [] else [BuildTransitionEvent E ty p actor reason])"
  by (auto simp: live.published_def)

text \<open>
  C8. A transition that answers with a policy has been committed, with its audit row, and hands
  exactly one event to the publisher when there is one: the event of the new status, with the
  policy as answered. A transition that answers with an error publishes nothing.
\<close>

theorem transition_answers:
  assumes "applyTransition E (live_service nats) i ev actor reason w = (r, w')"
    and "txn w = None"
  shows "case r of
      Inl e \<Rightarrow> spawned w' = spawned w
    | Inr p' \<Rightarrow>
        (\<exists>p l. policy_at (db w) i = Some p \<and>
           Transition (Status p) ev = Inr (Status p') \<and>
           p' = p\<lparr>Status := Status p', UpdatedAt := UpdatedAt p'\<rparr> \<and>
           policy_at (db w') i = Some (p'\<lparr>UpdatedAt := env_timestamptz E (UpdatedAt p')\<rparr>) \<and>
           t_audit (db w') = t_audit (db w) @ [l] \<and> log_PolicyID l = i \<and>
           FromStatus l = Status p \<and> ToStatus l = Status p') \<and>
        spawned w' = spawned w @ (if nats = None then []
          else [BuildTransitionEvent E (EventTypeForTransition (Status p')) p' actor reason])"
  using assms
proof (cases rule: live.applyTransition_cases)
  case (completed p s' n l)
  with moved_map [OF completed(4,2)] moved_tables(1) [OF completed(4)] show ?thesis
    by (auto simp: records_def live_published transition_event_type_eq)
qed simp_all

theorem transition_answers_witness:
  "let (r, w') = applyTransition (demo_env []) (live_service (Some True)) 7 EventSubmit ''alice'' []
     demo_world
   in \<exists>p'. r = Inr p' \<and> Status p' = StatusSubmitted \<and> map EventType (spawned w') = [''submitted''] \<and>
     spawned w' = [BuildTransitionEvent (demo_env []) (EventTypeForTransition (Status p')) p' ''alice'' []]"
proof -
  let ?run = "applyTransition (demo_env []) (live_service (Some True)) 7 EventSubmit ''alice'' []
     demo_world"
  have 1: "txn demo_world = None" "spawned demo_world = []" by code_simp+
  have "case fst ?run of Inr p' \<Rightarrow> Status p' = StatusSubmitted | Inl _ \<Rightarrow> False" by code_simp
  then obtain p' where p': "fst ?run = Inr p'" "Status p' = StatusSubmitted"
    by (cases "fst ?run") simp_all
  moreover have "map EventType (spawned (snd ?run)) = [''submitted'']" by code_simp
  ultimately show ?thesis
    using transition_answers [OF prod.collapse [symmetric] 1(1), of "demo_env []" "Some True" 7
        EventSubmit "''alice''" "[]"] 1(2)
    by (simp add: case_prod_beta)
qed

section \<open>When no call fails\<close>

text \<open>
  Neither is a call lost, nor does the server refuse one because of its own limits, an index entry
  that is too long included.
\<close>

definition calm :: "env \<Rightarrow> bool" where
  "calm E \<longleftrightarrow> (\<forall>n. env_fault E n = None)"

lemma calm_fault [simp]: "calm E \<Longrightarrow> env_fault E n = None"
  by (simp add: calm_def)

lemma calm_demo [simp]: "calm (demo_env [])"
  by (simp add: calm_def)

lemma calm_Query: "calm E \<Longrightarrow> db_Query E q w = (Inr (q (db w)), w\<lparr>tick := Suc (tick w)\<rparr>)"
  by (simp add: db_Query_def call_def)

lemma calm_Query_text:
  "calm E \<Longrightarrow> db_Query_text E ss q w =
     (case texts_check ss of None \<Rightarrow> Inr (q (db w)) | Some e \<Rightarrow> Inl e, w\<lparr>tick := Suc (tick w)\<rparr>)"
  by (simp add: db_Query_text_def calm_Query texts_check_def)

lemma calm_Exec:
  "calm E \<Longrightarrow> db_Exec E st w =
     (case st (db w) of
        Inl e \<Rightarrow> (Some e, w\<lparr>tick := Suc (tick w)\<rparr>)
      | Inr t \<Rightarrow> (None, w\<lparr>tick := Suc (tick w), db := t\<rparr>))"
  by (simp add: db_Exec_def call_def split: sum.splits)

lemma calm_GetByID:
  "calm E \<Longrightarrow> PolicyService_GetByID E (live_service nats) i w =
     (case policy_at (db w) i of None \<Rightarrow> Inl (ServiceErr ErrPolicyNotFound) | Some p \<Rightarrow> Inr p,
      w\<lparr>tick := Suc (tick w)\<rparr>)"
  by (auto simp: PolicyService_GetByID_def PolicyRepo_GetByID_def scanOne_def QueryRow_Scan_def
      calm_Query_text texts_check_def policy_at_select split: list.splits)

text \<open>
  The outcome of a transition as a function of the committed tables. The audit row has to store
  the actor and the reason as text.
\<close>

definition transition_outcome ::
    "tables \<Rightarrow> uuid \<Rightarrow> event \<Rightarrow> string \<Rightarrow> string \<Rightarrow> time \<Rightarrow> error + policy" where
  "transition_outcome t i ev actor reason n =
     (case policy_at t i of
        None \<Rightarrow> Inl (ServiceErr ErrPolicyNotFound)
      | Some p \<Rightarrow>
          (case Transition (Status p) ev of
             Inl _ \<Rightarrow> Inl (Errorf [] (TransitionErr ErrInvalidTransition)
               ('': '' @ Status p @ arrow @ ev))
           | Inr s' \<Rightarrow>
               (if text_ok actor \<and> text_ok reason
                then Inr (p\<lparr>Status := s', UpdatedAt := n\<rparr>)
                else Inl (PgError character_not_in_repertoire []))))"

lemma policies_checks_None:
  "policies_checks p = None \<longleftrightarrow>
     list_all text_ok [PolicyNumber p, HolderName p, ProductCode p, Status p] \<and>
     chk_policy_dates p \<and> policies_status_check p"
  by (auto simp: policies_checks_def)

lemma status_of_checked: "policies_status_check (p\<lparr>Status := status_of g, UpdatedAt := at\<rparr>)"
  by (cases g) (simp_all add: policies_status_check_def status_defs)

lemma status_text: "text_ok (status_of g)"
proof -
  have "\<forall>s \<in> set [''draft'', ''submitted'', ''active'', ''rejected'', ''amended'', ''cancelled'',
      ''expired'', ''suspended'', ''terminated'']. text_ok s" by code_simp
  then show ?thesis by (cases g) (simp_all add: status_defs)
qed

lemma next_status_text: "Transition s ev = Inr s' \<Longrightarrow> text_ok s'"
  by (auto elim!: Transition_cases simp: status_text)

lemma status_update_accepted:
  assumes "wf_tables t" and "Transition s ev = Inr s'"
  shows "\<exists>t'. update_policies i (status_columns s' at) t = Inr t'"
proof -
  from assms(2) obtain g where "s' = status_of g" by (auto elim: Transition_cases)
  then have "policies_checks (status_columns s' at p) = None" if "p \<in> set (t_policies t)" for p
    using assms(1) that policies_checks_status [of p s' at] status_text [of g]
      status_of_checked [where p = p and g = g and at = at]
    by (simp add: wf_tables_def status_columns_def)
  then show ?thesis by (simp add: update_policies_Inr)
qed

lemma calm_transition_tx:
  assumes "calm E" and "txn w = Some (Open (db w))" and "wf_tables (db w)"
    and "policy_at (db w) i = Some q" and "Transition (Status q) ev = Inr (Status p)"
    and "\<forall>n. env_uuid E n \<notin> log_ID ` set (t_audit (db w))" and "text_ok from_st"
  shows "fst (transition_tx E (live_service nats) i from_st p actor reason w) =
    (if text_ok actor \<and> text_ok reason then Inr p else Inl (PgError character_not_in_repertoire []))"
proof -
  let ?at = "env_timestamptz E (UpdatedAt p)"
  obtain t1 where t1: "update_policies i (status_columns (Status p) ?at) (db w) = Inr t1"
    using status_update_accepted [OF assms(3,5)] by blast
  have ids: "env_uuid E n \<notin> log_ID ` set (t_audit t1)" for n
    using t1 assms(6) by (auto simp: update_policies_Inr)
  have "policy_exists i t1"
    using t1 assms(4) update_status.st_policies policy_at_None by (metis option.distinct(1))
  then have audit: "insert_audit l t1 =
      (if list_all text_ok [FromStatus l, ToStatus l, ActorID l, Reason l]
       then Inr (t1\<lparr>t_audit := t_audit t1 @ [l]\<rparr>) else Inl (PgError character_not_in_repertoire []))"
    if "log_PolicyID l = i" "log_ID l = env_uuid E n" for l n
    using that ids [of n] by (auto simp: insert_audit_def image_iff)
  show ?thesis
    using assms(1,2,7) t1 next_status_text [OF assms(5)]
    by (auto simp: transition_tx_def tx_Exec_def call_def AuditLogRepo_Insert_def fresh_log_ID_def
        uuid_New_def Let_def fresh_log_time_def time_Now_def Commit_def audit)
qed

lemma calm_applyTransition:
  assumes "calm E" and "wf_tables (db w)"
    and "\<forall>n. env_uuid E n \<notin> log_ID ` set (t_audit (db w))"
  shows "fst (applyTransition E (live_service nats) i ev actor reason w) =
    transition_outcome (db w) i ev actor reason (env_now E (Suc (tick w)))"
proof (cases "policy_at (db w) i")
  case None
  with assms show ?thesis
    by (simp add: applyTransition_def calm_GetByID transition_outcome_def)
next
  case (Some p)
  show ?thesis
  proof (cases "Transition (Status p) ev")
    case (Inl k)
    with assms Some show ?thesis
      by (simp add: applyTransition_def calm_GetByID transition_outcome_def invalid_transition_def)
  next
    case (Inr s')
    let ?p = "p\<lparr>Status := s', UpdatedAt := env_now E (Suc (tick w))\<rparr>"
    let ?w = "w\<lparr>tick := Suc (Suc (Suc (tick w))), txn := Some (Open (db w))\<rparr>"
    have "text_ok (Status p)"
      using assms(2) policy_at_Some [OF Some] by (auto simp: wf_tables_def policies_checks_None)
    then have "fst (transition_tx E (live_service nats) i (Status p) ?p actor reason ?w) =
        (if text_ok actor \<and> text_ok reason then Inr ?p else Inl (PgError character_not_in_repertoire []))"
      using assms Some Inr by (intro calm_transition_tx [where q = p]) simp_all
    with assms Some Inr show ?thesis
      by (simp add: applyTransition_def calm_GetByID transition_outcome_def time_Now_def Let_def
          BeginTx_def call_def case_prod_beta)
  qed
qed

text \<open>
  C7. When no call fails and the drawn audit ids are new, the answer to a transition is decided by
  the lookup, the lifecycle and the two texts of the audit row: an unknown policy is
  \<^verbatim>\<open>ErrPolicyNotFound\<close>, an illegal move wraps \<^verbatim>\<open>ErrInvalidTransition\<close> and names the status and
  the event, and every legal move succeeds, except that an actor or a reason with a NUL
  character or with bytes that are no UTF-8 is refused by the database. Its other constraints
  never stand in the way.
\<close>

theorem transition_decided_by_lifecycle:
  assumes "calm E" and "wf_tables (db w)"
    and "\<forall>n. env_uuid E n \<notin> log_ID ` set (t_audit (db w))"
  shows "fst (applyTransition E (live_service nats) i ev actor reason w) =
    transition_outcome (db w) i ev actor reason (env_now E (Suc (tick w)))"
  using assms by (rule calm_applyTransition)

theorem transition_decided_by_lifecycle_witness:
  "fst (applyTransition (demo_env []) (live_service None) 7 EventActivate ''bob'' [] demo_world) =
     transition_outcome (db demo_world) 7 EventActivate ''bob'' [] (env_now (demo_env []) 1) \<and>
   transition_outcome (db demo_world) 7 EventActivate ''bob'' [] 0 =
     Inl (Errorf [] (TransitionErr ErrInvalidTransition) ('': draft'' @ arrow @ ''activate''))"
proof
  have 1: "t_audit (db demo_world) = []" "tick demo_world = 0" by code_simp+
  have 2: "wf_tables (db demo_world)" by code_simp
  show "fst (applyTransition (demo_env []) (live_service None) 7 EventActivate ''bob'' [] demo_world) =
     transition_outcome (db demo_world) 7 EventActivate ''bob'' [] (env_now (demo_env []) 1)"
    using transition_decided_by_lifecycle [OF calm_demo 2] 1 by simp
qed code_simp

section \<open>Creating, updating, cancelling\<close>

lemma policy_at_inserted:
  assumes "insert_policy q t = Inr t'"
  shows "policy_at t' = (policy_at t) (ID q \<mapsto> q)" and "policy_at t (ID q) = None"
    and "\<forall>r \<in> set (t_policies t). PolicyNumber r \<noteq> PolicyNumber q"
    and "t_audit t' = t_audit t"
  using assms policy_at_insert [OF assms]
  by (auto simp: insert_policy_Inr policies_unique_None policy_at_None policy_exists_def image_iff)

lemma policy_at_columns:
  assumes "update_policies i (policy_columns q) t = Inr t'" and "policy_at t i = Some p"
  shows "policy_at t' = (policy_at t) (i \<mapsto> policy_columns q p)" and "t_audit t' = t_audit t"
  using policy_at_update [OF keeps_keys_columns(1) assms(1)] assms
  by (auto simp: update_policies_Inr)

text \<open>
  C13. A policy that is answered as created passed validation, got a new id and a number no policy
  had, is stored as a draft with the given fields at the resolution of the columns, changes no
  other policy and no audit row, and is announced once. A creation that answers with an
  error announces nothing and has stored such a draft or nothing.
\<close>

theorem create_stores_a_draft:
  assumes "PolicyService_Create E (live_service nats) p actor w = (r, w')"
  shows "db w' = db w \<and> (\<exists>e. r = Inl e) \<and> spawned w' = spawned w \<or>
    (\<exists>p' u n. p' = p\<lparr>ID := u, Status := StatusDraft, CreatedAt := n, UpdatedAt := n\<rparr> \<and>
       Policy_Validate p = None \<and> policy_at (db w) u = None \<and>
       (\<forall>q \<in> set (t_policies (db w)). PolicyNumber q \<noteq> PolicyNumber p) \<and>
       policy_at (db w') = (policy_at (db w)) (u \<mapsto> policy_row E p') \<and>
       t_audit (db w') = t_audit (db w) \<and>
       (case r of
          Inl e \<Rightarrow> spawned w' = spawned w
        | Inr q \<Rightarrow> q = p' \<and>
            spawned w' = spawned w @ (if nats = None then [] else [BuildCreatedEvent E p' actor])))"
  using assms
proof (cases rule: live.Create_cases)
  case (stored p' u n)
  have "BuildCreatedEvent E p' actor = BuildTransitionEvent E ''created'' p' actor []"
    using BuildCreatedEvent_eq [of p' E actor] stored(3) by (simp add: EventCreated_def)
  with stored policy_at_inserted [OF stored(4)] show ?thesis
    by (intro disjI2 exI [of _ p'] exI [of _ u] exI [of _ n]) (simp add: live_published)
next
  case (unanswered p' u n e)
  with policy_at_inserted [OF unanswered(4)] only_dbD(2) [OF unanswered(5)] show ?thesis
    by (intro disjI2 exI [of _ p'] exI [of _ u] exI [of _ n]) simp
next
  case (refused e)
  with unchangedD [OF refused(2)] show ?thesis by simp
qed

theorem create_stores_a_draft_witness:
  "let (r, w') = PolicyService_Create (demo_env []) (live_service None)
       (demo_policy\<lparr>PolicyNumber := ''P-8''\<rparr>) ''alice'' demo_world
   in (\<exists>p. r = Inr p) \<and> (\<exists>u q. policy_at (db demo_world) u = None \<and>
        policy_at (db w') = (policy_at (db demo_world)) (u \<mapsto> q) \<and> Status q = StatusDraft)"
proof -
  let ?p = "demo_policy\<lparr>PolicyNumber := ''P-8''\<rparr>"
  let ?run = "PolicyService_Create (demo_env []) (live_service None) ?p ''alice'' demo_world"
  have "case fst ?run of Inl _ \<Rightarrow> False | Inr _ \<Rightarrow> True" by code_simp
  then obtain q where "fst ?run = Inr q" by (cases "fst ?run") simp_all
  with create_stores_a_draft [OF prod.collapse [symmetric], of "demo_env []" None ?p "''alice''" demo_world]
  show ?thesis by (fastforce simp: case_prod_beta)
qed

text \<open>
  C27. When no call fails, a valid policy whose dates differ at the resolution of the columns, and
  whose texts the database takes, is refused as \<^verbatim>\<open>ErrPolicyNumberTaken\<close>, without any change, when its number is in use; with an
  unused number and a new id it is created.
\<close>

theorem create_refuses_taken_numbers:
  assumes "calm E" and "Policy_Validate p = None"
    and "env_timestamptz E (EffectiveDate p) < env_timestamptz E (ExpiryDate p)"
    and "policy_at (db w) (env_uuid E (tick w)) = None"
    and "list_all text_ok [PolicyNumber p, HolderName p, ProductCode p]"
    and "PolicyService_Create E (live_service nats) p actor w = (r, w')"
  shows "if PolicyNumber p \<in> PolicyNumber ` set (t_policies (db w))
    then r = Inl (PortErr ErrPolicyNumberTaken) \<and> db w' = db w \<and> spawned w' = spawned w
    else \<exists>p'. r = Inr p' \<and> PolicyNumber p' = PolicyNumber p \<and> ID p' = env_uuid E (tick w)"
proof -
  let ?p = "p\<lparr>ID := env_uuid E (tick w), Status := StatusDraft,
    CreatedAt := env_now E (Suc (tick w)), UpdatedAt := env_now E (Suc (tick w))\<rparr>"
  have checks: "policies_checks (policy_row E ?p) = None"
    using assms(3,5) status_text [of Draft]
    by (simp add: policies_checks_None chk_policy_dates_def policies_status_check_def StatusDraft_def)
  have "ID r \<noteq> env_uuid E (tick w)" if "r \<in> set (t_policies (db w))" for r
    using assms(4) that by (auto simp: policy_at_None policy_exists_def)
  then have unique: "policies_unique (policy_row E ?p) (t_policies (db w)) =
    (if PolicyNumber p \<in> PolicyNumber ` set (t_policies (db w))
     then Some (PgError unique_violation ''policies_policy_number_key'') else None)"
    by (auto simp: policies_unique_def key_in_image)
  show ?thesis
    using assms(1,2,6) checks unique
    by (auto simp: PolicyService_Create_def uuid_New_def time_Now_def Let_def PolicyRepo_Create_def
        calm_Exec insert_policy_def simp del: policy_row_simps split: if_splits)
qed

theorem create_refuses_taken_numbers_witness:
  "fst (PolicyService_Create (demo_env []) (live_service None) demo_policy ''alice'' demo_world) =
     Inl (PortErr ErrPolicyNumberTaken)"
proof -
  have "Policy_Validate demo_policy = None"
    "floor_micros (EffectiveDate demo_policy) < floor_micros (ExpiryDate demo_policy)"
    "policy_at (db demo_world) (of_nat (tick demo_world)) = None"
    "PolicyNumber demo_policy \<in> PolicyNumber ` set (t_policies (db demo_world))"
    "list_all text_ok [PolicyNumber demo_policy, HolderName demo_policy, ProductCode demo_policy]"
    by code_simp+
  with create_refuses_taken_numbers [OF calm_demo, of demo_policy demo_world None "''alice''",
      OF _ _ _ _ prod.collapse [symmetric]]
  show ?thesis by simp
qed



text \<open>
  C21. An update writes the four fields it is given, after validating them, and the time of the
  update. It keeps the id, the number, the status and the creation time of its policy, all
  other policies and all audit rows, and publishes nothing; one that fails has changed the
  policy in this way or not at all.
\<close>

theorem update_keeps_identity:
  assumes "PolicyService_Update E (live_service nats) i upd w = (r, w')"
  shows "spawned w' = spawned w \<and> t_audit (db w') = t_audit (db w) \<and>
    (db w' = db w \<and> (\<exists>e. r = Inl e) \<or>
     (\<exists>p n. policy_at (db w) i = Some p \<and>
        HolderName upd \<noteq> [] \<and> ProductCode upd \<noteq> [] \<and> EffectiveDate upd < ExpiryDate upd \<and>
        policy_at (db w') = (policy_at (db w)) (i \<mapsto> p\<lparr>HolderName := HolderName upd,
          ProductCode := ProductCode upd, EffectiveDate := env_timestamptz E (EffectiveDate upd),
          ExpiryDate := env_timestamptz E (ExpiryDate upd), UpdatedAt := n\<rparr>)))"
  using assms
proof (cases rule: live.Update_cases)
  case (stored p p' n)
  with policy_at_columns [OF stored(6,2)] only_dbD(2) [OF stored(5)] show ?thesis
    by (simp add: policy_columns_def Policy_Validate_None)
      (intro disjI2 exI [of _ "env_timestamptz E n"], simp)
next
  case (unanswered p p' n e)
  with policy_at_columns [OF unanswered(6,2)] only_dbD(2) [OF unanswered(5)] show ?thesis
    by (simp add: policy_columns_def Policy_Validate_None)
      (intro disjI2 exI [of _ "env_timestamptz E n"], simp)
next
  case (refused e)
  with unchangedD [OF refused(2)] show ?thesis by simp
qed

theorem update_keeps_identity_witness:
  "let (r, w') = PolicyService_Update (demo_env []) (live_service None) 7
       (demo_policy\<lparr>HolderName := ''Grace'', PolicyNumber := ''other''\<rparr>) demo_world
   in \<exists>p. policy_at (db w') 7 = Some p \<and> HolderName p = ''Grace'' \<and> PolicyNumber p = ''P-7''"
proof -
  let ?u = "demo_policy\<lparr>HolderName := ''Grace'', PolicyNumber := ''other''\<rparr>"
  let ?run = "PolicyService_Update (demo_env []) (live_service None) 7 ?u demo_world"
  have 1: "case fst ?run of Inl _ \<Rightarrow> False | Inr _ \<Rightarrow> True" by code_simp
  have 2: "policy_at (db demo_world) 7 = Some demo_policy" by code_simp
  obtain r w' where run: "?run = (r, w')" by (cases ?run)
  from update_keeps_identity [OF run] 1 2 run
  obtain n where "policy_at (db w') 7 = Some (demo_policy\<lparr>HolderName := ''Grace'',
      ProductCode := ProductCode ?u, EffectiveDate := floor_micros (EffectiveDate ?u),
      ExpiryDate := floor_micros (ExpiryDate ?u), UpdatedAt := n\<rparr>)"
    by (cases r) auto
  with run show ?thesis by (simp add: demo_policy_def)
qed



text \<open>
  C22. Cancelling over the DELETE endpoint terminates a draft and nothing else: the tables stay as
  they are, or one policy, a draft, becomes terminated. Unlike a transition it writes no audit
  row and publishes no event.
\<close>

theorem cancel_terminates_drafts_only:
  assumes "PolicyService_Cancel E (live_service nats) i w = (r, w')"
  shows "spawned w' = spawned w \<and> t_audit (db w') = t_audit (db w) \<and>
    (db w' = db w \<and> r \<noteq> None \<or>
     (\<exists>p q. policy_at (db w) i = Some p \<and> Status p = StatusDraft \<and>
        policy_at (db w') = (policy_at (db w)) (i \<mapsto> q) \<and> Status q = StatusTerminated \<and>
        PolicyNumber q = PolicyNumber p \<and> HolderName q = HolderName p \<and>
        ProductCode q = ProductCode p \<and> CreatedAt q = CreatedAt p))"
  using assms
proof (cases rule: live.Cancel_cases)
  case (written p p' n)
  with policy_at_columns [OF written(5,1)] only_dbD(2) [OF written(4)] show ?thesis
    by (intro conjI disjI2 exI [of _ p] exI [of _ "policy_columns (policy_row E p') p"])
      (simp_all add: policy_columns_def)
next
  case (refused e)
  with unchangedD [OF refused(2)] show ?thesis by simp
qed

theorem cancel_terminates_drafts_only_witness:
  "let (r, w') = PolicyService_Cancel (demo_env []) (live_service None) 7 demo_world
   in r = None \<and> (\<exists>q. policy_at (db w') 7 = Some q \<and> Status q = StatusTerminated) \<and>
      t_audit (db w') = []"
proof -
  let ?run = "PolicyService_Cancel (demo_env []) (live_service None) 7 demo_world"
  have 1: "fst ?run = None" "t_audit (db demo_world) = []" by code_simp+
  obtain r w' where run: "?run = (r, w')" by (cases ?run)
  from cancel_terminates_drafts_only [OF run] 1 run show ?thesis by auto
qed

text \<open>
  C26. When no call fails, cancelling is decided by the status: an unknown policy is
  \<^verbatim>\<open>ErrPolicyNotFound\<close>, one that is no draft is \<^verbatim>\<open>ErrCannotCancel\<close>, and every draft whose
  dates are kept by the columns is cancelled.
\<close>

theorem cancel_decided_by_status:
  assumes "calm E" and "wf_tables (db w)"
    and "\<forall>p \<in> set (t_policies (db w)). env_timestamptz E (EffectiveDate p) < env_timestamptz E (ExpiryDate p)"
  shows "fst (PolicyService_Cancel E (live_service nats) i w) =
    (case policy_at (db w) i of
       None \<Rightarrow> Some (ServiceErr ErrPolicyNotFound)
     | Some p \<Rightarrow> if Status p = StatusDraft then None else Some (ServiceErr ErrCannotCancel))"
proof (cases "policy_at (db w) i")
  case None
  with assms show ?thesis by (simp add: PolicyService_Cancel_def calm_GetByID)
next
  case (Some p)
  let ?p = "p\<lparr>Status := StatusTerminated, UpdatedAt := env_now E (Suc (tick w))\<rparr>"
  have p: "p \<in> set (t_policies (db w))" "ID p = i" using policy_at_Some [OF Some] by simp_all
  then have texts: "text_ok (HolderName p)" "text_ok (ProductCode p)" "text_ok StatusTerminated"
    using assms(2) status_text [of Terminated] by (simp_all add: wf_tables_def policies_checks_None)
  have "policies_checks (policy_columns (policy_row E ?p) q) = None" if "q \<in> set (t_policies (db w))" for q
    using assms(2,3) p texts that by (simp add: wf_tables_def policies_checks_None chk_policy_dates_def
        policies_status_check_def policy_columns_def StatusTerminated_def)
  then have "\<exists>t. update_policies i (policy_columns (policy_row E ?p)) (db w) = Inr t"
    by (simp add: update_policies_Inr)
  with assms(1) Some p(2) texts show ?thesis
    by (auto simp: with_texts_def texts_check_def PolicyService_Cancel_def calm_GetByID time_Now_def PolicyRepo_Update_def calm_Exec)
qed

theorem cancel_decided_by_status_witness:
  "fst (PolicyService_Cancel (demo_env []) (live_service None) 7
      (init_world (empty_tables\<lparr>t_policies := [demo_policy\<lparr>Status := StatusActive\<rparr>]\<rparr>))) =
   Some (ServiceErr ErrCannotCancel)"
proof -
  let ?w = "init_world (empty_tables\<lparr>t_policies := [demo_policy\<lparr>Status := StatusActive\<rparr>]\<rparr>)"
  have 1: "wf_tables (db ?w)" by code_simp
  have 2: "\<forall>p \<in> set (t_policies (db ?w)). floor_micros (EffectiveDate p) < floor_micros (ExpiryDate p)"
    by code_simp
  have 3: "policy_at (db ?w) 7 = Some (demo_policy\<lparr>Status := StatusActive\<rparr>)" by code_simp
  show ?thesis
    using cancel_decided_by_status [OF calm_demo 1, of None 7] 2 3 by (simp add: status_defs)
qed

section \<open>Reading\<close>

text \<open>
  C23. The history of a policy, when it is answered, is that of an existing policy: all its
  committed audit rows and no others, oldest first. Reading changes nothing.
\<close>

theorem history_complete_and_ordered:
  assumes "PolicyService_ListHistory E (live_service nats) i w = (r, w')"
  shows "db w' = db w \<and> spawned w' = spawned w \<and>
    (case r of
       Inl e \<Rightarrow> True
     | Inr ls \<Rightarrow> policy_exists i (db w) \<and>
         mset ls = mset (filter (\<lambda>l. log_PolicyID l = i) (t_audit (db w))) \<and>
         sorted (map OccurredAt ls))"
  using unchangedD [OF live.ListHistory_cases(1) [OF assms]] live.ListHistory_cases(2) [OF assms]
  by (cases r) simp_all

theorem history_complete_and_ordered_witness:
  "let w = snd (PolicyService_Submit (demo_env []) (live_service None) 7 ''alice'' demo_world);
       r = fst (PolicyService_ListHistory (demo_env []) (live_service None) 7 w)
   in \<exists>ls. r = Inr ls \<and> mset ls = mset (filter (\<lambda>l. log_PolicyID l = 7) (t_audit (db w))) \<and> length ls = 1"
proof -
  let ?w = "snd (PolicyService_Submit (demo_env []) (live_service None) 7 ''alice'' demo_world)"
  let ?r = "fst (PolicyService_ListHistory (demo_env []) (live_service None) 7 ?w)"
  have "case ?r of Inl _ \<Rightarrow> False | Inr ls \<Rightarrow> length ls = 1" by code_simp
  then obtain ls where "?r = Inr ls" "length ls = 1" by (cases ?r) simp_all
  with history_complete_and_ordered [OF prod.collapse [symmetric],
      of "demo_env []" None 7 ?w] show ?thesis by simp
qed

end
