(* ===== verification/Requests.thy ===== *)
theory Requests
  imports LiveService "HOL-Library.Sublist"
begin

text \<open>
  Sequences of requests to the live service, one after the other and whatever calls fail. The
  abstract specification is \<open>table_step\<close>: the five things a request can do to the tables.
  Every request refines it (\<open>request_refines\<close>), and the invariants of the tables, of the
  audit trail and of the published events follow by rule induction.
\<close>

section \<open>Requests\<close>

datatype request =
    Req_Create policy string
  | Req_Get uuid
  | Req_List list_params
  | Req_Update uuid policy
  | Req_Cancel uuid
  | Req_Submit uuid string
  | Req_Activate uuid string
  | Req_Reject uuid string string
  | Req_CancelActive uuid string string
  | Req_Expire uuid string
  | Req_History uuid

fun run_request :: "env \<Rightarrow> policy_service \<Rightarrow> request \<Rightarrow> world \<Rightarrow> world" where
  "run_request E s (Req_Create p actor) w = snd (PolicyService_Create E s p actor w)"
| "run_request E s (Req_Get i) w = snd (PolicyService_GetByID E s i w)"
| "run_request E s (Req_List params) w = snd (PolicyService_List E s params w)"
| "run_request E s (Req_Update i upd) w = snd (PolicyService_Update E s i upd w)"
| "run_request E s (Req_Cancel i) w = snd (PolicyService_Cancel E s i w)"
| "run_request E s (Req_Submit i actor) w = snd (PolicyService_Submit E s i actor w)"
| "run_request E s (Req_Activate i actor) w = snd (PolicyService_Activate E s i actor w)"
| "run_request E s (Req_Reject i actor reason) w = snd (PolicyService_Reject E s i actor reason w)"
| "run_request E s (Req_CancelActive i actor reason) w =
     snd (PolicyService_CancelActive E s i actor reason w)"
| "run_request E s (Req_Expire i actor) w = snd (PolicyService_Expire E s i actor w)"
| "run_request E s (Req_History i) w = snd (PolicyService_ListHistory E s i w)"

definition run_requests :: "env \<Rightarrow> policy_service \<Rightarrow> request list \<Rightarrow> world \<Rightarrow> world" where
  "run_requests E s rs w = fold (run_request E s) rs w"

lemma run_requests_simps [simp]:
  "run_requests E s [] w = w"
  "run_requests E s (r # rs) w = run_requests E s rs (run_request E s r w)"
  by (simp_all add: run_requests_def)

section \<open>What a request can do to the tables\<close>

text \<open>The events the service's methods use; there is no method for amend and confirm.\<close>

definition service_events :: "event list" where
  "service_events = [EventSubmit, EventActivate, EventReject, EventCancel, EventExpire]"

inductive table_step :: "tables \<Rightarrow> tables \<Rightarrow> bool" where
  none: "table_step t t"
| created: "insert_policy q t = Inr t' \<Longrightarrow> Status q = StatusDraft \<Longrightarrow> table_step t t'"
| updated: "policy_at t i = Some p \<Longrightarrow> Status q = Status p \<Longrightarrow>
    update_policies i (policy_columns q) t = Inr t' \<Longrightarrow> table_step t t'"
| dropped: "policy_at t i = Some p \<Longrightarrow> Status p = StatusDraft \<Longrightarrow> Status q = StatusTerminated \<Longrightarrow>
    update_policies i (policy_columns q) t = Inr t' \<Longrightarrow> table_step t t'"
| moves: "policy_at t i = Some p \<Longrightarrow> ev \<in> set service_events \<Longrightarrow> Transition (Status p) ev = Inr s' \<Longrightarrow>
    moved i s' at l t t' \<Longrightarrow> records l i (Status p) s' actor reason \<Longrightarrow>
    ev = EventSubmit \<or> reason \<noteq> [] \<Longrightarrow> table_step t t'"

inductive_cases table_stepE: "table_step t t'"

lemma table_step_wf: "table_step t t' \<Longrightarrow> wf_tables t \<Longrightarrow> wf_tables t'"
  by (induction rule: table_step.induct)
    (auto intro: insert_policy.st_wf update_policy.st_wf moved_wf)

section \<open>Refinement\<close>

definition event_backed :: "tables \<Rightarrow> policy_event \<Rightarrow> bool" where
  "event_backed t e \<longleftrightarrow>
     EventType e = EventCreated \<and> policy_exists (ID (ev_Policy e)) t \<or>
     (\<exists>l \<in> set (t_audit t). log_PolicyID l = ID (ev_Policy e) \<and>
        ToStatus l = Status (ev_Policy e) \<and> EventType e = EventTypeForTransition (ToStatus l) \<and>
        ActorID l = ev_Actor e \<and> Reason l = ev_Reason e)"

text \<open>One request: a step of the tables, and the events that step justifies.\<close>

definition request_step :: "env \<Rightarrow> world \<Rightarrow> world \<Rightarrow> bool" where
  "request_step E w w' \<longleftrightarrow>
     txn w' = None \<and> objects w' = objects w \<and> table_step (db w) (db w') \<and>
     (\<exists>es. spawned w' = spawned w @ es \<and> (\<forall>e \<in> set es. event_backed (db w') e))"

lemma request_step_unchanged:
  assumes "unchanged w w'" and "txn w = None"
  shows "request_step E w w'"
  using unchangedD [OF assms(1)] assms(2) by (simp add: request_step_def table_step.none)

lemma request_step_same:
  assumes "db w' = db w" "objects w' = objects w" "txn w' = None" "spawned w' = spawned w"
  shows "request_step E w w'"
  using assms by (simp add: request_step_def table_step.none)

lemma transition_request:
  assumes run: "applyTransition E (live_service nats) i ev actor reason w = (r, w')"
    and idle: "txn w = None" and ev: "ev \<in> set service_events"
    and reason: "ev = EventSubmit \<or> reason \<noteq> []"
  shows "request_step E w w'"
  using run idle
proof (cases rule: live.applyTransition_cases)
  case (completed p s' n l)
  have "table_step (db w) (db w')"
    using completed(2) ev completed(3-5) reason by (rule table_step.moves)
  moreover have "l \<in> set (t_audit (db w'))" using moved_tables(1) [OF completed(4)] by simp
  then have "event_backed (db w') (BuildTransitionEvent E (EventTypeForTransition s')
      (p\<lparr>Status := s', UpdatedAt := n\<rparr>) actor reason)"
    using completed(5) policy_at_Some [OF completed(2)]
    by (auto simp: event_backed_def records_def BuildTransitionEvent_def)
  ultimately show ?thesis
    using completed by (auto simp: request_step_def live_published transition_event_type_eq)
next
  case (unanswered p s' n l e)
  have "table_step (db w) (db w')"
    using unanswered(2) ev unanswered(3-5) reason by (rule table_step.moves)
  with unanswered show ?thesis by (simp add: request_step_def)
next
  case (refused e)
  then show ?thesis by (intro request_step_same)
qed

lemma service_event_simps [simp]:
  "EventSubmit \<in> set service_events" "EventActivate \<in> set service_events"
  "EventReject \<in> set service_events" "EventCancel \<in> set service_events"
  "EventExpire \<in> set service_events"
  by (simp_all add: service_events_def)

lemma reasons_not_empty [simp]:
  "ReasonUnderwriterApproved \<noteq> []" "ReasonUnderwriterRejected \<noteq> []" "ReasonRegulatory \<noteq> []"
  by (simp_all add: ReasonUnderwriterApproved_def ReasonUnderwriterRejected_def ReasonRegulatory_def)

lemma create_request:
  assumes "PolicyService_Create E (live_service nats) p actor w = (r, w')" and "txn w = None"
  shows "request_step E w w'"
  using assms(1)
proof (cases rule: live.Create_cases)
  case (stored p' u n)
  have "table_step (db w) (db w')" using stored(4) by (rule table_step.created) (simp add: stored(3))
  moreover have "policy_exists (ID p') (db w')"
    using policy_at_inserted(1) [OF stored(4)] policy_at_None [of "db w'" "ID p'"] by simp
  then have "event_backed (db w') (BuildTransitionEvent E ''created'' p' actor [])"
    by (simp add: event_backed_def BuildTransitionEvent_def EventCreated_def)
  ultimately show ?thesis using stored assms(2) by (auto simp: request_step_def live_published)
next
  case (unanswered p' u n e)
  have "table_step (db w) (db w')"
    using unanswered(4) by (rule table_step.created) (simp add: unanswered(3))
  with only_dbD [OF unanswered(5)] assms(2) show ?thesis by (simp add: request_step_def)
next
  case (refused e)
  then show ?thesis using assms(2) by (intro request_step_unchanged)
qed

lemma update_request:
  assumes "PolicyService_Update E (live_service nats) i upd w = (r, w')" and "txn w = None"
  shows "request_step E w w'"
  using assms(1)
proof (cases rule: live.Update_cases)
  case (stored p p' n)
  have "table_step (db w) (db w')"
    using stored(2) _ stored(6) by (rule table_step.updated) (simp add: stored(3))
  with only_dbD [OF stored(5)] assms(2) show ?thesis by (simp add: request_step_def)
next
  case (unanswered p p' n e)
  have "table_step (db w) (db w')"
    using unanswered(2) _ unanswered(6) by (rule table_step.updated) (simp add: unanswered(3))
  with only_dbD [OF unanswered(5)] assms(2) show ?thesis by (simp add: request_step_def)
next
  case (refused e)
  then show ?thesis using assms(2) by (intro request_step_unchanged)
qed

lemma cancel_request:
  assumes "PolicyService_Cancel E (live_service nats) i w = (r, w')" and "txn w = None"
  shows "request_step E w w'"
  using assms(1)
proof (cases rule: live.Cancel_cases)
  case (written p p' n)
  have "table_step (db w) (db w')"
    using written(1,2) _ written(5) by (rule table_step.dropped) (simp add: written(3))
  with only_dbD [OF written(4)] assms(2) show ?thesis by (simp add: request_step_def)
next
  case (refused e)
  then show ?thesis using assms(2) by (intro request_step_unchanged)
qed

lemma read_requests:
  assumes "txn w = None"
  shows "request_step E w (snd (PolicyService_GetByID E (live_service nats) i w))"
    and "request_step E w (snd (PolicyService_List E (live_service nats) params w))"
    and "request_step E w (snd (PolicyService_ListHistory E (live_service nats) i w))"
proof -
  show "request_step E w (snd (PolicyService_GetByID E (live_service nats) i w))"
    using live.GetByID_cases [OF prod.collapse [symmetric]] request_step_unchanged assms by metis
  show "request_step E w (snd (PolicyService_ListHistory E (live_service nats) i w))"
    using live.ListHistory_cases(1) [OF prod.collapse [symmetric]] request_step_unchanged assms
    by metis
  have "unchanged w (snd (PolicyRepo_List E params w))"
    using PolicyRepo_List_unchanged [OF prod.collapse [symmetric]] .
  then show "request_step E w (snd (PolicyService_List E (live_service nats) params w))"
    using assms by (simp add: PolicyService_List_def request_step_unchanged)
qed

lemma request_refines:
  assumes "txn w = None"
  shows "request_step E w (run_request E (live_service nats) r w)"
proof -
  note tr = transition_request [OF prod.collapse [symmetric] assms]
  note defs = PolicyService_Submit_def PolicyService_Activate_def PolicyService_Reject_def
    PolicyService_CancelActive_def PolicyService_Expire_def
  show ?thesis
  proof (cases r)
    case (Req_Create p actor)
    then show ?thesis using create_request [OF prod.collapse [symmetric] assms] by simp
  next
    case (Req_Update i upd)
    then show ?thesis using update_request [OF prod.collapse [symmetric] assms] by simp
  next
    case (Req_Cancel i)
    then show ?thesis using cancel_request [OF prod.collapse [symmetric] assms] by simp
  qed (use assms read_requests tr in \<open>simp_all add: defs request_step_unchanged\<close>)
qed

section \<open>Invariants\<close>

definition legal_move :: "policy_status \<Rightarrow> policy_status \<Rightarrow> bool" where
  "legal_move s s' \<longleftrightarrow> (\<exists>a \<in> set all_actions. Transition s (event_of a) = Inr s')"

lemma Transition_legal: "Transition s ev = Inr s' \<Longrightarrow> legal_move s s'"
  by (auto elim!: Transition_cases simp: legal_move_def intro: advances_Transition)

text \<open>Audit rows that lead from one status to another, each a legal move.\<close>

fun audit_path :: "policy_status \<Rightarrow> audit_log list \<Rightarrow> policy_status \<Rightarrow> bool" where
  "audit_path s [] s' \<longleftrightarrow> s = s'"
| "audit_path s (l # ls) s' \<longleftrightarrow>
     FromStatus l = s \<and> legal_move s (ToStatus l) \<and> audit_path (ToStatus l) ls s'"

lemma audit_path_snoc:
  "audit_path s (ls @ [l]) s' \<longleftrightarrow>
     audit_path s ls (FromStatus l) \<and> legal_move (FromStatus l) (ToStatus l) \<and> ToStatus l = s'"
  by (induction ls arbitrary: s) auto

definition history_of :: "tables \<Rightarrow> uuid \<Rightarrow> audit_log list" where
  "history_of t i = filter (\<lambda>l. log_PolicyID l = i) (t_audit t)"

definition explained :: "policy \<Rightarrow> audit_log list \<Rightarrow> bool" where
  "explained p ls \<longleftrightarrow> audit_path StatusDraft ls (Status p) \<or> Status p = StatusTerminated \<and> ls = []"

definition audit_explains :: "tables \<Rightarrow> bool" where
  "audit_explains t \<longleftrightarrow> (\<forall>p \<in> set (t_policies t). explained p (history_of t (ID p)))"

lemma audit_explains_at:
  assumes "wf_tables t"
  shows "audit_explains t \<longleftrightarrow> (\<forall>i p. policy_at t i = Some p \<longrightarrow> explained p (history_of t i))"
  using assms policy_at_mem policy_at_Some unfolding audit_explains_def by metis

lemma legal_move_not_to_draft: "legal_move s StatusDraft \<Longrightarrow> False"
  by (auto simp: legal_move_def all_actions_def Transition_def transitionTable_unfold status_defs
      event_defs split: if_splits)

lemma draft_has_no_history: "audit_path s ls StatusDraft \<Longrightarrow> ls = [] \<and> s = StatusDraft"
proof (induction ls rule: rev_induct)
  case (snoc l ls)
  then show ?case using legal_move_not_to_draft by (auto simp: audit_path_snoc)
qed simp

lemma history_of_moved:
  assumes "moved i s at l t t'" and "records l i s0 s actor reason"
  shows "history_of t' j = (if j = i then history_of t i @ [l] else history_of t j)"
  using moved_tables(1) [OF assms(1)] assms(2) by (simp add: history_of_def records_def)

lemma no_policy_no_history: "wf_tables t \<Longrightarrow> policy_at t i = None \<Longrightarrow> history_of t i = []"
  by (auto simp: history_of_def wf_tables_def policy_at_None filter_empty_conv)

lemma explained_status: "explained p ls \<Longrightarrow> Status q = Status p \<Longrightarrow> explained q ls"
  by (simp add: explained_def)

lemma explained_draft: "explained p ls \<Longrightarrow> Status p = StatusDraft \<Longrightarrow> ls = []"
  using draft_has_no_history by (auto simp: explained_def status_defs)

lemma explained_move:
  assumes "explained p ls" and "Transition (Status p) ev = Inr s'"
    and "FromStatus l = Status p" and "ToStatus l = s'"
  shows "explained (p\<lparr>Status := s', UpdatedAt := at\<rparr>) (ls @ [l])"
proof -
  have "Status p \<noteq> StatusTerminated"
    using assms(2) by (auto elim!: Transition_cases advances_from simp: status_defs)
  with assms show ?thesis
    by (auto simp: explained_def audit_path_snoc intro: Transition_legal)
qed

lemma explains_step:
  assumes "table_step t t'" and "wf_tables t" and "audit_explains t"
  shows "audit_explains t'"
proof -
  have old: "explained p (history_of t i)" if "policy_at t i = Some p" for i p
    using assms(2,3) that audit_explains_at by blast
  have "explained p' (history_of t' j)" if at': "policy_at t' j = Some p'" for j p'
    using assms(1)
  proof cases
    case none
    with old at' show ?thesis by simp
  next
    case (created q)
    note ins = policy_at_inserted [OF created(1)]
    have "history_of t' j = history_of t j" using ins(4) by (simp add: history_of_def)
    with ins at' created(2) old no_policy_no_history [OF assms(2) ins(2)] show ?thesis
      by (auto simp: explained_def split: if_splits)
  next
    case (updated i p q)
    note upd = policy_at_columns [OF updated(3,1)]
    have "history_of t' j = history_of t j" using upd(2) by (simp add: history_of_def)
    with upd at' updated old [of j] show ?thesis
      by (auto simp: policy_columns_def intro: explained_status split: if_splits)
  next
    case (dropped i p q)
    note upd = policy_at_columns [OF dropped(4,1)]
    have "history_of t' j = history_of t j" using upd(2) by (simp add: history_of_def)
    with upd at' dropped old [of j] explained_draft show ?thesis
      by (auto simp: policy_columns_def explained_def split: if_splits)
  next
    case (moves i p ev s' at l actor reason)
    with at' old moved_map [OF moves(4,1)] history_of_moved [OF moves(4,5)]
    show ?thesis
      by (auto simp: records_def intro: explained_move split: if_splits)
  qed
  then show ?thesis using audit_explains_at [OF table_step_wf [OF assms(1,2)]] by blast
qed

text \<open>Every audit row but that of a submission has a reason, and every row is a legal move.\<close>

definition audit_rows_ok :: "tables \<Rightarrow> bool" where
  "audit_rows_ok t \<longleftrightarrow> (\<forall>l \<in> set (t_audit t).
     legal_move (FromStatus l) (ToStatus l) \<and> (ToStatus l = StatusSubmitted \<or> Reason l \<noteq> []))"

lemma submit_submits: "Transition s EventSubmit = Inr s' \<Longrightarrow> s' = StatusSubmitted"
  by (auto elim!: Transition_cases advances_from simp: event_defs)

lemma audit_rows_step:
  assumes "table_step t t'" and "audit_rows_ok t"
  shows "audit_rows_ok t'"
  using assms(1)
proof cases
  case (moves i p ev s' at l actor reason)
  then have "legal_move (FromStatus l) (ToStatus l) \<and> (ToStatus l = StatusSubmitted \<or> Reason l \<noteq> [])"
    using submit_submits Transition_legal by (auto simp: records_def)
  with assms(2) moved_tables(1) [OF moves(4)] show ?thesis by (auto simp: audit_rows_ok_def)
qed (use assms(2) in \<open>auto simp: audit_rows_ok_def insert_policy_Inr update_policies_Inr\<close>)

text \<open>The stages the requests can bring a policy to.\<close>

definition reached_statuses :: "policy_status list" where
  "reached_statuses = [StatusDraft, StatusSubmitted, StatusActive, StatusRejected, StatusCancelled,
     StatusExpired, StatusTerminated]"

definition statuses_reached :: "tables \<Rightarrow> bool" where
  "statuses_reached t \<longleftrightarrow> (\<forall>p \<in> set (t_policies t). Status p \<in> set reached_statuses)"

lemma service_event_reaches:
  "ev \<in> set service_events \<Longrightarrow> Transition s ev = Inr s' \<Longrightarrow> s' \<in> set reached_statuses"
  by (auto elim!: Transition_cases advances_from simp: service_events_def reached_statuses_def)
    (simp_all add: event_defs status_defs)

lemma statuses_step:
  assumes "table_step t t'" and "statuses_reached t"
  shows "statuses_reached t'"
proof -
  have base: "StatusDraft \<in> set reached_statuses" "StatusTerminated \<in> set reached_statuses"
    by (simp_all add: reached_statuses_def)
  have old: "policy_at t i = Some p \<Longrightarrow> Status p \<in> set reached_statuses" for i p
    using assms(2) policy_at_Some by (fastforce simp: statuses_reached_def)
  show ?thesis
    using assms(1)
  proof cases
    case (moves i p ev s' at l actor reason)
    then show ?thesis
      using assms(2) moved_tables(2) [OF moves(4)] service_event_reaches [OF moves(2,3)]
      by (auto simp: statuses_reached_def set_update_where status_columns_def)
  qed (use assms(2) base old in
      \<open>auto simp: statuses_reached_def insert_policy_Inr update_policies_Inr set_update_where policy_columns_def\<close>)
qed

section \<open>Nothing is lost\<close>

definition extends :: "tables \<Rightarrow> tables \<Rightarrow> bool" where
  "extends t t' \<longleftrightarrow> prefix (t_audit t) (t_audit t') \<and>
     (\<forall>p \<in> set (t_policies t). \<exists>p' \<in> set (t_policies t').
        ID p' = ID p \<and> PolicyNumber p' = PolicyNumber p \<and> CreatedAt p' = CreatedAt p)"

lemma extends_refl: "extends t t"
  by (auto simp: extends_def)

lemma extends_trans: "extends t t' \<Longrightarrow> extends t' t'' \<Longrightarrow> extends t t''"
  unfolding extends_def by (meson prefix_order.trans order_trans) metis

lemma extends_update:
  assumes "t_policies t' = update_where P f (t_policies t)" and "keeps_keys f"
    and "\<And>p. CreatedAt (f p) = CreatedAt p" and "prefix (t_audit t) (t_audit t')"
  shows "extends t t'"
proof -
  have "\<exists>p' \<in> set (t_policies t'). ID p' = ID p \<and> PolicyNumber p' = PolicyNumber p \<and>
      CreatedAt p' = CreatedAt p" if "p \<in> set (t_policies t)" for p
    using that assms(1-3)
    by (intro bexI [of _ "if P p then f p else p"]) (auto simp: keeps_keysD set_update_where)
  with assms(4) show ?thesis by (simp add: extends_def)
qed

lemma extends_step: "table_step t t' \<Longrightarrow> extends t t'"
proof (induction rule: table_step.induct)
  case (none t)
  then show ?case by (rule extends_refl)
next
  case (created q t t')
  then show ?case by (auto simp: extends_def insert_policy_Inr)
next
  case (updated t i p q t')
  then show ?case
    by (intro extends_update [where f = "policy_columns q"])
      (auto simp: update_policies_Inr policy_columns_def)
next
  case (dropped t i p q t')
  then show ?case
    by (intro extends_update [where f = "policy_columns q"])
      (auto simp: update_policies_Inr policy_columns_def)
next
  case (moves t i p ev s' at l t' actor reason)
  with moved_tables(1,2) [OF moves(4)] show ?case
    by (intro extends_update [where f = "status_columns s' at"]) (auto simp: status_columns_def)
qed

lemma event_backed_extends:
  assumes "event_backed t e" and "extends t t'"
  shows "event_backed t' e"
proof -
  have sub: "set (t_audit t) \<subseteq> set (t_audit t')"
    using assms(2) by (simp add: extends_def set_mono_prefix)
  have kept: "policy_exists i t'" if "policy_exists i t" for i
    using that assms(2) by (fastforce simp: policy_exists_def extends_def)
  from assms(1) consider "EventType e = EventCreated" "policy_exists (ID (ev_Policy e)) t"
    | l where "l \<in> set (t_audit t)" "log_PolicyID l = ID (ev_Policy e)"
        "ToStatus l = Status (ev_Policy e)" "EventType e = EventTypeForTransition (ToStatus l)"
        "ActorID l = ev_Actor e" "Reason l = ev_Reason e"
    unfolding event_backed_def by blast
  then show ?thesis
    using sub kept by cases (auto simp: event_backed_def intro!: disjI2 bexI)
qed

section \<open>Sequences of requests\<close>

definition table_invariant :: "tables \<Rightarrow> bool" where
  "table_invariant t \<longleftrightarrow>
     wf_tables t \<and> audit_explains t \<and> audit_rows_ok t \<and> statuses_reached t"

lemma table_invariant_step: "table_step t t' \<Longrightarrow> table_invariant t \<Longrightarrow> table_invariant t'"
  by (simp add: table_invariant_def table_step_wf explains_step audit_rows_step statuses_step)

lemma table_invariant_empty: "table_invariant empty_tables"
  by (simp add: table_invariant_def wf_tables_def audit_explains_def audit_rows_ok_def
      statuses_reached_def empty_tables_def)

text \<open>What holds of one request and is kept from one to the next holds of a sequence.\<close>

lemma run_requests_keep:
  assumes "txn w = None"
    and "\<And>w w'. request_step E w w' \<Longrightarrow> txn w = None \<Longrightarrow> P w \<Longrightarrow> P w'" and "P w"
  shows "txn (run_requests E (live_service nats) rs w) = None \<and>
    P (run_requests E (live_service nats) rs w)"
  using assms(1,3)
proof (induction rs arbitrary: w)
  case Nil
  then show ?case by simp
next
  case (Cons r rs)
  have step: "request_step E w (run_request E (live_service nats) r w)"
    using Cons.prems(1) by (rule request_refines)
  then have "txn (run_request E (live_service nats) r w) = None" by (simp add: request_step_def)
  with Cons step assms(2) show ?case by simp
qed

lemma run_requests_steps:
  assumes "txn w = None" and "\<And>t t'. table_step t t' \<Longrightarrow> Q t \<Longrightarrow> Q t'" and "Q (db w)"
  shows "Q (db (run_requests E (live_service nats) rs w))"
proof -
  have "Q (db v')" if "request_step E v v'" "Q (db v)" for v v'
    using assms(2) that by (auto simp: request_step_def)
  then show ?thesis using run_requests_keep [of w E "\<lambda>v. Q (db v)"] assms(1,3) by blast
qed

lemma run_from_empty:
  "table_invariant (db (run_requests E (live_service nats) rs (init_world empty_tables)))"
  by (rule run_requests_steps)
    (auto simp: init_world_def table_invariant_empty intro: table_invariant_step)

section \<open>Properties\<close>

text \<open>
  C2. Whatever requests come in and whatever calls fail, a database that starts empty always
  explains the status of each of its policies by its audit trail: the audit rows of the policy,
  in the order of their insertion, lead from draft to its status over legal moves, each row
  taking up where the one before ended. The only other case is a policy that was cancelled as
  a draft, which is terminated and has no audit row.
\<close>

theorem audit_trail_explains_status:
  "\<forall>p \<in> set (t_policies (db (run_requests E (live_service nats) rs (init_world empty_tables)))).
     let trail = filter (\<lambda>l. log_PolicyID l = ID p)
       (t_audit (db (run_requests E (live_service nats) rs (init_world empty_tables))))
     in audit_path StatusDraft trail (Status p) \<or> Status p = StatusTerminated \<and> trail = []"
  using run_from_empty [of E nats rs]
  by (simp add: table_invariant_def audit_explains_def explained_def history_of_def Let_def)

theorem audit_trail_explains_status_witness:
  "let w = run_requests (demo_env []) (live_service None)
       [Req_Create demo_policy ''alice'', Req_Submit 0 ''alice'', Req_Activate 0 ''bob''] (init_world empty_tables)
   in map Status (t_policies (db w)) = [StatusActive] \<and> map ToStatus (t_audit (db w)) = [StatusSubmitted, StatusActive] \<and>
      audit_path StatusDraft (t_audit (db w)) StatusActive"
proof -
  let ?w = "run_requests (demo_env []) (live_service None)
       [Req_Create demo_policy ''alice'', Req_Submit 0 ''alice'', Req_Activate 0 ''bob''] (init_world empty_tables)"
  have 1: "map Status (t_policies (db ?w)) = [StatusActive]"
    "map ToStatus (t_audit (db ?w)) = [StatusSubmitted, StatusActive]" by code_simp+
  have "\<forall>p \<in> set (t_policies (db ?w)). filter (\<lambda>l. log_PolicyID l = ID p) (t_audit (db ?w)) = t_audit (db ?w)"
    by code_simp
  moreover obtain p where "t_policies (db ?w) = [p]" "Status p = StatusActive" using 1(1) by auto
  moreover have "t_audit (db ?w) \<noteq> []" using 1(2) by auto
  ultimately have "audit_path StatusDraft (t_audit (db ?w)) StatusActive"
    using audit_trail_explains_status [of "demo_env []" None
       "[Req_Create demo_policy ''alice'', Req_Submit 0 ''alice'', Req_Activate 0 ''bob'']"]
    by (simp add: Let_def)
  with 1 show ?thesis by simp
qed

text \<open>
  C5. The audit log is append-only and policies are for ever: after any sequence of requests,
  whatever fails, the old audit rows are a prefix of the new ones, and every policy is still
  there with its id, its number and its creation time. The constraints of the database hold
  again if they held before.
\<close>

theorem nothing_is_ever_lost:
  assumes "txn w = None" and "wf_tables (db w)"
    and "w' = run_requests E (live_service nats) rs w"
  shows "prefix (t_audit (db w)) (t_audit (db w')) \<and> wf_tables (db w') \<and> txn w' = None \<and>
    (\<forall>p \<in> set (t_policies (db w)). \<exists>p'. policy_at (db w') (ID p) = Some p' \<and>
       PolicyNumber p' = PolicyNumber p \<and> CreatedAt p' = CreatedAt p)"
proof -
  have "extends (db w) (db w')"
    unfolding assms(3)
    by (rule run_requests_steps [where Q = "extends (db w)"])
      (auto intro: assms(1) extends_refl extends_trans extends_step)
  moreover have wf: "wf_tables (db w')"
    unfolding assms(3) using assms(1) _ assms(2) by (rule run_requests_steps) (rule table_step_wf)
  moreover have "txn w' = None"
    unfolding assms(3) using run_requests_keep [OF assms(1), of E "\<lambda>_. True"] by simp
  ultimately show ?thesis using policy_at_mem [OF wf] unfolding extends_def by metis
qed

theorem nothing_is_ever_lost_witness:
  "let w' = run_requests (demo_env [(1, Fault ''x'' True)]) (live_service None)
       [Req_Update 7 (demo_policy\<lparr>HolderName := ''Grace''\<rparr>), Req_Cancel 7] demo_world
   in \<exists>p'. policy_at (db w') 7 = Some p' \<and> PolicyNumber p' = ''P-7'' \<and> CreatedAt p' = 0"
proof -
  let ?w = "run_requests (demo_env [(1, Fault ''x'' True)]) (live_service None)
       [Req_Update 7 (demo_policy\<lparr>HolderName := ''Grace''\<rparr>), Req_Cancel 7] demo_world"
  have 1: "txn demo_world = None" "wf_tables (db demo_world)" by code_simp+
  have 2: "t_policies (db demo_world) = [demo_policy]" by code_simp
  show ?thesis using nothing_is_ever_lost [OF 1 refl, of "demo_env [(1, Fault ''x'' True)]" None
      "[Req_Update 7 (demo_policy\<lparr>HolderName := ''Grace''\<rparr>), Req_Cancel 7]"]
    by (simp add: 2 demo_policy_def Let_def)
qed

text \<open>
  C6. There are no phantom events: every event handed to the publisher announces a policy that is
  committed, or a transition that is committed with an audit row for the same policy, status,
  actor and reason. An event is published only after its transaction.
\<close>

theorem no_phantom_events:
  "\<forall>e \<in> set (spawned (run_requests E (live_service nats) rs (init_world empty_tables))).
     EventType e = EventCreated \<and>
       policy_exists (ID (ev_Policy e)) (db (run_requests E (live_service nats) rs (init_world empty_tables))) \<or>
     (\<exists>l \<in> set (t_audit (db (run_requests E (live_service nats) rs (init_world empty_tables)))).
        log_PolicyID l = ID (ev_Policy e) \<and> ToStatus l = Status (ev_Policy e) \<and>
        EventType e = EventTypeForTransition (ToStatus l) \<and>
        ActorID l = ev_Actor e \<and> Reason l = ev_Reason e)"
proof -
  have keep: "\<forall>e \<in> set (spawned w'). event_backed (db w') e"
    if "request_step E w w'" "\<forall>e \<in> set (spawned w). event_backed (db w) e" for w w'
  proof -
    from that(1) have "extends (db w) (db w')" by (simp add: request_step_def extends_step)
    moreover from that(1) obtain es where "spawned w' = spawned w @ es"
        "\<forall>e \<in> set es. event_backed (db w') e"
      by (auto simp: request_step_def)
    ultimately show ?thesis using that(2) event_backed_extends by auto
  qed
  have "\<forall>e \<in> set (spawned (run_requests E (live_service nats) rs (init_world empty_tables))).
      event_backed (db (run_requests E (live_service nats) rs (init_world empty_tables))) e"
    using run_requests_keep [of "init_world empty_tables" E
        "\<lambda>w. \<forall>e \<in> set (spawned w). event_backed (db w) e"] keep
    by (simp add: init_world_def)
  then show ?thesis by (simp add: event_backed_def)
qed

theorem no_phantom_events_witness:
  "let w = run_requests (demo_env []) (live_service (Some True))
       [Req_Create demo_policy ''alice'', Req_Submit 0 ''alice''] (init_world empty_tables)
   in map EventType (spawned w) = [''created'', ''submitted''] \<and>
      (\<forall>e \<in> set (spawned w). EventType e = EventCreated \<or> (\<exists>l \<in> set (t_audit (db w)). ActorID l = ev_Actor e))"
proof -
  let ?w = "run_requests (demo_env []) (live_service (Some True))
       [Req_Create demo_policy ''alice'', Req_Submit 0 ''alice''] (init_world empty_tables)"
  have "map EventType (spawned ?w) = [''created'', ''submitted'']" by code_simp
  then show ?thesis
    using no_phantom_events [of "demo_env []" "Some True" "[Req_Create demo_policy ''alice'', Req_Submit 0 ''alice'']"]
    unfolding Let_def by blast
qed

text \<open>
  C25. Every audit row is a legal move of the lifecycle, and every one but that of a submission
  carries a reason. The requests never bring a policy to amended or suspended.
\<close>

theorem audit_rows_have_reasons:
  "(\<forall>l \<in> set (t_audit (db (run_requests E (live_service nats) rs (init_world empty_tables)))).
      (\<exists>g a h. FromStatus l = status_of g \<and> ToStatus l = status_of h \<and> advances g a h) \<and>
      (ToStatus l = StatusSubmitted \<or> Reason l \<noteq> [])) \<and>
   (\<forall>p \<in> set (t_policies (db (run_requests E (live_service nats) rs (init_world empty_tables)))).
      Status p \<noteq> StatusAmended \<and> Status p \<noteq> StatusSuspended)"
proof -
  have "\<exists>g a h. s = status_of g \<and> s' = status_of h \<and> advances g a h" if "legal_move s s'" for s s'
    using that unfolding legal_move_def by (auto elim!: Transition_cases)
  moreover have "s \<noteq> StatusAmended \<and> s \<noteq> StatusSuspended" if "s \<in> set reached_statuses" for s
    using that by (auto simp: reached_statuses_def status_defs)
  ultimately show ?thesis
    using run_from_empty [of E nats rs]
    by (simp add: table_invariant_def audit_rows_ok_def statuses_reached_def)
qed

theorem audit_rows_have_reasons_witness:
  "let w = run_requests (demo_env []) (live_service None)
       [Req_Create demo_policy ''alice'', Req_Submit 0 ''alice'', Req_Reject 0 ''bob'' []] (init_world empty_tables)
   in map ToStatus (t_audit (db w)) = [StatusSubmitted, StatusRejected] \<and> Reason (last (t_audit (db w))) \<noteq> []"
proof -
  let ?w = "run_requests (demo_env []) (live_service None)
       [Req_Create demo_policy ''alice'', Req_Submit 0 ''alice'', Req_Reject 0 ''bob'' []] (init_world empty_tables)"
  have 1: "map ToStatus (t_audit (db ?w)) = [StatusSubmitted, StatusRejected]" by code_simp
  then obtain a b where "t_audit (db ?w) = [a, b]" "ToStatus b = StatusRejected" by auto
  with 1 show ?thesis
    using audit_rows_have_reasons [of "demo_env []" None
      "[Req_Create demo_policy ''alice'', Req_Submit 0 ''alice'', Req_Reject 0 ''bob'' []]"]
    by (simp add: Let_def status_defs)
qed

end
