(* ===== verification/Documents.thy ===== *)
theory Documents
  imports Attestation Requests
begin

text \<open>
  Policy documents: the object store of \<^verbatim>\<open>documents/minio_store.go\<close>, the document service of
  \<^verbatim>\<open>domain/document_service.go\<close> and the adapter of \<^verbatim>\<open>generator_func.go\<close>. The MinIO client is
  outside the sources: putting an object adds it to the objects of the world, unless the call
  fails, and a pass of the lifecycle rule the service sets takes objects away that are old enough
  (\<open>expire_objects\<close>); the URL the client signs is an argument, as is \<^verbatim>\<open>url.Parse\<close>.
\<close>

section \<open>The object store\<close>

definition Bucket :: string where "Bucket = ''policy-documents''"
definition bucketLifeYears :: int where "bucketLifeYears = 7"

record url =
  url_Scheme :: string
  url_Host :: string
  url_Rest :: string

definition url_String :: "url \<Rightarrow> string" where
  "url_String u = url_Scheme u @ ''://'' @ url_Host u @ url_Rest u"

record minio_store =
  ms_sign :: "nat \<Rightarrow> string \<Rightarrow> string \<Rightarrow> duration \<Rightarrow> url"
  ms_url_Parse :: "string \<Rightarrow> url option"
  ms_urlTTL :: duration
  ms_publicURL :: string

text \<open>An object that is put replaces one with the same key.\<close>

definition put_object :: "string \<Rightarrow> bytes \<Rightarrow> (string \<times> bytes) list \<Rightarrow> (string \<times> bytes) list" where
  "put_object key data objs = (key, data) # filter (\<lambda>ob. fst ob \<noteq> key) objs"

definition PutObject :: "env \<Rightarrow> string \<Rightarrow> bytes \<Rightarrow> world \<Rightarrow> error option \<times> world" where
  "PutObject E key data w =
     (case call E w of
        (None, w1) \<Rightarrow> (None, w1\<lparr>objects := put_object key data (objects w1)\<rparr>)
      | (Some f, w1) \<Rightarrow>
          (Some (Plain (fault_text f)),
           if fault_applied f then w1\<lparr>objects := put_object key data (objects w1)\<rparr> else w1))"

definition PresignedGetObject ::
    "env \<Rightarrow> minio_store \<Rightarrow> string \<Rightarrow> world \<Rightarrow> (error + url) \<times> world" where
  "PresignedGetObject E s key w =
     (case call E w of
        (None, w1) \<Rightarrow> (Inr (ms_sign s (tick w) Bucket key (ms_urlTTL s)), w1)
      | (Some f, w1) \<Rightarrow> (Inl (Plain (fault_text f)), w1))"

definition presign :: "env \<Rightarrow> minio_store \<Rightarrow> string \<Rightarrow> world \<Rightarrow> (error + string) \<times> world" where
  "presign E s key w =
     (case PresignedGetObject E s key w of
        (Inl e, w1) \<Rightarrow> (Inl (Errorf ''minio presign: '' e []), w1)
      | (Inr u, w1) \<Rightarrow>
          (Inr (url_String
             (if ms_publicURL s \<noteq> []
              then (case ms_url_Parse s (ms_publicURL s) of
                      Some base \<Rightarrow> u\<lparr>url_Scheme := url_Scheme base, url_Host := url_Host base\<rparr>
                    | None \<Rightarrow> u)
              else u)), w1))"

text \<open>The layout \<^verbatim>\<open>20060102150405\<close>.\<close>

definition format_stamp :: "time \<Rightarrow> string" where
  "format_stamp t =
     (let (y, m, d) = civil_of_days (t div nanos_per_day);
          sec = (t mod nanos_per_day) div nanos_per_second
      in appendInt y 4 @ appendInt m 2 @ appendInt d 2 @
         appendInt (sec div 3600) 2 @ appendInt (sec div 60 mod 60) 2 @ appendInt (sec mod 60) 2)"

definition attestation_key :: "env \<Rightarrow> uuid \<Rightarrow> time \<Rightarrow> string" where
  "attestation_key E policyID now =
     ''policies/'' @ env_uuid_String E policyID @ ''/attestation-'' @ format_stamp now @ ''.pdf''"

definition MinIOStore_Upload ::
    "minio_store \<Rightarrow> env \<Rightarrow> uuid \<Rightarrow> bytes \<Rightarrow> world \<Rightarrow> (error + string \<times> string) \<times> world" where
  "MinIOStore_Upload s E policyID data w =
     (case time_Now E w of (now, w1) \<Rightarrow>
        (let key = attestation_key E policyID now
         in case PutObject E key data w1 of
              (Some e, w2) \<Rightarrow> (Inl (Errorf ''minio put: '' e []), w2)
            | (None, w2) \<Rightarrow>
                (case presign E s key w2 of
                   (Inl e, w3) \<Rightarrow> (Inl e, w3)
                 | (Inr presigned, w3) \<Rightarrow> (Inr (key, presigned), w3))))"

definition MinIOStore_PresignKey ::
    "minio_store \<Rightarrow> env \<Rightarrow> string \<Rightarrow> world \<Rightarrow> (error + string) \<times> world" where
  "MinIOStore_PresignKey s E key w = presign E s key w"

definition MinIOStore :: "minio_store \<Rightarrow> document_storer" where
  "MinIOStore s = \<lparr>store_Upload = MinIOStore_Upload s, store_PresignKey = MinIOStore_PresignKey s\<rparr>"

section \<open>Connecting to the store\<close>

record lifecycle_rule =
  rule_ID :: string
  rule_Status :: string
  Expiration_Days :: int

datatype bucket_call =
    BucketExists string
  | MakeBucket string
  | SetBucketLifecycle string "lifecycle_rule list"

definition retention_rules :: "lifecycle_rule list" where
  "retention_rules = [\<lparr>rule_ID = ''acpr-7yr-retention'', rule_Status = ''Enabled'',
     Expiration_Days = bucketLifeYears * 365\<rparr>]"

text \<open>
  What the server does with these rules, in its own time: a pass at the instant \<open>now\<close> deletes
  objects that were put at least as many days ago as a rule says. An object is named here by the
  policy and the instant of its upload; which of the old ones a pass gets to is up to the server.
\<close>

definition expires :: "env \<Rightarrow> time \<Rightarrow> (uuid \<times> time) list \<Rightarrow> string \<Rightarrow> bool" where
  "expires E now its key \<longleftrightarrow> list_ex (\<lambda>(i, t). key = attestation_key E i t \<and>
     list_ex (\<lambda>rule. t + Expiration_Days rule * nanos_per_day \<le> now) retention_rules) its"

definition expire_objects :: "env \<Rightarrow> time \<Rightarrow> (uuid \<times> time) list \<Rightarrow> world \<Rightarrow> world" where
  "expire_objects E now its w =
     w\<lparr>objects := filter (\<lambda>ob. \<not> expires E now its (fst ob)) (objects w)\<rparr>"

lemma expires_after:
  "expires E now its key \<longleftrightarrow>
     (\<exists>(i, t) \<in> set its. key = attestation_key E i t \<and> t + 2555 * nanos_per_day \<le> now)"
  by (auto simp: expires_def retention_rules_def bucketLifeYears_def list_ex_iff)

text \<open>
  \<open>ensureBucket\<close> with the answers of the client: its result and the calls it makes. The error of
  \<^verbatim>\<open>SetBucketLifecycle\<close> is dropped.
\<close>

definition ensureBucket ::
    "error + bool \<Rightarrow> error option \<Rightarrow> error option \<Rightarrow> error option \<times> bucket_call list" where
  "ensureBucket exists made set_lifecycle =
     (case exists of
        Inl e \<Rightarrow> (Some (Errorf ''minio bucket check: '' e []), [BucketExists Bucket])
      | Inr True \<Rightarrow> (None, [BucketExists Bucket, SetBucketLifecycle Bucket retention_rules])
      | Inr False \<Rightarrow>
          (case made of
             Some e \<Rightarrow>
               (Some (Errorf ''minio make bucket: '' e []), [BucketExists Bucket, MakeBucket Bucket])
           | None \<Rightarrow>
               (None, [BucketExists Bucket, MakeBucket Bucket,
                 SetBucketLifecycle Bucket retention_rules])))"

definition NewMinIOStore ::
    "error + minio_store \<Rightarrow> error + bool \<Rightarrow> error option \<Rightarrow> error option \<Rightarrow> duration \<Rightarrow> string \<Rightarrow>
      error + minio_store" where
  "NewMinIOStore client exists made set_lifecycle urlTTL publicURL =
     (case client of
        Inl e \<Rightarrow> Inl (Errorf ''minio client: '' e [])
      | Inr c \<Rightarrow>
          (case fst (ensureBucket exists made set_lifecycle) of
             Some e \<Rightarrow> Inl e
           | None \<Rightarrow> Inr (c\<lparr>ms_urlTTL := urlTTL, ms_publicURL := publicURL\<rparr>)))"

section \<open>The document service\<close>

record document_service =
  ds_policyRepo :: policy_repository
  ds_docRepo :: document_repository
  ds_gen :: document_generator
  ds_store :: "document_storer option"
  ds_urlTTL :: duration

definition NewDocumentService ::
    "policy_repository \<Rightarrow> document_repository \<Rightarrow> document_generator \<Rightarrow> document_storer option \<Rightarrow>
      duration \<Rightarrow> document_service" where
  "NewDocumentService policyRepo docRepo gen store urlTTL =
     \<lparr>ds_policyRepo = policyRepo, ds_docRepo = docRepo, ds_gen = gen, ds_store = store,
      ds_urlTTL = urlTTL\<rparr>"

definition GeneratorFunc ::
    "(env \<Rightarrow> policy \<Rightarrow> world \<Rightarrow> (error + bytes) \<times> world) \<Rightarrow> document_generator" where
  "GeneratorFunc f E p w = f E p w"

record attestation_result =
  ar_Document :: document
  ar_URL :: string
  ar_ExpiresAt :: time

definition find_policy ::
    "env \<Rightarrow> document_service \<Rightarrow> uuid \<Rightarrow> world \<Rightarrow> (error + policy) \<times> world" where
  "find_policy E s policyID w =
     (case repo_GetByID (ds_policyRepo s) E policyID w of
        (Inl e, w1) \<Rightarrow>
          (if errors_Is e (PortErr ErrNotFound) then (Inl (ServiceErr ErrPolicyNotFound), w1)
           else (Inl e, w1))
      | (Inr p, w1) \<Rightarrow> (Inr p, w1))"

definition new_document :: "uuid \<Rightarrow> string \<Rightarrow> time \<Rightarrow> document" where
  "new_document policyID key now =
     \<lparr>doc_ID = uuid_Nil, doc_PolicyID = policyID, doc_Type = ''attestation'', MinIOKey = key,
      doc_CreatedAt = now\<rparr>"

definition DocumentService_GenerateAttestation ::
    "env \<Rightarrow> document_service \<Rightarrow> uuid \<Rightarrow> world \<Rightarrow> (error + attestation_result) \<times> world" where
  "DocumentService_GenerateAttestation E s policyID w =
     (case ds_store s of
        None \<Rightarrow> (Inl (DocumentErr ErrNoMinIOStore), w)
      | Some store \<Rightarrow>
          (case find_policy E s policyID w of
             (Inl e, w1) \<Rightarrow> (Inl e, w1)
           | (Inr p, w1) \<Rightarrow>
               (if Status p \<noteq> StatusActive \<and> Status p \<noteq> StatusAmended
                then (Inl (Errorf [] (DocumentErr ErrDocumentForbidden)
                  ('': current status is '' @ Status p)), w1)
                else (case ds_gen s E p w1 of
                   (Inl e, w2) \<Rightarrow> (Inl (Errorf ''pdf generation: '' e []), w2)
                 | (Inr data, w2) \<Rightarrow>
                     (case store_Upload store E policyID data w2 of
                        (Inl e, w3) \<Rightarrow> (Inl (Errorf ''document upload: '' e []), w3)
                      | (Inr (key, presigned), w3) \<Rightarrow>
                          (case time_Now E w3 of (now, w4) \<Rightarrow>
                             (case document_Create (ds_docRepo s) E (new_document policyID key now) w4 of
                                (Inl e, w5) \<Rightarrow> (Inl (Errorf ''document record: '' e []), w5)
                              | (Inr doc, w5) \<Rightarrow>
                                  (case time_Now E w5 of (now', w6) \<Rightarrow>
                                     (Inr \<lparr>ar_Document = doc, ar_URL = presigned,
                                        ar_ExpiresAt = now' + sint (ds_urlTTL s)\<rparr>, w6)))))))))"

text \<open>The loop over the documents; the error of \<^verbatim>\<open>PresignKey\<close> is dropped.\<close>

fun presign_all ::
    "env \<Rightarrow> document_storer option \<Rightarrow> document list \<Rightarrow> world \<Rightarrow> string list \<times> world" where
  "presign_all E store [] w = ([], w)"
| "presign_all E None (d # ds) w = (case presign_all E None ds w of (us, w2) \<Rightarrow> ([] # us, w2))"
| "presign_all E (Some st) (d # ds) w =
     (case store_PresignKey st E (MinIOKey d) w of (r, w1) \<Rightarrow>
      case presign_all E (Some st) ds w1 of (us, w2) \<Rightarrow>
        ((case r of Inl e \<Rightarrow> [] | Inr u \<Rightarrow> u) # us, w2))"

definition DocumentService_ListDocuments ::
    "env \<Rightarrow> document_service \<Rightarrow> uuid \<Rightarrow> world \<Rightarrow> (error + document list \<times> string list) \<times> world" where
  "DocumentService_ListDocuments E s policyID w =
     (case find_policy E s policyID w of
        (Inl e, w1) \<Rightarrow> (Inl e, w1)
      | (Inr _, w1) \<Rightarrow>
          (case document_ListByPolicy (ds_docRepo s) E policyID w1 of
             (Inl e, w2) \<Rightarrow> (Inl e, w2)
           | (Inr docs, w2) \<Rightarrow>
               (case presign_all E (ds_store s) docs w2 of (urls, w3) \<Rightarrow> (Inr (docs, urls), w3))))"

section \<open>Contracts\<close>

definition stored_keys :: "world \<Rightarrow> string set" where
  "stored_keys w = set (map fst (objects w))"

text \<open>An object store: an upload that is answered can be found, and no upload takes an object away.\<close>

locale storer_port =
  fixes D :: document_storer
  assumes upload_frame: "store_Upload D E i data w = (ru, w') \<Longrightarrow>
      db w' = db w \<and> txn w' = txn w \<and> spawned w' = spawned w \<and> stored_keys w \<subseteq> stored_keys w'"
    and upload_done: "store_Upload D E i data w = (Inr (key, u), w') \<Longrightarrow>
      map_of (objects w') key = Some data"
    and presign_unchanged: "store_PresignKey D E key w = (rp, w') \<Longrightarrow> unchanged w w'"

text \<open>A document repository that stores what it is given, under an id of its own.\<close>

locale document_store =
  fixes R :: document_repository
  assumes create_done: "document_Create R E d w = (Inr d', w') \<Longrightarrow>
      only_db w w' \<and> MinIOKey d' = MinIOKey d \<and> doc_PolicyID d' = doc_PolicyID d \<and>
      doc_Type d' = doc_Type d \<and> insert_document (document_row E d') (db w) = Inr (db w')"
    and create_failed: "document_Create R E d w = (Inl e, w') \<Longrightarrow>
      only_db w w' \<and> (db w' = db w \<or>
        (\<exists>d'. MinIOKey d' = MinIOKey d \<and> doc_PolicyID d' = doc_PolicyID d \<and>
           insert_document (document_row E d') (db w) = Inr (db w')))"
    and list_done: "document_ListByPolicy R E i w = (rl, w') \<Longrightarrow> unchanged w w'"

locale generator =
  fixes G :: document_generator
  assumes gen_unchanged: "G E p w = (rg, w') \<Longrightarrow> unchanged w w'"

lemma stored_keys_put: "stored_keys (w\<lparr>objects := put_object key data (objects v)\<rparr>) =
    insert key (set (map fst (objects v)))"
  by (auto simp: stored_keys_def put_object_def)

lemma PutObject_cases:
  assumes "PutObject E key data w = (r, w')"
  obtains (put) "w' = w\<lparr>tick := Suc (tick w), objects := put_object key data (objects w)\<rparr>"
  | (lost) e where "r = Some e" "w' = w\<lparr>tick := Suc (tick w)\<rparr>"
  using assms by (auto simp: PutObject_def call_def split: option.splits if_splits)

lemma presign_unchanged: "presign E s key w = (r, w') \<Longrightarrow> unchanged w w'"
  by (auto simp: presign_def PresignedGetObject_def call_def split: option.splits)

lemma MinIOStore_Upload_frame:
  assumes "MinIOStore_Upload s E i data w = (r, w')"
  shows "db w' = db w \<and> txn w' = txn w \<and> spawned w' = spawned w \<and> stored_keys w \<subseteq> stored_keys w'"
    and "r = Inr (key, u) \<Longrightarrow> map_of (objects w') key = Some data"
proof -
  let ?key = "attestation_key E i (env_now E (tick w))"
  obtain r2 w2 where 2: "PutObject E ?key data (w\<lparr>tick := Suc (tick w)\<rparr>) = (r2, w2)"
    by (cases "PutObject E ?key data (w\<lparr>tick := Suc (tick w)\<rparr>)")
  have f2: "db w2 = db w" "txn w2 = txn w" "spawned w2 = spawned w" "stored_keys w \<subseteq> stored_keys w2"
    using 2 by (auto elim!: PutObject_cases simp: stored_keys_put) (auto simp: stored_keys_def put_object_def)
  have put: "r2 = None \<Longrightarrow> map_of (objects w2) ?key = Some data"
    using 2 by (auto elim!: PutObject_cases simp: put_object_def)
  have "(db w' = db w \<and> txn w' = txn w \<and> spawned w' = spawned w \<and> stored_keys w \<subseteq> stored_keys w') \<and>
    (r = Inr (key, u) \<longrightarrow> map_of (objects w') key = Some data)"
  proof (cases r2)
    case (Some e)
    with assms 2 f2 show ?thesis by (auto simp: MinIOStore_Upload_def time_Now_def Let_def)
  next
    case None
    obtain r3 w3 where 3: "presign E s ?key w2 = (r3, w3)" by (cases "presign E s ?key w2")
    note f3 = unchangedD [OF presign_unchanged [OF 3]]
    have "stored_keys w3 = stored_keys w2" using f3(4) by (simp add: stored_keys_def)
    with assms 2 3 None f2 f3 put show ?thesis
      by (auto simp: MinIOStore_Upload_def time_Now_def Let_def split: sum.splits)
  qed
  then show "db w' = db w \<and> txn w' = txn w \<and> spawned w' = spawned w \<and> stored_keys w \<subseteq> stored_keys w'"
    "r = Inr (key, u) \<Longrightarrow> map_of (objects w') key = Some data" by simp_all
qed

interpretation minio: storer_port "MinIOStore s" for s
  by unfold_locales
    (auto simp: MinIOStore_def MinIOStore_PresignKey_def dest: MinIOStore_Upload_frame presign_unchanged)

lemma fresh_doc_ID_frame:
  "fresh_doc_ID E d w = (d', w') \<Longrightarrow> \<exists>u n. d' = d\<lparr>doc_ID := u\<rparr> \<and> w' = w\<lparr>tick := n\<rparr>"
  by (auto simp: fresh_doc_ID_def uuid_New_def split: if_splits)
    (rule exI [of _ "doc_ID d'"], simp, rule exI [of _ "tick w'"], simp)

lemma fresh_doc_time_frame:
  "fresh_doc_time E d w = (d', w') \<Longrightarrow> \<exists>at n. d' = d\<lparr>doc_CreatedAt := at\<rparr> \<and> w' = w\<lparr>tick := n\<rparr>"
  by (auto simp: fresh_doc_time_def time_Now_def split: if_splits)
    (rule exI [of _ "doc_CreatedAt d'"], simp, rule exI [of _ "tick w'"], simp)

lemma DocumentRepo_Create_frame:
  assumes "DocumentRepo_Create E d w = (r, w')"
  shows "\<exists>d'. MinIOKey d' = MinIOKey d \<and> doc_PolicyID d' = doc_PolicyID d \<and> doc_Type d' = doc_Type d \<and>
    only_db w w' \<and>
    (case r of
       Inr q \<Rightarrow> q = d' \<and> insert_document (document_row E d') (db w) = Inr (db w')
     | Inl e \<Rightarrow> db w' = db w \<or> insert_document (document_row E d') (db w) = Inr (db w'))"
proof -
  obtain d1 w1 where 1: "fresh_doc_ID E d w = (d1, w1)" by (cases "fresh_doc_ID E d w")
  obtain d2 w2 where 2: "fresh_doc_time E d1 w1 = (d2, w2)" by (cases "fresh_doc_time E d1 w1")
  obtain u n at m where d2: "d2 = d\<lparr>doc_ID := u, doc_CreatedAt := at\<rparr>" "w2 = w\<lparr>tick := m\<rparr>"
    using fresh_doc_ID_frame [OF 1] fresh_doc_time_frame [OF 2] by auto
  obtain r3 w3 where 3: "db_Exec E (insert_document (document_row E d2)) w2 = (r3, w3)"
    by (cases "db_Exec E (insert_document (document_row E d2)) w2")
  have out: "(r, w') = (case r3 of Some e \<Rightarrow> (Inl e, w3) | None \<Rightarrow> (Inr d2, w3))"
    using assms 1 2 3 by (simp add: DocumentRepo_Create_def split: option.splits)
  from 3 have "only_db w w3 \<and> (case r3 of
      None \<Rightarrow> insert_document (document_row E d2) (db w) = Inr (db w3)
    | Some e \<Rightarrow> db w3 = db w \<or> insert_document (document_row E d2) (db w) = Inr (db w3))"
    by (rule db_Exec_cases) (simp_all add: d2(2) only_db_def)
  with out d2(1) show ?thesis by (intro exI [of _ d2]) (auto split: option.splits)
qed

interpretation pg_documents: document_store DocumentRepo
proof unfold_locales
  fix E d d' w w' e
  show "document_Create DocumentRepo E d w = (Inr d', w') \<Longrightarrow>
      only_db w w' \<and> MinIOKey d' = MinIOKey d \<and> doc_PolicyID d' = doc_PolicyID d \<and>
      doc_Type d' = doc_Type d \<and> insert_document (document_row E d') (db w) = Inr (db w')"
    using DocumentRepo_Create_frame [of E d w "Inr d'" w'] by (auto simp: DocumentRepo_def)
  show "document_Create DocumentRepo E d w = (Inl e, w') \<Longrightarrow>
      only_db w w' \<and> (db w' = db w \<or>
        (\<exists>d'. MinIOKey d' = MinIOKey d \<and> doc_PolicyID d' = doc_PolicyID d \<and>
           insert_document (document_row E d') (db w) = Inr (db w')))"
    using DocumentRepo_Create_frame [of E d w "Inl e" w'] by (auto simp: DocumentRepo_def)
next
  fix E i w rl w'
  show "document_ListByPolicy DocumentRepo E i w = (rl, w') \<Longrightarrow> unchanged w w'"
    by (auto simp: DocumentRepo_def DocumentRepo_ListByPolicy_def dest: db_Query_unchanged)
qed

lemma GenerateAttestation_unchanged:
  "GenerateAttestation render E p w = (r, w') \<Longrightarrow> unchanged w w'"
  by (auto simp: GenerateAttestation_def time_Now_def split: sum.splits)

interpretation pdf: generator "GeneratorFunc (GenerateAttestation render)" for render
  by unfold_locales (simp add: GeneratorFunc_def GenerateAttestation_unchanged)

section \<open>The service over its contracts\<close>

locale attestation_service =
  repo: policy_port "ds_policyRepo s" + docs: document_store "ds_docRepo s" +
  gen: generator "ds_gen s" for s :: document_service +
  assumes store: "ds_store s = Some D \<Longrightarrow> storer_port D"
begin

lemma find_policy_cases:
  assumes "find_policy E s i w = (r, w')"
  obtains (found) p where "r = Inr p" "policy_at (db w) i = Some p" "unchanged w w'"
  | (failed) e where "r = Inl e" "unchanged w w'"
proof (cases "repo_GetByID (ds_policyRepo s) E i w")
  case (Pair x w1)
  from assms Pair have "w1 = w'" and "\<And>p. r = Inr p \<Longrightarrow> x = Inr p"
    by (auto simp: find_policy_def split: sum.splits if_splits)
  with Pair repo.get_unchanged repo.get_stored found failed show thesis
    by (cases r) blast+
qed

text \<open>The last part of \<^verbatim>\<open>GenerateAttestation\<close>, once the object is stored.\<close>

definition record_document ::
    "env \<Rightarrow> uuid \<Rightarrow> string \<Rightarrow> string \<Rightarrow> world \<Rightarrow> (error + attestation_result) \<times> world" where
  "record_document E i key presigned w =
     (case time_Now E w of (now, w4) \<Rightarrow>
        (case document_Create (ds_docRepo s) E (new_document i key now) w4 of
           (Inl e, w5) \<Rightarrow> (Inl (Errorf ''document record: '' e []), w5)
         | (Inr doc, w5) \<Rightarrow>
             (case time_Now E w5 of (now', w6) \<Rightarrow>
                (Inr \<lparr>ar_Document = doc, ar_URL = presigned,
                   ar_ExpiresAt = now' + sint (ds_urlTTL s)\<rparr>, w6))))"

lemma record_document_cases:
  assumes "record_document E i key presigned w = (r, w')"
  obtains (stored) doc where "MinIOKey doc = key" "doc_PolicyID doc = i"
      "insert_document (document_row E doc) (db w) = Inr (db w')" "only_db w w'"
      "\<And>q. r = Inr q \<Longrightarrow> doc = ar_Document q"
  | (failed) e where "r = Inl e" "unchanged w w'"
proof -
  let ?d = "new_document i key (env_now E (tick w))"
  let ?w = "w\<lparr>tick := Suc (tick w)\<rparr>"
  have d: "MinIOKey ?d = key" "doc_PolicyID ?d = i" by (simp_all add: new_document_def)
  obtain r5 w5 where 5: "document_Create (ds_docRepo s) E ?d ?w = (r5, w5)"
    by (cases "document_Create (ds_docRepo s) E ?d ?w")
  show thesis
  proof (cases r5)
    case (Inl e)
    with assms 5 have out: "r = Inl (Errorf ''document record: '' e [])" "w' = w5"
      by (auto simp: record_document_def time_Now_def)
    from docs.create_failed [OF 5 [unfolded Inl]] have od: "only_db w w5"
      by (simp add: only_db_def)
    from docs.create_failed [OF 5 [unfolded Inl]] consider "db w5 = db w"
      | d' where "MinIOKey d' = key" "doc_PolicyID d' = i"
          "insert_document (document_row E d') (db w) = Inr (db w5)"
      by (auto simp: d)
    then show thesis
    proof cases
      case 1
      with out od failed show thesis by (simp add: unchanged_def)
    next
      case (2 d')
      with out od stored [of d'] show thesis by simp
    qed
  next
    case (Inr doc)
    with assms 5 have out: "w' = w5\<lparr>tick := Suc (tick w5)\<rparr>" "\<And>q. r = Inr q \<Longrightarrow> doc = ar_Document q"
      by (auto simp: record_document_def time_Now_def)
    from docs.create_done [OF 5 [unfolded Inr]] d out stored [of doc] show thesis
      by (simp add: only_db_def)
  qed
qed

lemma Generate_record:
  "DocumentService_GenerateAttestation E s i w =
     (case ds_store s of
        None \<Rightarrow> (Inl (DocumentErr ErrNoMinIOStore), w)
      | Some store \<Rightarrow>
          (case find_policy E s i w of
             (Inl e, w1) \<Rightarrow> (Inl e, w1)
           | (Inr p, w1) \<Rightarrow>
               (if Status p \<noteq> StatusActive \<and> Status p \<noteq> StatusAmended
                then (Inl (Errorf [] (DocumentErr ErrDocumentForbidden)
                  ('': current status is '' @ Status p)), w1)
                else (case ds_gen s E p w1 of
                   (Inl e, w2) \<Rightarrow> (Inl (Errorf ''pdf generation: '' e []), w2)
                 | (Inr data, w2) \<Rightarrow>
                     (case store_Upload store E i data w2 of
                        (Inl e, w3) \<Rightarrow> (Inl (Errorf ''document upload: '' e []), w3)
                      | (Inr (key, presigned), w3) \<Rightarrow> record_document E i key presigned w3)))))"
  unfolding DocumentService_GenerateAttestation_def record_document_def by (rule refl)

text \<open>
  What generating an attestation can do: at most one new document row, for a policy in force,
  after its object has been stored.
\<close>

lemma GenerateAttestation_cases:
  assumes run: "DocumentService_GenerateAttestation E s i w = (r, w')"
  obtains (generated) p data w1 doc where "policy_at (db w) i = Some p"
      "Status p = StatusActive \<or> Status p = StatusAmended"
      "fst (ds_gen s E p w1) = Inr data"
      "\<And>q. r = Inr q \<Longrightarrow> doc = ar_Document q" "doc_PolicyID doc = i"
      "insert_document (document_row E doc) (db w) = Inr (db w')"
      "map_of (objects w') (MinIOKey doc) = Some data"
      "txn w' = txn w" "spawned w' = spawned w" "stored_keys w \<subseteq> stored_keys w'"
  | (failed) e where "r = Inl e" "db w' = db w" "txn w' = txn w" "spawned w' = spawned w"
      "stored_keys w \<subseteq> stored_keys w'"
proof -
  have stop: thesis if "r = Inl e" "unchanged w w'" for e
    using that(1) unchangedD [OF that(2)] by (intro failed) (simp_all add: stored_keys_def)
  show thesis
  proof (cases "ds_store s")
    case None
    with run stop show thesis by (auto simp: Generate_record)
  next
    case (Some D)
    note D = store [OF Some]
    obtain r1 w1 where 1: "find_policy E s i w = (r1, w1)" by (cases "find_policy E s i w")
    from 1 show thesis
    proof (cases rule: find_policy_cases)
      case (failed e)
      with run Some 1 stop show thesis by (auto simp: Generate_record)
    next
      case (found p)
      obtain r2 w2 where 2: "ds_gen s E p w1 = (r2, w2)" by (cases "ds_gen s E p w1")
      have u2: "unchanged w w2"
        using found(3) gen.gen_unchanged [OF 2] by (rule unchanged_trans)
      show thesis
      proof (cases "Status p = StatusActive \<or> Status p = StatusAmended")
        case False
        with run Some 1 found stop show thesis by (auto simp: Generate_record)
      next
        case force: True
        show thesis
        proof (cases r2)
          case (Inl e)
          with run Some 1 found force 2 u2 stop show thesis by (auto simp: Generate_record)
        next
          case r2: (Inr data)
          obtain r3 w3 where 3: "store_Upload D E i data w2 = (r3, w3)"
            by (cases "store_Upload D E i data w2")
          have frame: "db w3 = db w" "txn w3 = txn w" "spawned w3 = spawned w"
              "stored_keys w \<subseteq> stored_keys w3"
            using storer_port.upload_frame [OF D 3] unchangedD [OF u2]
            by (auto simp: stored_keys_def)
          from run Some 1 found force 2 r2 3 have out: "(r, w') = (case r3 of
              Inl e \<Rightarrow> (Inl (Errorf ''document upload: '' e []), w3)
            | Inr (key, presigned) \<Rightarrow> record_document E i key presigned w3)"
            by (auto simp: Generate_record split: sum.splits)
          show thesis
          proof (cases r3)
            case (Inl e)
            with out frame that(2) show thesis by simp
          next
            case (Inr kp)
            obtain key presigned where kp: "kp = (key, presigned)" by (cases kp)
            with Inr out have rec: "record_document E i key presigned w3 = (r, w')" by simp
            have obj: "map_of (objects w3) key = Some data"
              using storer_port.upload_done [OF D] 3 Inr kp by blast
            from rec show thesis
            proof (cases rule: record_document_cases)
              case (stored doc)
              with frame obj found(2) force 2 r2 only_dbD [OF stored(4)] show thesis
                by (intro generated [of p w1 data doc]) (simp_all add: stored_keys_def)
            next
              case (failed e)
              with frame unchangedD [OF failed(2)] that(2) show thesis
                by (simp add: stored_keys_def)
            qed
          qed
        qed
      qed
    qed
  qed
qed

end

section \<open>The document service as main builds it\<close>

definition live_documents ::
    "(pdf_call list \<Rightarrow> error + bytes) \<Rightarrow> minio_store \<Rightarrow> duration \<Rightarrow> document_service" where
  "live_documents render store ttl =
     NewDocumentService PolicyRepo DocumentRepo (GeneratorFunc (GenerateAttestation render))
       (Some (MinIOStore store)) ttl"

lemma live_documents_simps [simp]:
  "ds_policyRepo (live_documents render store ttl) = PolicyRepo"
  "ds_docRepo (live_documents render store ttl) = DocumentRepo"
  "ds_gen (live_documents render store ttl) = GeneratorFunc (GenerateAttestation render)"
  "ds_store (live_documents render store ttl) = Some (MinIOStore store)"
  "ds_urlTTL (live_documents render store ttl) = ttl"
  by (simp_all add: live_documents_def NewDocumentService_def)

interpretation live_docs: attestation_service "live_documents render store ttl" for render store ttl
  by (intro attestation_service.intro attestation_service_axioms.intro)
    (auto simp: pg.policy_port_axioms pg_documents.document_store_axioms pdf.generator_axioms
      minio.storer_port_axioms)

text \<open>For the examples: a renderer that counts the calls, and a store that signs with the key.\<close>

definition demo_render :: "pdf_call list \<Rightarrow> error + bytes" where
  "demo_render calls = Inr (replicate (length calls) CHR ''p'')"

definition demo_store :: minio_store where
  "demo_store = \<lparr>ms_sign = (\<lambda>n bucket key ttl. \<lparr>url_Scheme = ''http'', url_Host = ''minio:9000'',
     url_Rest = ''/'' @ bucket @ ''/'' @ key\<rparr>), ms_url_Parse = (\<lambda>_. None), ms_urlTTL = 0,
     ms_publicURL = []\<rparr>"

definition demo_active :: world where
  "demo_active = init_world (empty_tables\<lparr>t_policies := [demo_policy\<lparr>Status := StatusActive\<rparr>]\<rparr>)"

lemma calm_find_policy:
  "calm E \<Longrightarrow> policy_at (db w) i = Some p \<Longrightarrow>
     find_policy E (live_documents render store ttl) i w = (Inr p, w\<lparr>tick := Suc (tick w)\<rparr>)"
  by (auto simp: find_policy_def PolicyRepo_GetByID_def scanOne_def QueryRow_Scan_def calm_Query_text
      texts_check_def policy_at_select split: list.splits)

lemma calm_attestation:
  assumes "calm E" and at: "policy_at (db w) i = Some p"
    and "Status p = StatusActive \<or> Status p = StatusAmended"
    and "render (attestation_page p (env_now E (Suc (tick w)))) = Inr data"
    and new: "\<forall>n. env_uuid E n \<notin> doc_ID ` set (t_documents (db w))"
    and key: "text_ok (attestation_key E i (env_now E (Suc (Suc (tick w)))))"
  shows "\<exists>q. fst (DocumentService_GenerateAttestation E (live_documents render store ttl) i w) = Inr q"
proof -
  have "policy_exists i (db w)" using at policy_at_None [of "db w" i] by simp
  then have accept: "insert_document d (db w) = Inr (db w\<lparr>t_documents := t_documents (db w) @ [d]\<rparr>)"
    if "doc_PolicyID d = i" "doc_ID d = env_uuid E n" "text_ok (doc_Type d)" "text_ok (MinIOKey d)" for d n
    using that new by (simp add: insert_document_Inr)
  have row: "doc_PolicyID (document_row E d) = doc_PolicyID d" "doc_ID (document_row E d) = doc_ID d"
    "doc_Type (document_row E d) = doc_Type d" "MinIOKey (document_row E d) = MinIOKey d" for d
    by (simp_all add: document_row_def)
  have "text_ok ''attestation''" by code_simp
  with assms show ?thesis
    by (auto simp: DocumentService_GenerateAttestation_def calm_find_policy GeneratorFunc_def
        GenerateAttestation_def time_Now_def MinIOStore_def MinIOStore_Upload_def PutObject_def
        call_def presign_def PresignedGetObject_def DocumentRepo_def DocumentRepo_Create_def
        fresh_doc_ID_def fresh_doc_time_def uuid_New_def new_document_def calm_Exec accept row Let_def)
qed

lemma calm_upload:
  "calm E \<Longrightarrow> \<exists>key u w'. MinIOStore_Upload s E i data w = (Inr (key, u), w')"
  by (simp add: MinIOStore_Upload_def time_Now_def PutObject_def call_def presign_def
      PresignedGetObject_def Let_def)

lemma split_day:
  "x div nanos_per_day = x div nanos_per_second div 86400"
  "x mod nanos_per_day div nanos_per_second = x div nanos_per_second mod 86400" for x :: int
proof -
  have day: "nanos_per_day = nanos_per_second * 86400" and pos: "0 < nanos_per_second"
    by (simp_all add: nanos_per_day_def nanos_per_second_def)
  show "x div nanos_per_day = x div nanos_per_second div 86400"
    unfolding day by (rule zdiv_zmult2_eq) simp
  have "x mod nanos_per_day =
      nanos_per_second * (x div nanos_per_second mod 86400) + x mod nanos_per_second"
    unfolding day by (rule zmod_zmult2_eq) simp
  then show "x mod nanos_per_day div nanos_per_second = x div nanos_per_second mod 86400"
    using pos by simp
qed

section \<open>Properties\<close>

text \<open>
  C10. An attestation that is answered is of a policy that was active or amended: its PDF is the
  rendering of the attestation of that policy, its object is in the store under the key of its
  document row, and the row is the only change to the tables. An error has added at most one
  such row, and no event is ever published.
\<close>

theorem attestations_only_in_force:
  assumes "DocumentService_GenerateAttestation E (live_documents render store ttl) i w = (r, w')"
  shows "spawned w' = spawned w \<and> txn w' = txn w \<and>
    (db w' = db w \<and> (\<exists>e. r = Inl e) \<or>
     (\<exists>p now data doc. policy_at (db w) i = Some p \<and>
        (Status p = StatusActive \<or> Status p = StatusAmended) \<and>
        render (attestation_page p now) = Inr data \<and>
        map_of (objects w') (MinIOKey doc) = Some data \<and>
        db w' = db w\<lparr>t_documents := t_documents (db w) @ [document_row E doc]\<rparr> \<and>
        doc_PolicyID doc = i \<and> (\<forall>q. r = Inr q \<longrightarrow> ar_Document q = doc)))"
  using assms
proof (cases rule: live_docs.GenerateAttestation_cases)
  case (generated p data w1 doc)
  have "render (attestation_page p (env_now E (tick w1))) = Inr data"
    using generated(3) by (auto simp: GeneratorFunc_def GenerateAttestation_def time_Now_def
        split: sum.splits)
  moreover have "db w' = db w\<lparr>t_documents := t_documents (db w) @ [document_row E doc]\<rparr>"
    using generated(6) by (simp add: insert_document_Inr)
  ultimately show ?thesis using generated by blast
next
  case (failed e)
  then show ?thesis by simp
qed

theorem attestations_only_in_force_witness:
  "let (r, w') = DocumentService_GenerateAttestation (demo_env []) (live_documents demo_render demo_store 0) 7
       demo_active
   in \<exists>q data. r = Inr q \<and> map_of (objects w') (MinIOKey (ar_Document q)) = Some data \<and> length (t_documents (db w')) = 1"
proof -
  let ?run = "DocumentService_GenerateAttestation (demo_env []) (live_documents demo_render demo_store 0) 7
       demo_active"
  have 1: "policy_at (db demo_active) 7 = Some (demo_policy\<lparr>Status := StatusActive\<rparr>)" by code_simp
  have 2: "t_documents (db demo_active) = []" by code_simp
  have 3: "text_ok (attestation_key (demo_env []) 7 (env_now (demo_env []) (Suc (Suc (tick demo_active)))))"
    by code_simp
  obtain r w' where run: "?run = (r, w')" by (cases ?run)
  obtain q where q: "r = Inr q"
    using calm_attestation [OF calm_demo 1, of demo_render _ demo_store 0] 2 3 run
    by (auto simp: demo_render_def)
  with attestations_only_in_force [OF run] obtain data doc where
    "map_of (objects w') (MinIOKey (ar_Document q)) = Some data"
    "db w' = db demo_active\<lparr>t_documents := t_documents (db demo_active) @ [doc]\<rparr>" by blast
  with q 2 show ?thesis unfolding run Let_def by simp
qed

text \<open>
  When no call fails, an attestation of a policy that is neither active nor amended is refused as
  \<^verbatim>\<open>ErrDocumentForbidden\<close> with its status in the text; no object and no row is written.
\<close>

theorem attestation_refused:
  assumes "calm E" and "policy_at (db w) i = Some p"
    and "Status p \<noteq> StatusActive" and "Status p \<noteq> StatusAmended"
  shows "\<exists>e w'. DocumentService_GenerateAttestation E (live_documents render store ttl) i w = (Inl e, w') \<and>
    errors_Is e (DocumentErr ErrDocumentForbidden) \<and>
    error_text e = ''attestation requires ACTIVE or AMENDED status: current status is '' @ Status p \<and>
    db w' = db w \<and> objects w' = objects w"
  using assms by (simp add: DocumentService_GenerateAttestation_def calm_find_policy)

theorem attestation_refused_witness:
  "\<exists>e w'. DocumentService_GenerateAttestation (demo_env []) (live_documents demo_render demo_store 0) 7 demo_world
     = (Inl e, w') \<and>
   error_text e = ''attestation requires ACTIVE or AMENDED status: current status is draft''"
proof -
  have 1: "policy_at (db demo_world) 7 = Some demo_policy" by code_simp
  have 2: "Status demo_policy = StatusDraft" by code_simp
  have 3: "Status demo_policy \<noteq> StatusActive" "Status demo_policy \<noteq> StatusAmended" by code_simp+
  show ?thesis
    using attestation_refused [OF calm_demo 1 3, of demo_render demo_store 0]
    by (auto simp: 2 StatusDraft_def)
qed

section \<open>Documents and their objects\<close>

text \<open>What happens to the documents: requests, and passes of the lifecycle rule in between.\<close>

datatype doc_request =
    Doc_Generate uuid
  | Doc_List uuid
  | Doc_Policy request
  | Doc_Expire time "(uuid \<times> time) list"

fun run_doc_request ::
    "env \<Rightarrow> policy_service \<Rightarrow> document_service \<Rightarrow> doc_request \<Rightarrow> world \<Rightarrow> world" where
  "run_doc_request E s ds (Doc_Generate i) w = snd (DocumentService_GenerateAttestation E ds i w)"
| "run_doc_request E s ds (Doc_List i) w = snd (DocumentService_ListDocuments E ds i w)"
| "run_doc_request E s ds (Doc_Policy r) w = run_request E s r w"
| "run_doc_request E s ds (Doc_Expire now its) w = expire_objects E now its w"

definition row_keys :: "world \<Rightarrow> string set" where
  "row_keys w = MinIOKey ` set (t_documents (db w))"

lemma table_step_documents: "table_step t t' \<Longrightarrow> t_documents t' = t_documents t"
  by (induction rule: table_step.induct)
    (auto simp: insert_policy_Inr update_policies_Inr moved_tables)

lemma map_of_stored: "map_of (objects w) key = Some data \<Longrightarrow> key \<in> stored_keys w"
  by (force simp: stored_keys_def dest: map_of_SomeD)

text \<open>
  The URL a reader is given for a key when the call at \<open>n\<close> signs it: none when that call fails,
  otherwise what the client signs, with scheme and host of the public URL when there is one.
\<close>

definition url_given :: "env \<Rightarrow> minio_store \<Rightarrow> nat \<Rightarrow> string \<Rightarrow> string" where
  "url_given E store n key =
     (if env_fault E n \<noteq> None then []
      else (let u = ms_sign store n Bucket key (ms_urlTTL store)
            in url_String (case if ms_publicURL store = [] then None else ms_url_Parse store (ms_publicURL store) of
                 None \<Rightarrow> u
               | Some base \<Rightarrow> u\<lparr>url_Scheme := url_Scheme base, url_Host := url_Host base\<rparr>)))"

lemma presign_given:
  "store_PresignKey (MinIOStore store) E key w = (r, w1) \<Longrightarrow>
     w1 = w\<lparr>tick := Suc (tick w)\<rparr> \<and> (case r of Inl e \<Rightarrow> [] | Inr u \<Rightarrow> u) = url_given E store (tick w) key"
  by (auto simp: MinIOStore_def MinIOStore_PresignKey_def presign_def PresignedGetObject_def call_def url_given_def
      Let_def split: option.splits)

lemma presign_all_given:
  "presign_all E (Some (MinIOStore store)) ds w = (us, w') \<Longrightarrow>
     unchanged w w' \<and> length us = length ds \<and>
     (\<forall>j < length ds. us ! j = url_given E store (tick w + j) (MinIOKey (ds ! j)))"
proof (induction ds arbitrary: w us w')
  case Nil
  then show ?case by simp
next
  case (Cons d ds)
  obtain r w1 where 1: "store_PresignKey (MinIOStore store) E (MinIOKey d) w = (r, w1)"
    by (cases "store_PresignKey (MinIOStore store) E (MinIOKey d) w")
  obtain us2 w2 where 2: "presign_all E (Some (MinIOStore store)) ds w1 = (us2, w2)"
    by (cases "presign_all E (Some (MinIOStore store)) ds w1")
  note g = presign_given [OF 1]
  from Cons.prems 1 2 g have us: "us = url_given E store (tick w) (MinIOKey d) # us2" "w' = w2" by auto
  note IH = Cons.IH [OF 2]
  have "us ! j = url_given E store (tick w + j) (MinIOKey ((d # ds) ! j))" if "j < length (d # ds)" for j
    using that IH g us(1) by (cases j) auto
  moreover have "unchanged w w'" using IH minio.presign_unchanged [OF 1] us(2) by (auto intro: unchanged_trans)
  ultimately show ?case using IH us(1) by simp
qed

lemma find_policy_tick:
  "find_policy E (live_documents render store ttl) i w = (Inr p, w') \<Longrightarrow> tick w' = Suc (tick w)"
  by (auto simp: find_policy_def PolicyRepo_GetByID_def scanOne_def QueryRow_Scan_def
      elim!: db_Query_text_cases split: sum.splits list.splits if_splits prod.splits)

lemma sorted_rev_sort_key: "sorted_wrt (\<lambda>a b. f b \<le> f a) (rev (sort_key f xs))"
  using sorted_sort_key [of f xs] by (simp add: sorted_wrt_rev sorted_wrt_map)

lemma ListDocuments_result:
  assumes "DocumentService_ListDocuments E (live_documents render store ttl) i w = (r, w')"
  shows "unchanged w w' \<and> (\<forall>ds us. r = Inr (ds, us) \<longrightarrow> length us = length ds \<and>
    (\<forall>j < length ds. us ! j = url_given E store (tick w + 2 + j) (MinIOKey (ds ! j))) \<and>
    sorted_wrt (\<lambda>a b. doc_CreatedAt b \<le> doc_CreatedAt a) ds \<and>
    mset ds = mset (filter (\<lambda>d. doc_PolicyID d = i) (t_documents (db w))))"
proof -
  let ?s = "live_documents render store ttl"
  obtain r1 w1 where 1: "find_policy E ?s i w = (r1, w1)" by (cases "find_policy E ?s i w")
  from 1 show ?thesis
  proof (cases rule: live_docs.find_policy_cases)
    case (failed e)
    with assms 1 show ?thesis by (auto simp: DocumentService_ListDocuments_def)
  next
    case (found p)
    obtain r2 w2 where 2: "DocumentRepo_ListByPolicy E i w1 = (r2, w2)"
      by (cases "DocumentRepo_ListByPolicy E i w1")
    have u2: "unchanged w w2"
      using found(3) 2 db_Query_unchanged unfolding DocumentRepo_ListByPolicy_def
      by (blast intro: unchanged_trans)
    show ?thesis
    proof (cases r2)
      case (Inl e)
      with assms 1 2 found u2 show ?thesis
        by (auto simp: DocumentService_ListDocuments_def DocumentRepo_def)
    next
      case (Inr ds)
      have rows: "ds = rev (sort_key doc_CreatedAt (filter (\<lambda>d. doc_PolicyID d = i) (t_documents (db w))))"
        and t2: "tick w2 = tick w + 2"
        using 2 Inr unchangedD(1) [OF found(3)] find_policy_tick [OF 1 [unfolded found(1)]]
        unfolding DocumentRepo_ListByPolicy_def by (auto elim!: db_Query_cases)
      obtain us w3 where 3: "presign_all E (Some (MinIOStore store)) ds w2 = (us, w3)"
        by (cases "presign_all E (Some (MinIOStore store)) ds w2")
      from assms 1 2 3 found Inr have "r = Inr (ds, us)" "w' = w3"
        by (simp_all add: DocumentService_ListDocuments_def DocumentRepo_def)
      moreover have "sorted_wrt (\<lambda>a b. doc_CreatedAt b \<le> doc_CreatedAt a) ds"
        unfolding rows by (rule sorted_rev_sort_key)
      moreover have "mset ds = mset (filter (\<lambda>d. doc_PolicyID d = i) (t_documents (db w)))"
        by (simp add: rows)
      ultimately show ?thesis using presign_all_given [OF 3] u2 t2 by (auto intro: unchanged_trans)
    qed
  qed
qed

text \<open>
  One step: an object is lost in a pass that its age explains, and a row that is new has its object.
\<close>

lemma doc_request_step:
  assumes "txn w = None" and "w' = run_doc_request E (live_service nats) (live_documents render store ttl) r w"
  shows "txn w' = None \<and> row_keys w' \<subseteq> row_keys w \<union> stored_keys w' \<and>
    (\<forall>key \<in> stored_keys w. key \<in> stored_keys w' \<or>
       (\<exists>now its. r = Doc_Expire now its \<and> expires E now its key))"
proof (cases r)
  case (Doc_Generate i)
  let ?run = "DocumentService_GenerateAttestation E (live_documents render store ttl) i w"
  obtain x v where run: "?run = (x, v)" by (cases ?run)
  with assms(2) Doc_Generate have v: "w' = v" by simp
  from run show ?thesis
  proof (cases rule: live_docs.GenerateAttestation_cases)
    case (generated p data w1 doc)
    have "MinIOKey (document_row E doc) \<in> stored_keys v"
      using map_of_stored [OF generated(7)] by (simp add: document_row_def)
    moreover have "t_documents (db v) = t_documents (db w) @ [document_row E doc]"
      using generated(6) by (auto simp: insert_document_Inr)
    ultimately show ?thesis using assms(1) generated(8,10) v by (auto simp: row_keys_def)
  next
    case (failed e)
    with assms(1) v show ?thesis by (auto simp: row_keys_def)
  qed
next
  case (Doc_List i)
  let ?run = "DocumentService_ListDocuments E (live_documents render store ttl) i w"
  have "unchanged w (snd ?run)" using ListDocuments_result [OF prod.collapse [symmetric]] by blast
  from unchangedD [OF this] show ?thesis
    using assms Doc_List by (simp add: row_keys_def stored_keys_def)
next
  case (Doc_Policy q)
  have "request_step E w (run_request E (live_service nats) q w)"
    using assms(1) by (rule request_refines)
  then have "txn w' = None" "objects w' = objects w" "t_documents (db w') = t_documents (db w)"
    using assms(2) Doc_Policy table_step_documents by (simp_all add: request_step_def)
  then show ?thesis by (simp add: row_keys_def stored_keys_def)
next
  case (Doc_Expire now its)
  with assms show ?thesis by (auto simp: expire_objects_def row_keys_def stored_keys_def)
qed

text \<open>
  C11. Only age takes the object of a document away: after any sequence of document requests, policy
  requests and passes of the lifecycle rule, whatever fails, the key of every document row is in
  the object store, and so is every key that was there before, unless a pass of the sequence
  deleted it, at least 2555 days after the upload its key names.
\<close>

theorem documents_dangle_only_by_expiry:
  assumes "txn w = None" and "\<forall>d \<in> set (t_documents (db w)). MinIOKey d \<in> fst ` set (objects w)"
    and "w' = fold (run_doc_request E (live_service nats) (live_documents render store ttl)) rs w"
    and "key \<in> MinIOKey ` set (t_documents (db w')) \<union> fst ` set (objects w)"
  shows "key \<in> fst ` set (objects w') \<or>
    (\<exists>now its i t. Doc_Expire now its \<in> set rs \<and> (i, t) \<in> set its \<and>
       key = attestation_key E i t \<and> t + 2555 * nanos_per_day \<le> now)"
proof -
  let ?run = "run_doc_request E (live_service nats) (live_documents render store ttl)"
  have "txn (fold ?run rs w) = None \<and> (\<forall>key \<in> row_keys (fold ?run rs w) \<union> stored_keys w.
      key \<in> stored_keys (fold ?run rs w) \<or> (\<exists>now its. Doc_Expire now its \<in> set rs \<and> expires E now its key))"
  proof (induction rs rule: rev_induct)
    case Nil
    with assms(1,2) show ?case by (auto simp: row_keys_def stored_keys_def)
  next
    case (snoc r rs)
    let ?v = "fold ?run rs w"
    let ?v' = "?run r ?v"
    note step = doc_request_step [OF conjunct1 [OF snoc.IH] refl, of E nats render store ttl r]
    have "key \<in> stored_keys ?v' \<or> (\<exists>now its. Doc_Expire now its \<in> set (rs @ [r]) \<and> expires E now its key)"
      if "key \<in> row_keys ?v' \<union> stored_keys w" for key
    proof (cases "key \<in> stored_keys ?v'")
      case False
      with that step have "key \<in> row_keys ?v \<union> stored_keys w" by blast
      with snoc.IH consider "key \<in> stored_keys ?v" | now its where "Doc_Expire now its \<in> set rs" "expires E now its key"
        by blast
      then show ?thesis
      proof cases
        case 1
        with False step obtain now its where "r = Doc_Expire now its" "expires E now its key" by blast
        then show ?thesis by auto
      next
        case 2
        then show ?thesis by auto
      qed
    qed simp
    with step show ?case by simp
  qed
  moreover have "key \<in> row_keys w' \<union> stored_keys w" using assms(4) by (simp add: row_keys_def stored_keys_def)
  ultimately have "key \<in> stored_keys w' \<or> (\<exists>now its. Doc_Expire now its \<in> set rs \<and> expires E now its key)"
    using assms(3) by blast
  then show ?thesis by (auto simp: stored_keys_def expires_after)
qed

theorem documents_dangle_only_by_expiry_witness:
  "let key = attestation_key (demo_env []) 7 0;
       w = demo_active\<lparr>db := (db demo_active)\<lparr>t_documents := [new_document 7 key 0]\<rparr>,
             objects := [(key, ''pdf'')]\<rparr>;
       w' = fold (run_doc_request (demo_env []) (live_service None) (live_documents demo_render demo_store 0))
         [Doc_List 7, Doc_Expire (2555 * nanos_per_day) [(7, 0)]] w
   in key \<in> MinIOKey ` set (t_documents (db w')) \<and> key \<notin> fst ` set (objects w') \<and>
      (\<exists>t. key = attestation_key (demo_env []) 7 t \<and> t + 2555 * nanos_per_day \<le> 2555 * nanos_per_day)"
proof -
  define key where "key = attestation_key (demo_env []) 7 0"
  define w where "w = demo_active\<lparr>db := (db demo_active)\<lparr>t_documents := [new_document 7 key 0]\<rparr>,
             objects := [(key, ''pdf'')]\<rparr>"
  let ?rs = "[Doc_List 7, Doc_Expire (2555 * nanos_per_day) [(7, 0)]]"
  let ?run = "run_doc_request (demo_env []) (live_service None) (live_documents demo_render demo_store 0)"
  define w' where "w' = fold ?run ?rs w"
  have w: "txn w = None" "t_documents (db w) = [new_document 7 key 0]" "objects w = [(key, ''pdf'')]"
    "MinIOKey (new_document 7 key 0) = key"
    by (simp_all add: w_def demo_active_def init_world_def new_document_def)
  have "unchanged w (?run (Doc_List 7) w)" using ListDocuments_result [OF prod.collapse [symmetric]] by simp
  from unchangedD [OF this] have "db w' = db w" "objects w' = filter
      (\<lambda>ob. \<not> expires (demo_env []) (2555 * nanos_per_day) [(7, 0)] (fst ob)) [(key, ''pdf'')]"
    by (simp_all add: w'_def expire_objects_def w(3))
  then have 1: "key \<in> MinIOKey ` set (t_documents (db w'))" "key \<notin> fst ` set (objects w')"
    by (simp_all add: w) (simp_all add: expires_after key_def)
  have "\<forall>d \<in> set (t_documents (db w)). MinIOKey d \<in> fst ` set (objects w)" by (simp add: w)
  from documents_dangle_only_by_expiry [OF w(1) this w'_def, of key] 1
  show ?thesis unfolding Let_def key_def [symmetric] w_def [symmetric] w'_def [symmetric] by auto
qed

text \<open>
  C33. The key of an attestation names the second of its upload. Two uploads for one policy in the
  same second get the same key, and the second one replaces the object of the first: whatever
  was recorded for the first key now leads to the bytes of the second.
\<close>

theorem same_second_replaces_the_object:
  assumes "t div nanos_per_second = u div nanos_per_second"
    and "env_now E (tick w) = t" and "env_now E (tick w1) = u"
    and "MinIOStore_Upload store E i data w = (Inr (key, url1), w1)"
    and "MinIOStore_Upload store E i data' w1 = (Inr (key', url2), w2)"
  shows "key' = key \<and> map_of (objects w2) key = Some data' \<and>
    length (filter (\<lambda>ob. fst ob = key) (objects w2)) = 1"
proof -
  note split = split_day
  have "format_stamp t = format_stamp u"
    using assms(1) by (simp add: format_stamp_def split)
  then have keys: "attestation_key E i t = attestation_key E i u" by (simp add: attestation_key_def)
  have key: "k = attestation_key E i (env_now E (tick v))"
      "length (filter (\<lambda>ob. fst ob = k) (objects v')) = 1"
    if "MinIOStore_Upload store E i dat v = (Inr (k, l), v')" for dat k l v v'
    using that
    by (auto simp: MinIOStore_Upload_def time_Now_def PutObject_def call_def presign_def
        PresignedGetObject_def put_object_def Let_def split: option.splits if_splits sum.splits)
  show ?thesis
    using key [OF assms(4)] key [OF assms(5)] MinIOStore_Upload_frame(2) [OF assms(5)] assms(2,3) keys
    by simp
qed

theorem same_second_replaces_the_object_witness:
  "\<exists>key url1 url2 w1 w2.
     MinIOStore_Upload demo_store ((demo_env [])\<lparr>env_now := \<lambda>_. 0\<rparr>) 7 ''one'' demo_world = (Inr (key, url1), w1) \<and>
     MinIOStore_Upload demo_store ((demo_env [])\<lparr>env_now := \<lambda>_. 0\<rparr>) 7 ''two'' w1 = (Inr (key, url2), w2) \<and>
     map_of (objects w2) key = Some ''two''"
proof -
  let ?E = "(demo_env [])\<lparr>env_now := \<lambda>_. 0\<rparr>"
  have "calm ?E" by (simp add: calm_def demo_env_def)
  from calm_upload [OF this] obtain key url1 w1 where
    1: "MinIOStore_Upload demo_store ?E 7 ''one'' demo_world = (Inr (key, url1), w1)" by blast
  from calm_upload [OF \<open>calm ?E\<close>] obtain key' url2 w2 where
    2: "MinIOStore_Upload demo_store ?E 7 ''two'' w1 = (Inr (key', url2), w2)" by blast
  have "env_now ?E n = 0" for n by simp
  with same_second_replaces_the_object [OF refl _ _ 1 2, of 0] 1 2 show ?thesis by simp
qed

text \<open>
  C30. A listing answers the documents of the policy, newest first, and pairs each of them with its
  own URL: empty when the call that was to sign it failed, otherwise what the client signs for the
  key of that document and the configured lifetime, under scheme and host of the public URL
  when there is one that parses. Nothing changes.
\<close>

theorem listing_pairs_documents_and_urls:
  assumes "DocumentService_ListDocuments E (live_documents render store ttl) i w = (Inr (ds, urls), w')"
  shows "length urls = length ds \<and>
    (\<forall>j < length ds. urls ! j =
       (if env_fault E (tick w + 2 + j) \<noteq> None then []
        else (let u = ms_sign store (tick w + 2 + j) Bucket (MinIOKey (ds ! j)) (ms_urlTTL store)
              in url_String (case if ms_publicURL store = [] then None
                                  else ms_url_Parse store (ms_publicURL store) of
                   None \<Rightarrow> u
                 | Some base \<Rightarrow> u\<lparr>url_Scheme := url_Scheme base, url_Host := url_Host base\<rparr>)))) \<and>
    sorted_wrt (\<lambda>a b. doc_CreatedAt b \<le> doc_CreatedAt a) ds \<and>
    mset ds = mset (filter (\<lambda>d. doc_PolicyID d = i) (t_documents (db w))) \<and>
    db w' = db w \<and> objects w' = objects w \<and> spawned w' = spawned w"
proof -
  note res = ListDocuments_result [OF assms]
  have given: "url_given E store (tick w + 2 + j) key =
       (if env_fault E (tick w + 2 + j) \<noteq> None then []
        else (let u = ms_sign store (tick w + 2 + j) Bucket key (ms_urlTTL store)
              in url_String (case if ms_publicURL store = [] then None
                                  else ms_url_Parse store (ms_publicURL store) of
                   None \<Rightarrow> u
                 | Some base \<Rightarrow> u\<lparr>url_Scheme := url_Scheme base, url_Host := url_Host base\<rparr>)))" for j key
    by (simp only: url_given_def)
  from res have "unchanged w w'" by simp
  from unchangedD [OF this] res show ?thesis unfolding given by simp
qed

text \<open>Two documents, of which the second one cannot be signed.\<close>

theorem listing_pairs_documents_and_urls_witness:
  "\<exists>ds urls w'. DocumentService_ListDocuments (demo_env [(3, Fault ''down'' False)])
      (live_documents demo_render demo_store 0) 7
      (demo_active\<lparr>db := (db demo_active)\<lparr>t_documents := [new_document 7 ''k'' 0, new_document 7 ''l'' 5]\<rparr>\<rparr>)
      = (Inr (ds, urls), w') \<and>
    map MinIOKey ds = [''l'', ''k''] \<and> urls = [''http://minio:9000/policy-documents/l'', []]"
proof -
  let ?w = "demo_active\<lparr>db := (db demo_active)\<lparr>t_documents := [new_document 7 ''k'' 0, new_document 7 ''l'' 5]\<rparr>\<rparr>"
  let ?run = "DocumentService_ListDocuments (demo_env [(3, Fault ''down'' False)])
      (live_documents demo_render demo_store 0) 7 ?w"
  have 1: "case fst ?run of Inl _ \<Rightarrow> False | Inr (ds, _) \<Rightarrow> map MinIOKey ds = [''l'', ''k'']" by code_simp
  obtain r w' where run: "?run = (r, w')" by (cases ?run)
  from 1 obtain ds urls where r: "r = Inr (ds, urls)" "map MinIOKey ds = [''l'', ''k'']"
    unfolding run by (cases r) auto
  then have len: "length ds = 2" "MinIOKey (ds ! 0) = ''l''"
    by (auto simp: map_eq_Cons_conv)
  have tick: "tick ?w = 0" by (simp add: demo_active_def init_world_def)
  have two: "\<forall>j < 2. P j \<Longrightarrow> P 0 \<and> P 1" for P :: "nat \<Rightarrow> bool" by simp
  note listed = listing_pairs_documents_and_urls [OF run [unfolded r(1)]]
  have "length urls = 2" using listed len(1) by simp
  moreover have "urls ! 0 = ''http://minio:9000/policy-documents/l'' \<and> urls ! 1 = []"
    using two [OF conjunct1 [OF conjunct2 [OF listed, unfolded len(1)]]]
    unfolding len(2) tick by (simp add: demo_store_def Let_def url_String_def Bucket_def)
  ultimately have "urls = [''http://minio:9000/policy-documents/l'', []]"
    by (intro nth_equalityI) (auto simp: less_2_cases_iff)
  with run r show ?thesis by simp
qed

text \<open>
  C32. The lifecycle rule of the bucket deletes an attestation before the seven years of its comment
  are over: for every day of the years 2001 to 2092, the same day seven years later is more
  days away than the rule keeps an object. Every call sequence of \<open>ensureBucket\<close> that ends
  well sets this rule.
\<close>

theorem objects_expire_before_seven_years:
  assumes "2001 \<le> y" and "y \<le> 2092" and "1 \<le> m" and "m \<le> 12"
    and "fst (ensureBucket exists made set_lifecycle) = None"
  shows "\<exists>rule. last (snd (ensureBucket exists made set_lifecycle)) = SetBucketLifecycle Bucket [rule] \<and>
    days_of_civil y m d + Expiration_Days rule < days_of_civil (y + 7) m d"
proof -
  define y' where "y' = (if m \<le> 2 then y - 1 else y)"
  have y': "2000 \<le> y'" "y' \<le> 2092" and y7: "(if m \<le> 2 then y + 7 - 1 else y + 7) = y' + 7"
    using assms(1,2) by (auto simp: y'_def)
  have era: "y' = 400 * 5 + (y' - 2000)" "y' + 7 = 400 * 5 + (y' - 1993)" by simp_all
  have d: "y' div 400 = 5" "(y' + 7) div 400 = 5"
    using int_div_pos_eq [OF era(1)] int_div_pos_eq [OF era(2)] y' by simp_all
  have m: "y' mod 400 = y' - 2000" "(y' + 7) mod 400 = y' - 1993"
    using int_mod_pos_eq [OF era(1)] int_mod_pos_eq [OF era(2)] y' by simp_all
  have "(y' - 2000) div 100 = 0" "(y' - 1993) div 100 = 0" using y' by simp_all
  moreover have "(y' - 2000) div 4 + 1 \<le> (y' - 1993) div 4" by linarith
  ultimately have "days_of_civil y m d + bucketLifeYears * 365 < days_of_civil (y + 7) m d"
    unfolding days_of_civil_def Let_def y7 y'_def [symmetric] d m bucketLifeYears_def
    by (simp add: algebra_simps)
  moreover have "last (snd (ensureBucket exists made set_lifecycle)) = SetBucketLifecycle Bucket retention_rules"
    using assms(5) by (auto simp: ensureBucket_def split: sum.splits bool.splits option.splits)
  ultimately show ?thesis by (simp add: retention_rules_def)
qed

theorem objects_expire_before_seven_years_witness:
  "days_of_civil 2026 9 1 + 2555 < days_of_civil 2033 9 1"
  using objects_expire_before_seven_years [of 2026 9 "Inr True" None None 1]
  by (simp add: ensureBucket_def retention_rules_def bucketLifeYears_def)

end
