(* ===== verification/Pagination.thy ===== *)
theory Pagination
  imports PolicyRepo "HOL-Library.Sublist"
begin

text \<open>
  Cursor pagination: the cursor survives its encoding, and the pages of a list request are
  consecutive pieces of the selected rows, newest first. The order is total because ids are
  unique, so the pages do not depend on how the table stores its rows.
\<close>

section \<open>Rows in list order\<close>

definition rows_below :: "policy_status option \<Rightarrow> page_key option \<Rightarrow> tables \<Rightarrow> policy list" where
  "rows_below status cursor t =
     rev (sort_key policy_key (select_policies
       (\<lambda>p. (case status of None \<Rightarrow> True | Some s \<Rightarrow> Status p = s) \<and>
            (case cursor of None \<Rightarrow> True | Some k \<Rightarrow> policy_key p < k)) t))"

lemma select_page_rows: "select_page status cursor n t = take n (rows_below status cursor t)"
  by (simp add: select_page_def rows_below_def)

lemma policy_key_inject: "policy_key p = policy_key q \<Longrightarrow> ID p = ID q"
  by (simp add: policy_key_def)

lemma distinct_keys: "distinct (map ID xs) \<Longrightarrow> distinct (map policy_key xs)"
  by (auto simp: distinct_map inj_on_def dest: policy_key_inject)

lemma strictly_sorted_desc:
  fixes key :: "'a \<Rightarrow> 'k :: linorder"
  assumes "distinct (map key xs)"
  shows "sorted_wrt (\<lambda>x y. key y < key x) (rev (sort_key key xs))"
proof -
  have "distinct (map key (sort_key key xs))"
    using assms by (simp add: distinct_map)
  then have "sorted_wrt (<) (map key (sort_key key xs))"
    by (simp add: strict_sorted_iff)
  then show ?thesis by (simp add: sorted_wrt_map sorted_wrt_rev)
qed

lemma rows_below_strict:
  assumes "wf_tables t"
  shows "sorted_wrt (\<lambda>p q. policy_key q < policy_key p) (rows_below status cursor t)"
proof -
  have "distinct (map ID (filter P (t_policies t)))" for P
    using assms by (simp add: wf_tables_def distinct_map_filter_key)
  then show ?thesis
    unfolding rows_below_def select_policies_def by (intro strictly_sorted_desc distinct_keys)
qed

lemma set_rows_below:
  "set (rows_below status cursor t) =
     {p \<in> set (t_policies t). (case status of None \<Rightarrow> True | Some s \<Rightarrow> Status p = s) \<and>
        (case cursor of None \<Rightarrow> True | Some k \<Rightarrow> policy_key p < k)}"
  by (auto simp: rows_below_def select_policies_def)

lemma rows_below_filter:
  "rows_below status (Some k) t = filter (\<lambda>p. policy_key p < k) (rows_below status None t)"
  by (simp add: rows_below_def select_policies_def filter_sort [symmetric] rev_filter conj_commute)

lemma filter_below_drop:
  fixes key :: "'a \<Rightarrow> 'k :: linorder"
  assumes "sorted_wrt (\<lambda>x y. key y < key x) (xs @ x # ys)"
  shows "filter (\<lambda>y. key y < key x) (xs @ x # ys) = ys"
proof -
  have "\<forall>y \<in> set ys. key y < key x" and "\<forall>y \<in> set xs. key x < key y"
    using assms by (auto simp: sorted_wrt_append)
  then have "filter (\<lambda>y. key y < key x) ys = ys" "filter (\<lambda>y. key y < key x) xs = []"
    by (auto simp: filter_empty_conv intro: order.asym)
  then show ?thesis by simp
qed

text \<open>
  A page is followed by the rows below its last one: the rest of the rows when the page is
  full, and nothing when it is not.
\<close>

lemma page_then_rest:
  assumes "wf_tables t" and "page = take n (rows_below status cursor t)" and "page \<noteq> []"
  shows "rows_below status cursor t =
    page @ rows_below status (Some (policy_key (last page))) t"
proof -
  define L where "L = rows_below status cursor t"
  define F where "F = rows_below status None t"
  define x where "x = last page"
  have page: "page = butlast page @ [x]" using assms(3) by (simp add: x_def)
  have split: "L = butlast page @ x # drop n L"
    using page assms(2) append_take_drop_id [of n L] unfolding L_def
    by (metis append.assoc append_Cons append_Nil)
  have strict: "sorted_wrt (\<lambda>p q. policy_key q < policy_key p) L"
    unfolding L_def using assms(1) by (rule rows_below_strict)
  have "rows_below status (Some (policy_key x)) t = filter (\<lambda>p. policy_key p < policy_key x) F"
    by (simp add: rows_below_filter F_def)
  also have "\<dots> = filter (\<lambda>p. policy_key p < policy_key x) L"
  proof (cases cursor)
    case None
    then show ?thesis by (simp add: L_def F_def)
  next
    case (Some k)
    have "x \<in> set L" by (subst split) simp
    then have "policy_key x < k" by (simp add: L_def set_rows_below Some)
    then have "(policy_key p < k \<and> policy_key p < policy_key x) = (policy_key p < policy_key x)" for p
      by auto
    then show ?thesis by (simp add: L_def F_def Some rows_below_filter)
  qed
  also have "\<dots> = drop n L" using strict split filter_below_drop by metis
  finally have "rows_below status (Some (policy_key x)) t = drop n L" .
  then show ?thesis using assms(2) by (simp add: x_def L_def)
qed

section \<open>The cursor\<close>

lemma EncodeToString_eq_Nil [simp]: "EncodeToString s = [] \<longleftrightarrow> s = []"
  by (cases s rule: EncodeToString.cases) auto

lemma split_bar_append: "CHR ''|'' \<notin> set a \<Longrightarrow> split_bar (a @ CHR ''|'' # b) = Some (a, b)"
proof -
  assume "CHR ''|'' \<notin> set a"
  then have "\<forall>c \<in> set a. c \<noteq> CHR ''|''" by auto
  then show ?thesis by (simp add: split_bar_def dropWhile_append2 takeWhile_append2)
qed

text \<open>A codec of cursors, and an environment whose conversions behave as documented.\<close>

locale page_cursor =
  fixes enc :: "time \<Rightarrow> uuid \<Rightarrow> string" and dec :: "string \<Rightarrow> error + (time \<times> uuid)"
    and printable :: "time \<Rightarrow> bool"
  assumes dec_enc: "printable t \<Longrightarrow> dec (enc t u) = Inr (t, u)"
    and enc_not_Nil: "enc t u \<noteq> []"
begin

lemma enc_inject:
  "printable t \<Longrightarrow> printable t' \<Longrightarrow> enc t u = enc t' u' \<longleftrightarrow> t = t' \<and> u = u'"
  by (metis dec_enc prod.inject sum.inject(2))

end

definition printable_year :: "time \<Rightarrow> bool" where
  "printable_year t \<longleftrightarrow> 0 \<le> Year t \<and> Year t \<le> 9999"

locale sound_env =
  tz: timestamptz "env_timestamptz E" + ids: uuid_text "env_uuid_String E" "env_uuid_Parse E"
  for E :: env

sublocale sound_env \<subseteq> cursor: page_cursor "EncodeCursor E" "decodeCursor E" printable_year
proof unfold_locales
  fix t u
  assume "printable_year t"
  then show "decodeCursor E (EncodeCursor E t u) = Inr (t, u)"
    by (simp add: decodeCursor_def EncodeCursor_def Decode_Encode split_bar_append
        bar_Format_RFC3339Nano Parse_Format_RFC3339Nano ids.read_show printable_year_def)
qed (simp add: EncodeCursor_def)

interpretation demo: sound_env "demo_env fs" for fs
  by unfold_locales (simp_all add: micros.tz_idem micros.tz_mono canonical.read_show)

end
