(* ===== verification/Handlers.thy ===== *)
theory Handlers
  imports Http Documents Pagination
begin

text \<open>
  The HTTP handlers of \<^verbatim>\<open>api/handlers\<close>: policies, transitions and documents. A handler takes the
  request, its context and the \<^verbatim>\<open>id\<close> parameter of the path, and returns the response with the
  world its service call leaves. Bodies are decoded as encoding/json does (theory Json).
  What the validator library says of a struct, what the JWT library says of a token and the
  variable \<^verbatim>\<open>VERSION\<close> are arguments, the fields of \<open>web\<close>.
\<close>

section \<open>Request bodies\<close>

record create_policy_request =
  cp_PolicyNumber :: string
  cp_HolderName :: string
  cp_ProductCode :: string
  cp_EffectiveDate :: string
  cp_ExpiryDate :: string

record update_policy_request =
  up_HolderName :: string
  up_ProductCode :: string
  up_EffectiveDate :: string
  up_ExpiryDate :: string

record cancel_request =
  cr_Reason :: string
  cr_EffectiveDate :: time

text \<open>
  The decoders of the three bodies. A \<^verbatim>\<open>time.Time\<close> reads the text between the quotes as it stands,
  and ignores null.
\<close>

definition create_field :: "bytes \<Rightarrow> json \<Rightarrow> create_policy_request \<Rightarrow> create_policy_request option" where
  "create_field name v x =
     (if name = ''POLICY_NUMBER''
      then map_option (\<lambda>s. x\<lparr>cp_PolicyNumber := s\<rparr>) (string_field v (cp_PolicyNumber x))
      else if name = ''HOLDER_NAME''
      then map_option (\<lambda>s. x\<lparr>cp_HolderName := s\<rparr>) (string_field v (cp_HolderName x))
      else if name = ''PRODUCT_CODE''
      then map_option (\<lambda>s. x\<lparr>cp_ProductCode := s\<rparr>) (string_field v (cp_ProductCode x))
      else if name = ''EFFECTIVE_DATE''
      then map_option (\<lambda>s. x\<lparr>cp_EffectiveDate := s\<rparr>) (string_field v (cp_EffectiveDate x))
      else if name = ''EXPIRY_DATE''
      then map_option (\<lambda>s. x\<lparr>cp_ExpiryDate := s\<rparr>) (string_field v (cp_ExpiryDate x))
      else Some x)"

definition decode_create :: "bytes \<Rightarrow> create_policy_request option" where
  "decode_create = Decode create_field \<lparr>cp_PolicyNumber = [], cp_HolderName = [], cp_ProductCode = [],
     cp_EffectiveDate = [], cp_ExpiryDate = []\<rparr>"

definition update_field :: "bytes \<Rightarrow> json \<Rightarrow> update_policy_request \<Rightarrow> update_policy_request option" where
  "update_field name v x =
     (if name = ''HOLDER_NAME''
      then map_option (\<lambda>s. x\<lparr>up_HolderName := s\<rparr>) (string_field v (up_HolderName x))
      else if name = ''PRODUCT_CODE''
      then map_option (\<lambda>s. x\<lparr>up_ProductCode := s\<rparr>) (string_field v (up_ProductCode x))
      else if name = ''EFFECTIVE_DATE''
      then map_option (\<lambda>s. x\<lparr>up_EffectiveDate := s\<rparr>) (string_field v (up_EffectiveDate x))
      else if name = ''EXPIRY_DATE''
      then map_option (\<lambda>s. x\<lparr>up_ExpiryDate := s\<rparr>) (string_field v (up_ExpiryDate x))
      else Some x)"

definition decode_update :: "bytes \<Rightarrow> update_policy_request option" where
  "decode_update = Decode update_field \<lparr>up_HolderName = [], up_ProductCode = [], up_EffectiveDate = [],
     up_ExpiryDate = []\<rparr>"

definition time_field :: "json \<Rightarrow> time \<Rightarrow> time option" where
  "time_field v old = (case v of JString s \<Rightarrow> Parse_RFC3339 s | JNull \<Rightarrow> Some old | _ \<Rightarrow> None)"

definition cancel_field :: "bytes \<Rightarrow> json \<Rightarrow> cancel_request \<Rightarrow> cancel_request option" where
  "cancel_field name v x =
     (if name = ''REASON'' then map_option (\<lambda>s. x\<lparr>cr_Reason := s\<rparr>) (string_field v (cr_Reason x))
      else if name = ''EFFECTIVE_DATE''
      then map_option (\<lambda>t. x\<lparr>cr_EffectiveDate := t\<rparr>) (time_field v (cr_EffectiveDate x))
      else Some x)"

definition decode_cancel :: "bytes \<Rightarrow> cancel_request option" where
  "decode_cancel = Decode cancel_field \<lparr>cr_Reason = [], cr_EffectiveDate = time_zero\<rparr>"

text \<open>The names of the fields as they arrive, and as the decoders see them.\<close>

lemma field_names:
  "to_valid ''policy_number'' = ''policy_number''" "fold_name ''policy_number'' = ''POLICY_NUMBER''"
  "to_valid ''holder_name'' = ''holder_name''" "fold_name ''holder_name'' = ''HOLDER_NAME''"
  "to_valid ''product_code'' = ''product_code''" "fold_name ''product_code'' = ''PRODUCT_CODE''"
  "to_valid ''effective_date'' = ''effective_date''" "fold_name ''effective_date'' = ''EFFECTIVE_DATE''"
  "to_valid ''expiry_date'' = ''expiry_date''" "fold_name ''expiry_date'' = ''EXPIRY_DATE''"
  "to_valid ''reason'' = ''reason''" "fold_name ''reason'' = ''REASON''"
  by code_simp+

text \<open>
  What the handlers and the router take from libraries: the struct validator, the check of a token,
  the \<^verbatim>\<open>VERSION\<close> of the environment and the methods the router knows.
\<close>

record web =
  web_validate_create :: "create_policy_request \<Rightarrow> string option"
  web_validate_update :: "update_policy_request \<Rightarrow> string option"
  web_verify :: "string \<Rightarrow> jwt_answer"
  web_VERSION :: string
  web_method_known :: "string \<Rightarrow> bool"

text \<open>\<^verbatim>\<open>strconv.Atoi\<close>: an optional sign and decimal digits, within the range of a 64-bit int.\<close>

definition Atoi :: "string \<Rightarrow> int option" where
  "Atoi s =
     (let neg = (take 1 s = ''-'');
          ds = (if take 1 s = ''-'' \<or> take 1 s = ''+'' then drop 1 s else s);
          n = (if neg then - int (digits_val ds) else int (digits_val ds))
      in if ds = [] \<or> \<not> list_all is_digit ds then None
         else if - (2 ^ 63) \<le> n \<and> n < 2 ^ 63 then Some n else None)"

section \<open>Policies\<close>

definition toResponse :: "env \<Rightarrow> policy \<Rightarrow> policy_response" where
  "toResponse E p =
     \<lparr>pr_ID = env_uuid_String E (ID p),
      pr_PolicyNumber = PolicyNumber p,
      pr_HolderName = HolderName p,
      pr_ProductCode = ProductCode p,
      pr_Status = Status p,
      pr_EffectiveDate = Format_RFC3339 (EffectiveDate p),
      pr_ExpiryDate = Format_RFC3339 (ExpiryDate p),
      pr_CreatedAt = Format_RFC3339 (CreatedAt p),
      pr_UpdatedAt = Format_RFC3339 (UpdatedAt p)\<rparr>"

definition internal_error :: http_response where
  "internal_error =
     writeProblem StatusInternalServerError ''Internal Server Error'' ''unexpected error''"

definition create_error :: "error \<Rightarrow> http_response" where
  "create_error e =
     (if errors_Is e (PolicyErr ErrInvalidDateRange) \<or> errors_Is e (PolicyErr ErrEmptyPolicyNumber) \<or>
         errors_Is e (PolicyErr ErrEmptyHolderName) \<or> errors_Is e (PolicyErr ErrEmptyProductCode)
      then writeProblem StatusBadRequest ''Validation Error'' (error_text e)
      else if errors_Is e (PortErr ErrPolicyNumberTaken)
      then writeProblem StatusConflict ''Conflict'' (error_text e)
      else internal_error)"

definition CreatePolicy ::
    "web \<Rightarrow> env \<Rightarrow> policy_service \<Rightarrow> request_context \<Rightarrow> http_request \<Rightarrow> world \<Rightarrow>
      http_response \<times> world" where
  "CreatePolicy W E svc ctx r w =
     (case decode_create (rq_Body r) of
        None \<Rightarrow> (writeProblem StatusBadRequest ''Bad Request'' ''invalid JSON body'', w)
      | Some req \<Rightarrow>
          (case web_validate_create W req of
             Some text \<Rightarrow> (writeProblem StatusBadRequest ''Validation Error'' text, w)
           | None \<Rightarrow>
               (case Parse_RFC3339 (cp_EffectiveDate req) of
                  None \<Rightarrow> (writeProblem StatusBadRequest ''Bad Request'' ''invalid effective_date format'', w)
                | Some eff \<Rightarrow>
                    (case Parse_RFC3339 (cp_ExpiryDate req) of
                       None \<Rightarrow> (writeProblem StatusBadRequest ''Bad Request'' ''invalid expiry_date format'', w)
                     | Some expiry \<Rightarrow>
                         (let p = zero_policy\<lparr>PolicyNumber := cp_PolicyNumber req,
                            HolderName := cp_HolderName req, ProductCode := cp_ProductCode req,
                            EffectiveDate := eff, ExpiryDate := expiry\<rparr>
                          in case PolicyService_Create E svc p (SubjectFromContext ctx) w of
                               (Inl e, w1) \<Rightarrow> (create_error e, w1)
                             | (Inr p', w1) \<Rightarrow>
                                 (json_response StatusCreated (Policy_json (toResponse E p')), w1))))))"

definition GetPolicy ::
    "env \<Rightarrow> policy_service \<Rightarrow> string \<Rightarrow> world \<Rightarrow> http_response \<times> world" where
  "GetPolicy E svc param w =
     (case env_uuid_Parse E param of
        None \<Rightarrow> (writeProblem StatusBadRequest ''Bad Request'' ''invalid policy id'', w)
      | Some i \<Rightarrow>
          (case PolicyService_GetByID E svc i w of
             (Inl e, w1) \<Rightarrow>
               (if errors_Is e (ServiceErr ErrPolicyNotFound)
                then writeProblem StatusNotFound ''Not Found'' ''policy not found''
                else internal_error, w1)
           | (Inr p, w1) \<Rightarrow> (json_response StatusOK (Policy_json (toResponse E p)), w1)))"

definition list_request_params :: "http_request \<Rightarrow> list_params" where
  "list_request_params r =
     (let q = rq_Query r;
          l = query_Get q ''limit'';
          limit = (if l \<noteq> []
            then (case Atoi l of Some n \<Rightarrow> if n > 0 \<and> n \<le> 100 then n else 20 | None \<Rightarrow> 20)
            else 20);
          s = query_Get q ''status''
      in \<lparr>lp_Status = (if s \<noteq> [] then Some s else None), lp_Cursor = query_Get q ''cursor'',
          lp_Limit = limit\<rparr>)"

definition ListPolicies ::
    "env \<Rightarrow> policy_service \<Rightarrow> http_request \<Rightarrow> world \<Rightarrow> http_response \<times> world" where
  "ListPolicies E svc r w =
     (let params = list_request_params r
      in case PolicyService_List E svc params w of
           (Inl e, w1) \<Rightarrow> (internal_error, w1)
         | (Inr policies, w1) \<Rightarrow>
             (let items = map (toResponse E) policies;
                  cursor = (if int (length policies) = lp_Limit params
                    then (let p = policies ! (length policies - 1)
                          in EncodeCursor E (CreatedAt p) (ID p))
                    else [])
              in (json_response StatusOK (PolicyList_json items cursor), w1)))"

definition update_error :: "error \<Rightarrow> http_response" where
  "update_error e =
     (if errors_Is e (ServiceErr ErrPolicyNotFound)
      then writeProblem StatusNotFound ''Not Found'' ''policy not found''
      else if errors_Is e (PolicyErr ErrInvalidDateRange)
      then writeProblem StatusBadRequest ''Validation Error'' (error_text e)
      else internal_error)"

definition UpdatePolicy ::
    "web \<Rightarrow> env \<Rightarrow> policy_service \<Rightarrow> string \<Rightarrow> http_request \<Rightarrow> world \<Rightarrow> http_response \<times> world" where
  "UpdatePolicy W E svc param r w =
     (case env_uuid_Parse E param of
        None \<Rightarrow> (writeProblem StatusBadRequest ''Bad Request'' ''invalid policy id'', w)
      | Some i \<Rightarrow>
          (case decode_update (rq_Body r) of
             None \<Rightarrow> (writeProblem StatusBadRequest ''Bad Request'' ''invalid JSON body'', w)
           | Some req \<Rightarrow>
               (case web_validate_update W req of
                  Some text \<Rightarrow> (writeProblem StatusBadRequest ''Validation Error'' text, w)
                | None \<Rightarrow>
                    (case Parse_RFC3339 (up_EffectiveDate req) of
                       None \<Rightarrow>
                         (writeProblem StatusBadRequest ''Bad Request'' ''invalid effective_date format'', w)
                     | Some eff \<Rightarrow>
                         (case Parse_RFC3339 (up_ExpiryDate req) of
                            None \<Rightarrow>
                              (writeProblem StatusBadRequest ''Bad Request'' ''invalid expiry_date format'', w)
                          | Some expiry \<Rightarrow>
                              (let upd = zero_policy\<lparr>HolderName := up_HolderName req,
                                 ProductCode := up_ProductCode req, EffectiveDate := eff,
                                 ExpiryDate := expiry\<rparr>
                               in case PolicyService_Update E svc i upd w of
                                    (Inl e, w1) \<Rightarrow> (update_error e, w1)
                                  | (Inr p, w1) \<Rightarrow>
                                      (json_response StatusOK (Policy_json (toResponse E p)), w1)))))))"

definition cancel_error :: "error \<Rightarrow> http_response" where
  "cancel_error e =
     (if errors_Is e (ServiceErr ErrPolicyNotFound)
      then writeProblem StatusNotFound ''Not Found'' ''policy not found''
      else if errors_Is e (ServiceErr ErrCannotCancel)
      then writeProblem StatusConflict ''Conflict'' (error_text e)
      else internal_error)"

definition no_content :: http_response where
  "no_content = \<lparr>rs_Status = StatusNoContent, rs_ContentType = [], rs_Body = NoBody\<rparr>"

definition CancelPolicy ::
    "env \<Rightarrow> policy_service \<Rightarrow> string \<Rightarrow> world \<Rightarrow> http_response \<times> world" where
  "CancelPolicy E svc param w =
     (case env_uuid_Parse E param of
        None \<Rightarrow> (writeProblem StatusBadRequest ''Bad Request'' ''invalid policy id'', w)
      | Some i \<Rightarrow>
          (case PolicyService_Cancel E svc i w of
             (Some e, w1) \<Rightarrow> (cancel_error e, w1)
           | (None, w1) \<Rightarrow> (no_content, w1)))"

section \<open>Transitions\<close>

definition writeTransitionError :: "error \<Rightarrow> http_response" where
  "writeTransitionError e =
     (if errors_Is e (ServiceErr ErrPolicyNotFound)
      then writeProblem StatusNotFound ''Not Found'' ''policy not found''
      else if errors_Is e (TransitionErr ErrInvalidTransition)
      then writeProblem StatusConflict ''Conflict'' (error_text e)
      else if errors_Is e (ServiceErr ErrReasonRequired)
      then writeProblem StatusUnprocessableEntity ''Unprocessable Entity'' (error_text e)
      else internal_error)"

definition transition_response ::
    "env \<Rightarrow> (error + policy) \<times> world \<Rightarrow> http_response \<times> world" where
  "transition_response E res =
     (case res of
        (Inl e, w1) \<Rightarrow> (writeTransitionError e, w1)
      | (Inr p, w1) \<Rightarrow> (json_response StatusOK (Policy_json (toResponse E p)), w1))"

definition parseUUID :: "env \<Rightarrow> string \<Rightarrow> http_response + uuid" where
  "parseUUID E raw =
     (case env_uuid_Parse E raw of
        None \<Rightarrow> Inl (writeProblem StatusBadRequest ''Bad Request'' ''id must be a valid UUID'')
      | Some i \<Rightarrow> Inr i)"

definition Submit_handler ::
    "env \<Rightarrow> policy_service \<Rightarrow> request_context \<Rightarrow> string \<Rightarrow> world \<Rightarrow> http_response \<times> world" where
  "Submit_handler E svc ctx param w =
     (case parseUUID E param of
        Inl rs \<Rightarrow> (rs, w)
      | Inr i \<Rightarrow> transition_response E (PolicyService_Submit E svc i (SubjectFromContext ctx) w))"

definition Activate_handler ::
    "env \<Rightarrow> policy_service \<Rightarrow> request_context \<Rightarrow> string \<Rightarrow> world \<Rightarrow> http_response \<times> world" where
  "Activate_handler E svc ctx param w =
     (case parseUUID E param of
        Inl rs \<Rightarrow> (rs, w)
      | Inr i \<Rightarrow> transition_response E (PolicyService_Activate E svc i (SubjectFromContext ctx) w))"

definition Cancel_handler ::
    "env \<Rightarrow> policy_service \<Rightarrow> request_context \<Rightarrow> string \<Rightarrow> http_request \<Rightarrow> world \<Rightarrow>
      http_response \<times> world" where
  "Cancel_handler E svc ctx param r w =
     (case parseUUID E param of
        Inl rs \<Rightarrow> (rs, w)
      | Inr i \<Rightarrow>
          (case decode_cancel (rq_Body r) of
             None \<Rightarrow>
               (writeProblem StatusBadRequest ''Bad Request'' ''request body must be valid JSON'', w)
           | Some body \<Rightarrow>
               (if cr_Reason body = []
                then (writeProblem StatusUnprocessableEntity ''Unprocessable Entity''
                  ''reason is required for cancellation'', w)
                else transition_response E
                  (PolicyService_CancelActive E svc i (SubjectFromContext ctx) (cr_Reason body) w))))"

definition audit_response :: "env \<Rightarrow> audit_log \<Rightarrow> audit_log_response" where
  "audit_response E l =
     \<lparr>al_ID = env_uuid_String E (log_ID l), al_PolicyID = env_uuid_String E (log_PolicyID l),
      al_FromStatus = FromStatus l, al_ToStatus = ToStatus l, al_ActorID = ActorID l,
      al_Reason = Reason l, al_OccurredAt = Format_RFC3339 (OccurredAt l)\<rparr>"

definition History_handler ::
    "env \<Rightarrow> policy_service \<Rightarrow> string \<Rightarrow> world \<Rightarrow> http_response \<times> world" where
  "History_handler E svc param w =
     (case parseUUID E param of
        Inl rs \<Rightarrow> (rs, w)
      | Inr i \<Rightarrow>
          (case PolicyService_ListHistory E svc i w of
             (Inl e, w1) \<Rightarrow>
               (if errors_Is e (ServiceErr ErrPolicyNotFound)
                then writeProblem StatusNotFound ''Not Found'' ''policy not found''
                else internal_error, w1)
           | (Inr logs, w1) \<Rightarrow>
               (json_response StatusOK (History_json (map (audit_response E) logs)), w1)))"

section \<open>Documents\<close>

definition writeDocumentError :: "error \<Rightarrow> http_response" where
  "writeDocumentError e =
     (if errors_Is e (ServiceErr ErrPolicyNotFound)
      then writeProblem StatusNotFound ''Not Found'' ''policy not found''
      else if errors_Is e (DocumentErr ErrDocumentForbidden)
      then writeProblem StatusConflict ''Conflict'' (error_text e)
      else if errors_Is e (DocumentErr ErrNoMinIOStore)
      then writeProblem StatusServiceUnavailable ''Service Unavailable'' ''document storage not available''
      else internal_error)"

definition GenerateAttestation_handler ::
    "env \<Rightarrow> document_service \<Rightarrow> string \<Rightarrow> world \<Rightarrow> http_response \<times> world" where
  "GenerateAttestation_handler E docSvc param w =
     (case parseUUID E param of
        Inl rs \<Rightarrow> (rs, w)
      | Inr i \<Rightarrow>
          (case DocumentService_GenerateAttestation E docSvc i w of
             (Inl e, w1) \<Rightarrow> (writeDocumentError e, w1)
           | (Inr result, w1) \<Rightarrow>
               (json_response StatusCreated (Attestation_json
                  (env_uuid_String E (doc_ID (ar_Document result))) (ar_URL result)
                  (Format_RFC3339 (ar_ExpiresAt result))), w1)))"

definition document_item :: "env \<Rightarrow> string list \<Rightarrow> nat \<Rightarrow> document \<Rightarrow> document_list_item" where
  "document_item E urls i d =
     \<lparr>dl_ID = env_uuid_String E (doc_ID d), dl_Type = doc_Type d,
      dl_URL = (if i < length urls then urls ! i else []),
      dl_CreatedAt = Format_RFC3339 (doc_CreatedAt d)\<rparr>"

definition ListDocuments_handler ::
    "env \<Rightarrow> document_service \<Rightarrow> string \<Rightarrow> world \<Rightarrow> http_response \<times> world" where
  "ListDocuments_handler E docSvc param w =
     (case parseUUID E param of
        Inl rs \<Rightarrow> (rs, w)
      | Inr i \<Rightarrow>
          (case DocumentService_ListDocuments E docSvc i w of
             (Inl e, w1) \<Rightarrow> (writeDocumentError e, w1)
           | (Inr (docs, urls), w1) \<Rightarrow>
               (json_response StatusOK (Documents_json
                  (map (\<lambda>(i, d). document_item E urls i d) (zip [0..<length docs] docs))), w1)))"

end
