(* ===== verification/Router.thy ===== *)
theory Router
  imports Handlers
begin

text \<open>
  The router of \<^verbatim>\<open>api/router.go\<close>: the route table, the guards in front of each route and the
  dispatch of a request. The router library is outside the sources; what the table means is
  its documented behaviour: a subrouter's middleware runs before its routes are matched, a
  path without a route is answered 404, a known path with another method 405, and a request
  whose method the library does not know (\<open>web_method_known\<close>) 405 on any path, before any
  middleware of a subrouter.
\<close>

section \<open>Routes\<close>

record server =
  sv_svc :: policy_service
  sv_docs :: "document_service option"
  sv_auth :: bool

datatype endpoint =
    Ep_CreatePolicy | Ep_ListPolicies | Ep_GetPolicy | Ep_UpdatePolicy | Ep_CancelPolicy
  | Ep_Submit | Ep_Activate | Ep_Cancel | Ep_History
  | Ep_GenerateAttestation document_service | Ep_ListDocuments document_service

record route =
  rt_Method :: string
  rt_Scope :: string
  rt_Endpoint :: endpoint
  rt_id :: string

definition read_scope :: string where "read_scope = ''policy:read''"
definition write_scope :: string where "write_scope = ''policy:write''"

definition read_route :: "string \<Rightarrow> endpoint \<Rightarrow> string \<Rightarrow> route" where
  "read_route m ep i = \<lparr>rt_Method = m, rt_Scope = read_scope, rt_Endpoint = ep, rt_id = i\<rparr>"

definition write_route :: "string \<Rightarrow> endpoint \<Rightarrow> string \<Rightarrow> route" where
  "write_route m ep i = \<lparr>rt_Method = m, rt_Scope = write_scope, rt_Endpoint = ep, rt_id = i\<rparr>"

fun split_on :: "char \<Rightarrow> string \<Rightarrow> string list" where
  "split_on c [] = [[]]"
| "split_on c (x # xs) =
     (if x = c then [] # split_on c xs
      else (case split_on c xs of [] \<Rightarrow> [[x]] | s # ss \<Rightarrow> (x # s) # ss))"

text \<open>
  The routes of a path below \<^verbatim>\<open>/v1\<close>, given as its segments. The document routes are there when
  there is a document service, which their handlers are made of.
\<close>

fun routes_at :: "document_service option \<Rightarrow> string list \<Rightarrow> route list" where
  "routes_at docs [a] =
     (if a = ''policies''
      then [write_route ''POST'' Ep_CreatePolicy [], read_route ''GET'' Ep_ListPolicies []] else [])"
| "routes_at docs [a, i] =
     (if a \<noteq> ''policies'' then []
      else if i = []
      then [write_route ''POST'' Ep_CreatePolicy [], read_route ''GET'' Ep_ListPolicies []]
      else [read_route ''GET'' Ep_GetPolicy i, write_route ''PUT'' Ep_UpdatePolicy i,
        write_route ''DELETE'' Ep_CancelPolicy i])"
| "routes_at docs [a, i, b] =
     (if a \<noteq> ''policies'' then []
      else if b = ''submit'' then [write_route ''POST'' Ep_Submit i]
      else if b = ''activate'' then [write_route ''POST'' Ep_Activate i]
      else if b = ''cancel'' then [write_route ''POST'' Ep_Cancel i]
      else if b = ''history'' then [read_route ''GET'' Ep_History i]
      else if b = ''documents''
      then (case docs of None \<Rightarrow> [] | Some ds \<Rightarrow> [read_route ''GET'' (Ep_ListDocuments ds) i])
      else [])"
| "routes_at docs [a, i, b, c] =
     (if a = ''policies'' \<and> b = ''documents'' \<and> c = ''attestation''
      then (case docs of None \<Rightarrow> [] | Some ds \<Rightarrow> [write_route ''POST'' (Ep_GenerateAttestation ds) i])
      else [])"
| "routes_at docs segs = []"

section \<open>Dispatch\<close>

definition not_found :: http_response where
  "not_found = \<lparr>rs_Status = StatusNotFound, rs_ContentType = ''text/plain; charset=utf-8'', rs_Body = Default_text\<rparr>"

definition method_not_allowed :: http_response where
  "method_not_allowed = \<lparr>rs_Status = StatusMethodNotAllowed, rs_ContentType = [], rs_Body = NoBody\<rparr>"

definition healthz :: "web \<Rightarrow> server \<Rightarrow> http_response" where
  "healthz W sv =
     json_response StatusOK (Health_json
       [(''status'', ''ok''), (''service'', ''ktayl-policy-service''),
        (''version'', if web_VERSION W = [] then ''dev'' else web_VERSION W),
        (''nats'', if NATSConnected (sv_svc sv) then ''connected'' else ''disconnected'')])"

fun run_endpoint ::
    "web \<Rightarrow> env \<Rightarrow> server \<Rightarrow> request_context \<Rightarrow> endpoint \<Rightarrow> string \<Rightarrow> http_request \<Rightarrow> world \<Rightarrow>
      http_response \<times> world" where
  "run_endpoint W E sv ctx Ep_CreatePolicy i r w = CreatePolicy W E (sv_svc sv) ctx r w"
| "run_endpoint W E sv ctx Ep_ListPolicies i r w = ListPolicies E (sv_svc sv) r w"
| "run_endpoint W E sv ctx Ep_GetPolicy i r w = GetPolicy E (sv_svc sv) i w"
| "run_endpoint W E sv ctx Ep_UpdatePolicy i r w = UpdatePolicy W E (sv_svc sv) i r w"
| "run_endpoint W E sv ctx Ep_CancelPolicy i r w = CancelPolicy E (sv_svc sv) i w"
| "run_endpoint W E sv ctx Ep_Submit i r w = Submit_handler E (sv_svc sv) ctx i w"
| "run_endpoint W E sv ctx Ep_Activate i r w = Activate_handler E (sv_svc sv) ctx i w"
| "run_endpoint W E sv ctx Ep_Cancel i r w = Cancel_handler E (sv_svc sv) ctx i r w"
| "run_endpoint W E sv ctx Ep_History i r w = History_handler E (sv_svc sv) i w"
| "run_endpoint W E sv ctx (Ep_GenerateAttestation ds) i r w = GenerateAttestation_handler E ds i w"
| "run_endpoint W E sv ctx (Ep_ListDocuments ds) i r w = ListDocuments_handler E ds i w"

definition scope_guard :: "server \<Rightarrow> string \<Rightarrow> request_context \<Rightarrow> http_response option" where
  "scope_guard sv scope ctx = (if sv_auth sv then RequireScope scope ctx else None)"

definition serve_v1 ::
    "web \<Rightarrow> env \<Rightarrow> server \<Rightarrow> request_context \<Rightarrow> string list \<Rightarrow> http_request \<Rightarrow> world \<Rightarrow>
      http_response \<times> world" where
  "serve_v1 W E sv ctx segs r w =
     (let routes = routes_at (sv_docs sv) segs
      in if routes = [] then (not_found, w)
         else (case find (\<lambda>rt. rt_Method rt = rq_Method r) routes of
                 None \<Rightarrow> (method_not_allowed, w)
               | Some rt \<Rightarrow>
                   (case scope_guard sv (rt_Scope rt) ctx of
                      Some rs \<Rightarrow> (rs, w)
                    | None \<Rightarrow> run_endpoint W E sv ctx (rt_Endpoint rt) (rt_id rt) r w)))"

definition ServeHTTP ::
    "web \<Rightarrow> env \<Rightarrow> server \<Rightarrow> http_request \<Rightarrow> world \<Rightarrow> http_response \<times> world" where
  "ServeHTTP W E sv r w =
     (let segs = split_on (CHR ''/'') (rq_Path r)
      in if \<not> web_method_known W (rq_Method r) then (method_not_allowed, w)
         else if segs = [[], ''healthz'']
         then (if rq_Method r = ''GET'' then (healthz W sv, w) else (method_not_allowed, w))
         else if take 2 segs = [[], ''v1'']
         then (if sv_auth sv
               then (case ValidateJWT (web_verify W) r of
                       Inl rs \<Rightarrow> (rs, w)
                     | Inr ctx \<Rightarrow> serve_v1 W E sv ctx (drop 2 segs) r w)
               else serve_v1 W E sv empty_context (drop 2 segs) r w)
         else (not_found, w))"

section \<open>The guards\<close>

fun writes :: "endpoint \<Rightarrow> bool" where
  "writes Ep_ListPolicies = False"
| "writes Ep_GetPolicy = False"
| "writes Ep_History = False"
| "writes (Ep_ListDocuments ds) = False"
| "writes ep = True"

text \<open>Every route that writes is guarded by the write scope, every other one by the read scope.\<close>

lemma routes_scoped:
  assumes "rt \<in> set (routes_at docs segs)"
  shows "rt_Scope rt = (if writes (rt_Endpoint rt) then write_scope else read_scope)"
proof -
  have "list_all (\<lambda>rt. rt_Scope rt = (if writes (rt_Endpoint rt) then write_scope else read_scope))
      (routes_at docs segs)"
    by (induction docs segs rule: routes_at.induct)
      (simp_all add: read_route_def write_route_def split: option.splits)
  with assms show ?thesis by (simp add: list_all_iff)
qed

text \<open>The document routes lead to handlers of the document service of the server.\<close>

lemma routes_docs:
  assumes "rt \<in> set (routes_at docs segs)"
    and "rt_Endpoint rt = Ep_GenerateAttestation ds \<or> rt_Endpoint rt = Ep_ListDocuments ds"
  shows "docs = Some ds"
proof -
  have "list_all (\<lambda>rt. rt_Endpoint rt = Ep_GenerateAttestation ds \<or> rt_Endpoint rt = Ep_ListDocuments ds \<longrightarrow>
      docs = Some ds) (routes_at docs segs)"
    by (induction docs segs rule: routes_at.induct)
      (simp_all add: read_route_def write_route_def split: option.splits)
  with assms show ?thesis unfolding list_all_iff by blast
qed

text \<open>A request that gets to its handler.\<close>

lemma serve_v1_cases:
  assumes "serve_v1 W E sv ctx segs r w = (rs, w')"
  obtains (handled) ep i where "run_endpoint W E sv ctx ep i r w = (rs, w')"
      "sv_auth sv \<Longrightarrow> (if writes ep then write_scope else read_scope) \<in> set (Fields (ScopeFromContext ctx))"
      "\<And>ds. ep = Ep_GenerateAttestation ds \<or> ep = Ep_ListDocuments ds \<Longrightarrow> sv_docs sv = Some ds"
  | (stopped) "w' = w" "rs_Status rs \<in> {StatusNotFound, StatusMethodNotAllowed, StatusForbidden}"
proof -
  let ?routes = "routes_at (sv_docs sv) segs"
  show thesis
  proof (cases "find (\<lambda>rt. rt_Method rt = rq_Method r) ?routes")
    case None
    with assms have "(rs, w') = (not_found, w) \<or> (rs, w') = (method_not_allowed, w)"
      by (simp add: serve_v1_def Let_def split: if_splits)
    then show thesis by (intro stopped) (auto simp: not_found_def method_not_allowed_def)
  next
    case (Some rt)
    have rt: "rt \<in> set ?routes" using find_Some_mem [OF Some] by simp
    then have ne: "?routes \<noteq> []" by auto
    note scope = routes_scoped [OF rt] routes_docs [OF rt]
    show thesis
    proof (cases "scope_guard sv (rt_Scope rt) ctx")
      case None
      with assms Some ne scope handled show thesis
        by (auto simp: serve_v1_def scope_guard_def RequireScope_def Let_def split: if_splits)
    next
      case (Some rs')
      with assms \<open>find _ _ = Some rt\<close> ne have "rs = rs'" "w' = w"
        by (auto simp: serve_v1_def Let_def)
      moreover have "rs_Status rs' = StatusForbidden"
        using Some RequireScope_Some by (auto simp: scope_guard_def split: if_splits)
      ultimately show thesis using stopped by simp
    qed
  qed
qed

lemma ServeHTTP_cases:
  assumes "ServeHTTP W E sv r w = (rs, w')"
  obtains (handled) ctx ep i where "run_endpoint W E sv ctx ep i r w = (rs, w')"
      "\<not> sv_auth sv \<Longrightarrow> ctx = empty_context"
      "sv_auth sv \<Longrightarrow> ValidateJWT (web_verify W) r = Inr ctx \<and>
         (if writes ep then write_scope else read_scope) \<in> set (Fields (ScopeFromContext ctx))"
      "\<And>ds. ep = Ep_GenerateAttestation ds \<or> ep = Ep_ListDocuments ds \<Longrightarrow> sv_docs sv = Some ds"
  | (health) "rs = healthz W sv" "w' = w"
  | (stopped) "w' = w" "rs_Status rs \<in> {StatusNotFound, StatusMethodNotAllowed, StatusForbidden,
      StatusUnauthorized}"
proof -
  let ?segs = "split_on (CHR ''/'') (rq_Path r)"
  show thesis
  proof (cases "web_method_known W (rq_Method r) \<and> take 2 ?segs = [[], ''v1''] \<and> ?segs \<noteq> [[], ''healthz'']")
    case False
    with assms consider "(rs, w') = (healthz W sv, w)" | "(rs, w') = (not_found, w)"
      | "(rs, w') = (method_not_allowed, w)"
      by (auto simp: ServeHTTP_def Let_def split: if_splits)
    then show thesis
      by cases (use health stopped in \<open>simp_all add: not_found_def method_not_allowed_def\<close>)
  next
    case v1: True
    show thesis
    proof (cases "sv_auth sv")
      case False
      with assms v1 have "serve_v1 W E sv empty_context (drop 2 ?segs) r w = (rs, w')"
        by (simp add: ServeHTTP_def Let_def)
      then show thesis
      proof (cases rule: serve_v1_cases)
        case (handled ep i)
        with False that(1) show thesis by blast
      next
        case stopped
        with that(3) show thesis by auto
      qed
    next
      case True
      show thesis
      proof (cases "ValidateJWT (web_verify W) r")
        case (Inl rs')
        with assms v1 True have "rs = rs'" "w' = w" by (auto simp: ServeHTTP_def Let_def)
        with ValidateJWT_Inl [OF Inl] stopped show thesis by simp
      next
        case (Inr ctx)
        with assms v1 True have "serve_v1 W E sv ctx (drop 2 ?segs) r w = (rs, w')"
          by (simp add: ServeHTTP_def Let_def)
        then show thesis
        proof (cases rule: serve_v1_cases)
          case (handled ep i)
          with True Inr that(1) [of ctx ep i] show thesis by blast
        next
          case stopped
          with that(3) show thesis by auto
        qed
      qed
    qed
  qed
qed

end
