(* ===== verification/Races.thy ===== *)
theory Races
  imports Requests
begin

text \<open>
  Requests that overlap. Every write method reads the policy, and writes later what it made of
  the values it read; between the two other requests can commit. A turn is one read, one
  completion of a request that has read before, or a whole request; a schedule is any sequence
  of turns. What the database enforces survives every schedule, what the service checks on the
  values it has read does not.
\<close>

section \<open>Schedules\<close>

datatype write_op =
    W_Transition uuid event string string
  | W_Update uuid policy
  | W_Cancel uuid

fun op_id :: "write_op \<Rightarrow> uuid" where
  "op_id (W_Transition i ev actor reason) = i"
| "op_id (W_Update i upd) = i"
| "op_id (W_Cancel i) = i"

fun after_read :: "env \<Rightarrow> policy_service \<Rightarrow> write_op \<Rightarrow> policy \<Rightarrow> world \<Rightarrow> world" where
  "after_read E s (W_Transition i ev actor reason) p w =
     snd (transition_after_read E s i ev actor reason p w)"
| "after_read E s (W_Update i upd) p w = snd (update_after_read E s upd p w)"
| "after_read E s (W_Cancel i) p w = snd (cancel_after_read E s p w)"

datatype turn = Whole request | Read write_op | Finish nat

fun take_turn ::
    "env \<Rightarrow> policy_service \<Rightarrow> turn \<Rightarrow> world \<times> (write_op \<times> policy) list \<Rightarrow>
      world \<times> (write_op \<times> policy) list" where
  "take_turn E s (Whole r) (w, ps) = (run_request E s r w, ps)"
| "take_turn E s (Read op) (w, ps) =
     (case PolicyService_GetByID E s (op_id op) w of
        (Inl _, w1) \<Rightarrow> (w1, ps)
      | (Inr p, w1) \<Rightarrow> (w1, ps @ [(op, p)]))"
| "take_turn E s (Finish k) (w, ps) =
     (if k < length ps
      then (after_read E s (fst (ps ! k)) (snd (ps ! k)) w, take k ps @ drop (Suc k) ps)
      else (w, ps))"

definition run_schedule :: "env \<Rightarrow> policy_service \<Rightarrow> turn list \<Rightarrow> world \<Rightarrow> world" where
  "run_schedule E s ts w = fst (fold (take_turn E s) ts (w, []))"

text \<open>A request that is not interrupted is its read followed by its completion.\<close>

lemma read_then_finish:
  assumes "calm E" and "policy_at (db w) i = Some p"
  shows "run_schedule E (live_service nats) [Read (W_Cancel i), Finish 0] w =
    run_request E (live_service nats) (Req_Cancel i) w"
  using assms by (simp add: run_schedule_def calm_GetByID Cancel_read)

section \<open>What every schedule keeps\<close>

definition rows_legal :: "tables \<Rightarrow> bool" where
  "rows_legal t \<longleftrightarrow> (\<forall>l \<in> set (t_audit t). legal_move (FromStatus l) (ToStatus l))"

definition safe_change :: "world \<Rightarrow> world \<Rightarrow> bool" where
  "safe_change w w' \<longleftrightarrow> txn w' = None \<and> extends (db w) (db w') \<and>
     (wf_tables (db w) \<longrightarrow> wf_tables (db w')) \<and> (rows_legal (db w) \<longrightarrow> rows_legal (db w'))"

lemma safe_change_trans: "safe_change u v \<Longrightarrow> safe_change v w \<Longrightarrow> safe_change u w"
  unfolding safe_change_def using extends_trans by blast

lemma safe_change_same: "db w' = db w \<Longrightarrow> txn w' = None \<Longrightarrow> safe_change w w'"
  by (simp add: safe_change_def extends_refl)

lemma safe_change_update:
  assumes "update_policies i (policy_columns q) (db w) = Inr (db w')" and "txn w' = None"
  shows "safe_change w w'"
proof -
  have "extends (db w) (db w')"
    using assms(1) by (intro extends_update [where f = "policy_columns q"])
      (auto simp: update_policies_Inr policy_columns_def)
  then show ?thesis
    using assms update_policy.st_wf [OF assms(1)]
    by (auto simp: safe_change_def rows_legal_def update_policies_Inr)
qed

lemma safe_change_moved:
  assumes "moved i s' at l (db w) (db w')" and "txn w' = None"
    and "records l i s s' actor reason" and "Transition s ev = Inr s'"
  shows "safe_change w w'"
proof -
  have "extends (db w) (db w')"
    using moved_tables(1,2) [OF assms(1)]
    by (intro extends_update [where f = "status_columns s' at"]) (auto simp: status_columns_def)
  moreover have "legal_move (FromStatus l) (ToStatus l)"
    using assms(3,4) Transition_legal by (simp add: records_def)
  ultimately show ?thesis
    using assms moved_tables(1) [OF assms(1)] moved_wf [OF assms(1)]
    by (auto simp: safe_change_def rows_legal_def)
qed

lemma safe_change_request:
  assumes "txn w = None"
  shows "safe_change w (run_request E (live_service nats) r w)"
proof -
  have step: "request_step E w (run_request E (live_service nats) r w)"
    using assms by (rule request_refines)
  then have t: "table_step (db w) (db (run_request E (live_service nats) r w))"
    by (simp add: request_step_def)
  have "rows_legal (db (run_request E (live_service nats) r w))" if "rows_legal (db w)"
    using t
  proof cases
    case (moves i p ev s' at l actor reason)
    with that moved_tables(1) [OF moves(4)] Transition_legal show ?thesis
      by (auto simp: rows_legal_def records_def)
  qed (use that in \<open>auto simp: rows_legal_def insert_policy_Inr update_policies_Inr\<close>)
  with step t extends_step table_step_wf show ?thesis
    by (simp add: safe_change_def request_step_def)
qed

lemma safe_change_after_read:
  assumes "txn w = None"
  shows "safe_change w (after_read E (live_service nats) op p w)"
proof (cases op)
  case (W_Transition i ev actor reason)
  obtain r w' where run: "transition_after_read E (live_service nats) i ev actor reason p w = (r, w')"
    by (cases "transition_after_read E (live_service nats) i ev actor reason p w")
  from run assms have "safe_change w w'"
    by (cases rule: live.transition_after_read_cases)
      (blast intro: safe_change_moved safe_change_same)+
  with W_Transition run show ?thesis by simp
next
  case (W_Update i upd)
  obtain r w' where run: "update_after_read E (live_service nats) upd p w = (r, w')"
    by (cases "update_after_read E (live_service nats) upd p w")
  then have "safe_change w w'"
    by (cases rule: live.update_after_read_cases)
      (use assms in \<open>auto intro: safe_change_update safe_change_same simp: only_db_def unchanged_def\<close>)
  with W_Update run show ?thesis by simp
next
  case (W_Cancel i)
  obtain r w' where run: "cancel_after_read E (live_service nats) p w = (r, w')"
    by (cases "cancel_after_read E (live_service nats) p w")
  then have "safe_change w w'"
    by (cases rule: live.cancel_after_read_cases)
      (use assms in \<open>auto intro: safe_change_update safe_change_same simp: only_db_def unchanged_def\<close>)
  with W_Cancel run show ?thesis by simp
qed

lemma safe_change_turn:
  assumes "txn w = None"
  shows "safe_change w (fst (take_turn E (live_service nats) t (w, ps)))"
proof (cases t)
  case (Read op)
  obtain r w' where run: "PolicyService_GetByID E (live_service nats) (op_id op) w = (r, w')"
    by (cases "PolicyService_GetByID E (live_service nats) (op_id op) w")
  then have "unchanged w w'" by (cases rule: live.GetByID_cases)
  with assms have "safe_change w w'" by (intro safe_change_same) (simp_all add: unchangedD)
  with Read run show ?thesis by (simp split: sum.splits)
qed (use assms safe_change_request safe_change_after_read safe_change_same in auto)

lemma safe_change_schedule:
  assumes "txn w = None"
  shows "safe_change w (fst (fold (take_turn E (live_service nats)) ts (w, ps)))"
  using assms
proof (induction ts arbitrary: w ps)
  case Nil
  then show ?case by (simp add: safe_change_same)
next
  case (Cons t ts)
  obtain w1 ps1 where t: "take_turn E (live_service nats) t (w, ps) = (w1, ps1)"
    by (cases "take_turn E (live_service nats) t (w, ps)")
  with safe_change_turn [OF Cons.prems] have "safe_change w w1" by (metis fst_conv)
  moreover from this have "safe_change w1 (fst (fold (take_turn E (live_service nats)) ts (w1, ps1)))"
    by (intro Cons.IH) (simp add: safe_change_def)
  ultimately show ?case using t by (simp add: safe_change_trans)
qed

section \<open>Properties\<close>

text \<open>
  C12. Overlapping requests, in any order and whatever calls fail, keep the constraints of the
  database, add legal moves to the audit log and never take a row from it, keep every policy
  with its number and creation time, and leave no transaction open.
\<close>

theorem overlapping_requests_keep_the_constraints:
  assumes "txn w = None" and "wf_tables (db w)"
    and "\<forall>l \<in> set (t_audit (db w)). legal_move (FromStatus l) (ToStatus l)"
    and "w' = run_schedule E (live_service nats) ts w"
  shows "txn w' = None \<and> wf_tables (db w') \<and> prefix (t_audit (db w)) (t_audit (db w')) \<and>
    (\<forall>l \<in> set (t_audit (db w')). legal_move (FromStatus l) (ToStatus l)) \<and>
    (\<forall>p \<in> set (t_policies (db w)). \<exists>p' \<in> set (t_policies (db w')).
       ID p' = ID p \<and> PolicyNumber p' = PolicyNumber p \<and> CreatedAt p' = CreatedAt p)"
  using safe_change_schedule [OF assms(1), of E nats ts "[]"] assms(2-4)
  by (simp add: run_schedule_def safe_change_def rows_legal_def extends_def)

theorem overlapping_requests_keep_the_constraints_witness:
  "let w' = run_schedule (demo_env []) (live_service None)
       [Read (W_Cancel 7), Whole (Req_Submit 7 ''alice''), Finish 0] demo_world
   in wf_tables (db w') \<and> t_audit (db w') \<noteq> [] \<and>
      (\<forall>l \<in> set (t_audit (db w')). legal_move (FromStatus l) (ToStatus l))"
proof -
  let ?w = "run_schedule (demo_env []) (live_service None)
       [Read (W_Cancel 7), Whole (Req_Submit 7 ''alice''), Finish 0] demo_world"
  have 1: "txn demo_world = None" "wf_tables (db demo_world)" by code_simp+
  have 2: "t_audit (db demo_world) = []" by code_simp
  have "length (t_audit (db ?w)) = 1" by code_simp
  then show ?thesis
    using overlapping_requests_keep_the_constraints [OF 1 _ refl, of "demo_env []" None
        "[Read (W_Cancel 7), Whole (Req_Submit 7 ''alice''), Finish 0]"] 2
    by (auto simp: Let_def)
qed

section \<open>What a stale read does\<close>

text \<open>
  When no call fails, a transition that has read a policy succeeds whatever the policy has
  become since: only the status it has read is looked at.
\<close>

lemma calm_transition_after_read:
  assumes "calm E" and "wf_tables (db w)" and "policy_at (db w) i = Some q"
    and "Transition (Status p) ev = Inr s'" and "text_ok (Status p)" and "text_ok actor" and "text_ok reason"
    and "env_uuid E (tick w + 3) \<notin> log_ID ` set (t_audit (db w))"
    and run: "transition_after_read E (live_service nats) i ev actor reason p w = (r, w')"
  shows "r = Inr (p\<lparr>Status := s', UpdatedAt := env_now E (tick w)\<rparr>)"
    and "tick w + 6 \<le> tick w'" and "tick w' \<le> tick w + 7"
    and "\<exists>l. moved i s' (env_timestamptz E (env_now E (tick w))) l (db w) (db w') \<and>
      records l i (Status p) s' actor reason \<and> log_ID l = env_uuid E (tick w + 3)"
    and "spawned w' = spawned w @ (if nats = None then [] else
      [BuildTransitionEvent E (transition_event_type s') (p\<lparr>Status := s', UpdatedAt := env_now E (tick w)\<rparr>)
        actor reason])"
proof -
  let ?now = "env_now E (tick w)" and ?at = "env_timestamptz E (env_now E (tick w))"
  let ?p = "p\<lparr>Status := s', UpdatedAt := ?now\<rparr>" and ?u = "env_uuid E (tick w + 3)"
  obtain t1 where t1: "update_policies i (status_columns s' ?at) (db w) = Inr t1"
    using status_update_accepted [OF assms(2,4)] by blast
  have new: "?u \<notin> log_ID ` set (t_audit t1)" using t1 assms(8) by (auto simp: update_policies_Inr)
  have "policy_exists i t1"
    using t1 assms(3) update_status.st_policies policy_at_None by (metis option.distinct(1))
  then have audit: "insert_audit l t1 = Inr (t1\<lparr>t_audit := t_audit t1 @ [l]\<rparr>)"
    if "log_PolicyID l = i" "log_ID l = ?u" "list_all text_ok [FromStatus l, ToStatus l, ActorID l, Reason l]" for l
    using that new by (auto simp: insert_audit_def image_iff)
  define n2 where "n2 = (if IsZero ?now then env_now E (Suc (tick w + 3)) else ?now)"
  define k where "k = (if IsZero ?now then tick w + 5 else tick w + 4)"
  define l where "l = \<lparr>log_ID = ?u, log_PolicyID = i, FromStatus = Status p, ToStatus = s', ActorID = actor,
     Reason = reason, OccurredAt = env_timestamptz E n2\<rparr>"
  have texts: "list_all text_ok [Status p, s', actor, reason]"
    using assms(5-7) next_status_text [OF assms(4)] by simp
  have l: "insert_audit l t1 = Inr (t1\<lparr>t_audit := t_audit t1 @ [l]\<rparr>)"
    using texts by (intro audit) (simp_all add: l_def)
  have row: "audit_row E (\<lparr>log_ID = ?u, log_PolicyID = i, FromStatus = Status p, ToStatus = s',
      ActorID = actor, Reason = reason, OccurredAt = n2\<rparr>) = l"
    by (simp add: audit_row_def l_def)
  let ?w1 = "w\<lparr>tick := Suc (Suc (tick w)), txn := Some (Open (db w))\<rparr>"
  let ?w2 = "w\<lparr>tick := tick w + 3, txn := Some (Open t1)\<rparr>"
  let ?w3 = "w\<lparr>tick := Suc k, txn := Some (Open (t1\<lparr>t_audit := t_audit t1 @ [l]\<rparr>))\<rparr>"
  let ?w4 = "w\<lparr>tick := Suc (Suc k), db := t1\<lparr>t_audit := t_audit t1 @ [l]\<rparr>, txn := None\<rparr>"
  have moving: "tx_Exec E (update_policies i (status_columns s' ?at)) ?w1 = (None, ?w2)"
    using assms(1) t1 by (simp add: tx_Exec_def call_def)
  have logging: "AuditLogRepo_Insert E PgxTx \<lparr>log_ID = uuid_Nil, log_PolicyID = i, FromStatus = Status p,
      ToStatus = s', ActorID = actor, Reason = reason, OccurredAt = ?now\<rparr> ?w2 = (None, ?w3)"
    using assms(1) l row
    by (auto simp: AuditLogRepo_Insert_def fresh_log_ID_def uuid_New_def fresh_log_time_def time_Now_def
        tx_Exec_def call_def n2_def k_def)
  have committing: "Commit E ?w3 = (None, ?w4)" using assms(1) by (simp add: Commit_def call_def)
  have "transition_after_read E (live_service nats) i ev actor reason p w =
      (Inr ?p, Rollback (publish E (live_service nats) (transition_event_type s') ?p actor reason ?w4))"
    using assms(1,4) moving logging committing
    by (simp add: transition_after_read_def time_Now_def Let_def BeginTx_def call_def transition_tx_def)
  with run have r: "r = Inr ?p"
    and w': "w' = Rollback (publish E (live_service nats) (transition_event_type s') ?p actor reason ?w4)"
    by simp_all
  have parts: "db w' = t1\<lparr>t_audit := t_audit t1 @ [l]\<rparr>" "tick w' = Suc (Suc k)"
    "spawned w' = spawned w @ (if nats = None then [] else
      [BuildTransitionEvent E (transition_event_type s') ?p actor reason])"
    unfolding w' by (auto simp: Rollback_def publish_def Publisher_def Publisher_PublishAsync_def split: option.splits)
  show "r = Inr ?p" by (rule r)
  show "tick w + 6 \<le> tick w'" "tick w' \<le> tick w + 7" using parts(2) by (simp_all add: k_def)
  show "spawned w' = spawned w @ (if nats = None then [] else
      [BuildTransitionEvent E (transition_event_type s') ?p actor reason])" by (rule parts(3))
  have "moved i s' ?at l (db w) (db w')" using t1 l parts(1) by (auto simp: moved_def)
  moreover have "records l i (Status p) s' actor reason" "log_ID l = ?u" by (simp_all add: records_def l_def)
  ultimately show "\<exists>l. moved i s' ?at l (db w) (db w') \<and> records l i (Status p) s' actor reason \<and> log_ID l = ?u"
    by blast
qed

lemma read_policy:
  assumes "calm E" and "PolicyService_GetByID E (live_service nats) i w = (Inr p, w1)"
  shows "policy_at (db w) i = Some p" and "w1 = w\<lparr>tick := Suc (tick w)\<rparr>"
  using assms by (auto simp: calm_GetByID split: option.splits)

lemma read_status_text:
  assumes "wf_tables t" and "policy_at t i = Some p"
  shows "text_ok (Status p)" and "policies_status_check p" and "ID p = i"
  using assms policy_at_Some [OF assms(2)] by (auto simp: wf_tables_def policies_checks_None)

lemma no_self_move: "Transition s ev = Inr s' \<Longrightarrow> s \<noteq> s'"
  by (erule Transition_cases) (auto elim!: advances.cases simp: status_defs)

text \<open>The last row for a policy whose status is another one does not explain it.\<close>

lemma wrong_last_row:
  assumes "policy_at t i = Some p" and "t_audit t = ls @ [l]" and "log_PolicyID l = i"
    and "ToStatus l \<noteq> Status p"
  shows "\<not> audit_explains t"
proof
  assume "audit_explains t"
  then have "explained p (history_of t i)"
    using policy_at_Some [OF assms(1)] by (auto simp: audit_explains_def)
  moreover have "history_of t i = history_of (t\<lparr>t_audit := ls\<rparr>) i @ [l]"
    using assms(2,3) by (simp add: history_of_def)
  ultimately show False using assms(4) by (simp add: explained_def audit_path_snoc)
qed

lemma repeated_move:
  assumes "policy_at t i = Some p" and "t_audit t = ls @ [l, l']" and "log_PolicyID l = i" "log_PolicyID l' = i"
    and "FromStatus l' \<noteq> ToStatus l"
  shows "\<not> audit_explains t"
proof
  assume "audit_explains t"
  then have "explained p (history_of t i)"
    using policy_at_Some [OF assms(1)] by (auto simp: audit_explains_def)
  moreover have "history_of t i = (history_of (t\<lparr>t_audit := ls\<rparr>) i @ [l]) @ [l']"
    using assms(2-4) by (simp add: history_of_def)
  moreover have "audit_path a (ks @ [l, l']) b \<Longrightarrow> FromStatus l' = ToStatus l" for a ks b
    using audit_path_snoc [of a "ks @ [l]" l' b] by (simp add: audit_path_snoc)
  ultimately show False using assms(5) by (auto simp: explained_def)
qed

lemma calm_applied:
  assumes "PolicyService_GetByID E (live_service nats) i w = (Inr p, w1)" "calm E"
  shows "applyTransition E (live_service nats) i ev actor reason w =
    transition_after_read E (live_service nats) i ev actor reason p w1"
  using assms by (simp add: applyTransition_read)

text \<open>An update that has read a policy writes back the status it has read.\<close>

lemma calm_update_after_read:
  assumes "calm E" and "wf_tables (db w)" and "policy_at (db w) i = Some q" and "ID p = i"
    and "policies_status_check p" and "text_ok (Status p)"
    and "PolicyNumber p \<noteq> []" and "HolderName upd \<noteq> []" and "ProductCode upd \<noteq> []"
    and "EffectiveDate upd < ExpiryDate upd"
    and "env_timestamptz E (EffectiveDate upd) < env_timestamptz E (ExpiryDate upd)"
    and "text_ok (HolderName upd)" and "text_ok (ProductCode upd)"
    and run: "update_after_read E (live_service nats) upd p w = (u, w')"
  shows "\<exists>p' x. u = Inr p' \<and> policy_at (db w') i = Some x \<and> Status x = Status p \<and>
    HolderName x = HolderName upd \<and> t_audit (db w') = t_audit (db w) \<and> spawned w' = spawned w"
proof -
  define n where "n = env_now E (tick w)"
  let ?p = "p\<lparr>HolderName := HolderName upd, ProductCode := ProductCode upd,
    EffectiveDate := EffectiveDate upd, ExpiryDate := ExpiryDate upd, UpdatedAt := n\<rparr>"
  have valid: "Policy_Validate ?p = None" using assms by (simp add: Policy_Validate_None)
  have "policies_checks (policy_columns (policy_row E ?p) r) = None" if "r \<in> set (t_policies (db w))" for r
    using assms(2,5,6,11-13) that
    by (simp add: wf_tables_def policies_checks_None chk_policy_dates_def policies_status_check_def
        policy_columns_def)
  then obtain t where t: "update_policies i (policy_columns (policy_row E ?p)) (db w) = Inr t"
    by (auto simp: update_policies_Inr)
  from run assms(1,4,6,12,13) valid t have "u = Inr ?p" "db w' = t" "spawned w' = spawned w"
    by (auto simp: update_after_read_def with_texts_def texts_check_def time_Now_def Let_def
        PolicyRepo_Update_def calm_Exec n_def)
  with policy_at_columns [OF t assms(3)] show ?thesis by (auto simp: policy_columns_def)
qed

text \<open>
  C28. A check on values that were read before is no check. When no call fails and the ids of the
  audit log are new, a transition that comes in between the read and the write of a valid update
  is undone by it: both are answered as successes, the policy has the status from before the
  transition again, and the audit row and the event of the transition stay, so that the audit
  log does not explain the policy any more.
\<close>

theorem stale_update_reverts_a_transition:
  assumes "calm E" and "wf_tables (db w)" and "\<forall>n. env_uuid E n \<notin> log_ID ` set (t_audit (db w))"
    and read: "PolicyService_GetByID E (live_service nats) i w = (Inr p, w1)"
    and moved: "applyTransition E (live_service nats) i ev actor reason w1 = (r, w2)"
    and written: "update_after_read E (live_service nats) upd p w2 = (u, w3)"
    and "Transition (Status p) ev = Inr s'" and "text_ok actor" and "text_ok reason"
    and "PolicyNumber p \<noteq> []" and "HolderName upd \<noteq> []" and "ProductCode upd \<noteq> []"
    and "EffectiveDate upd < ExpiryDate upd"
    and "env_timestamptz E (EffectiveDate upd) < env_timestamptz E (ExpiryDate upd)"
    and "text_ok (HolderName upd)" and "text_ok (ProductCode upd)"
  shows "\<exists>p2 p3 x2 x3 l. r = Inr p2 \<and> policy_at (db w2) i = Some x2 \<and> Status x2 = s' \<and>
    u = Inr p3 \<and> policy_at (db w3) i = Some x3 \<and> Status x3 = Status p \<and> Status p \<noteq> s' \<and>
    HolderName x3 = HolderName upd \<and> t_audit (db w3) = t_audit (db w) @ [l] \<and>
    records l i (Status p) s' actor reason \<and>
    spawned w3 = spawned w @ (if nats = None then [] else
      [BuildTransitionEvent E (transition_event_type s') p2 actor reason]) \<and>
    \<not> audit_explains (db w3)"
proof -
  note p = read_policy [OF assms(1) read]
  have base: "db w1 = db w" "spawned w1 = spawned w" by (simp_all add: p(2))
  have wf1: "wf_tables (db w1)" and at1: "policy_at (db w1) i = Some p" using assms(2) p(1) base by simp_all
  note known = read_status_text [OF wf1 at1]
  have again: "PolicyService_GetByID E (live_service nats) i w1 = (Inr p, w1\<lparr>tick := Suc (tick w1)\<rparr>)"
    using assms(1) at1 by (simp add: calm_GetByID)
  let ?v = "w1\<lparr>tick := Suc (tick w1)\<rparr>"
  have trans: "transition_after_read E (live_service nats) i ev actor reason p ?v = (r, w2)"
    using moved calm_applied [OF again assms(1)] by simp
  have new: "env_uuid E (tick ?v + 3) \<notin> log_ID ` set (t_audit (db ?v))" using assms(3) base by simp
  have v: "wf_tables (db ?v)" "policy_at (db ?v) i = Some p" using wf1 at1 by simp_all
  note t = calm_transition_after_read [OF assms(1) v assms(7) known(1) assms(8,9) new trans]
  from t(4) obtain at l where l: "moved i s' at l (db ?v) (db w2)" "records l i (Status p) s' actor reason"
    by blast
  have x2: "policy_at (db w2) i = Some (status_columns s' at p)"
    using moved_policy_at [OF l(1)] v(2) by simp
  have wf2: "wf_tables (db w2)" using moved_wf [OF l(1)] v(1) by simp
  from calm_update_after_read [OF assms(1) wf2 x2 known(3,2,1) assms(10-16) written]
  obtain p3 x3 where u: "u = Inr p3" "policy_at (db w3) i = Some x3" "Status x3 = Status p"
    "HolderName x3 = HolderName upd" "t_audit (db w3) = t_audit (db w2)" "spawned w3 = spawned w2" by blast
  have log: "t_audit (db w3) = t_audit (db w) @ [l]" using u(5) moved_tables(1) [OF l(1)] base by simp
  have "\<not> audit_explains (db w3)"
    using u(2) log by (rule wrong_last_row)
      (use l(2) no_self_move [OF assms(7)] u(3) in \<open>auto simp: records_def\<close>)
  with t(1,5) x2 u log l(2) no_self_move [OF assms(7)] base show ?thesis
    by (intro exI [of _ "p\<lparr>Status := s', UpdatedAt := env_now E (tick ?v)\<rparr>"] exI [of _ p3]
        exI [of _ "status_columns s' at p"] exI [of _ x3] exI [of _ l])
      (simp add: status_columns_def)
qed

theorem stale_update_reverts_a_transition_witness:
  "let w1 = snd (PolicyService_GetByID (demo_env []) (live_service (Some True)) 7 demo_world);
       w2 = snd (applyTransition (demo_env []) (live_service (Some True)) 7 EventSubmit ''alice'' [] w1);
       w3 = snd (update_after_read (demo_env []) (live_service (Some True))
         (demo_policy\<lparr>HolderName := ''Grace''\<rparr>) demo_policy w2)
   in map_option Status (policy_at (db w2) 7) = Some StatusSubmitted \<and>
      map_option Status (policy_at (db w3) 7) = Some StatusDraft \<and> length (spawned w3) = 1 \<and>
      \<not> audit_explains (db w3)"
proof -
  let ?s = "live_service (Some True)" and ?E = "demo_env []" and ?u = "demo_policy\<lparr>HolderName := ''Grace''\<rparr>"
  have 1: "wf_tables (db demo_world)" "t_audit (db demo_world) = []" "spawned demo_world = []" by code_simp+
  have 2: "fst (PolicyService_GetByID ?E ?s 7 demo_world) = Inr demo_policy" by code_simp
  obtain w1 where read: "PolicyService_GetByID ?E ?s 7 demo_world = (Inr demo_policy, w1)"
    using 2 by (metis prod.collapse)
  obtain r w2 where moved: "applyTransition ?E ?s 7 EventSubmit ''alice'' [] w1 = (r, w2)" by fastforce
  obtain u w3 where written: "update_after_read ?E ?s ?u demo_policy w2 = (u, w3)" by fastforce
  have 3: "Transition (Status demo_policy) EventSubmit = Inr StatusSubmitted" "text_ok ''alice''"
    "text_ok []" "PolicyNumber demo_policy \<noteq> []" "HolderName ?u \<noteq> []" "ProductCode ?u \<noteq> []"
    "EffectiveDate ?u < ExpiryDate ?u" "floor_micros (EffectiveDate ?u) < floor_micros (ExpiryDate ?u)"
    "text_ok (HolderName ?u)" "text_ok (ProductCode ?u)" "Status demo_policy = StatusDraft" by code_simp+
  have 4: "\<forall>n. env_uuid ?E n \<notin> log_ID ` set (t_audit (db demo_world))"
    "env_timestamptz ?E (EffectiveDate ?u) < env_timestamptz ?E (ExpiryDate ?u)"
    using 1 3 by simp_all
  from stale_update_reverts_a_transition [OF calm_demo 1(1) 4(1) read moved written 3(1-7) 4(2) 3(9,10)]
  show ?thesis using read moved written 1(3) 3(11) by (auto simp: Let_def)
qed

text \<open>
  C29. Submissions are checked against the draft they have read. When no call fails and the ids drawn
  for the audit log are new, two submissions of a draft of which one has read it before the
  other both succeed, and the same move from draft to submitted is twice in the audit log, which
  does not explain the policy any more; and a submission that has read the draft before it was
  cancelled succeeds and brings the terminated policy back as submitted.
\<close>

theorem stale_submissions_succeed:
  assumes "calm E" and "wf_tables (db w)" and "\<forall>n. env_uuid E n \<notin> log_ID ` set (t_audit (db w))"
    and "inj_on (env_uuid E) {tick w..<tick w + 20}"
    and read: "PolicyService_GetByID E (live_service nats) i w = (Inr p, w1)"
    and "Status p = StatusDraft" and "text_ok alice" and "text_ok bob"
    and first: "PolicyService_Submit E (live_service nats) i bob w1 = (r, w2)"
    and late: "transition_after_read E (live_service nats) i EventSubmit alice [] p w2 = (s, w3)"
    and cancelled: "PolicyService_Cancel E (live_service nats) i w1 = (None, v2)"
    and undone: "transition_after_read E (live_service nats) i EventSubmit alice [] p v2 = (u, v3)"
  shows "(\<exists>p2 p3 x l l'. r = Inr p2 \<and> s = Inr p3 \<and> policy_at (db w3) i = Some x \<and> Status x = StatusSubmitted \<and>
      t_audit (db w3) = t_audit (db w) @ [l, l'] \<and> records l i StatusDraft StatusSubmitted bob [] \<and>
      records l' i StatusDraft StatusSubmitted alice [] \<and> \<not> audit_explains (db w3)) \<and>
    (\<exists>p3 x y. policy_at (db v2) i = Some x \<and> Status x = StatusTerminated \<and> u = Inr p3 \<and>
      policy_at (db v3) i = Some y \<and> Status y = StatusSubmitted)"
proof
  note p = read_policy [OF assms(1) read]
  have wf1: "wf_tables (db w1)" and at1: "policy_at (db w1) i = Some p" using assms(2) p by simp_all
  have move: "Transition (Status p) EventSubmit = Inr StatusSubmitted" unfolding assms(6) by code_simp
  have texts: "text_ok (Status p)" "text_ok []" using read_status_text [OF wf1 at1] by (simp_all add: text_ok_def)
  have again: "PolicyService_GetByID E (live_service nats) i w1 = (Inr p, w1\<lparr>tick := Suc (tick w1)\<rparr>)"
    using assms(1) at1 by (simp add: calm_GetByID)
  let ?v = "w1\<lparr>tick := Suc (tick w1)\<rparr>"
  have v: "wf_tables (db ?v)" "policy_at (db ?v) i = Some p" using wf1 at1 by simp_all
  show "\<exists>p2 p3 x l l'. r = Inr p2 \<and> s = Inr p3 \<and> policy_at (db w3) i = Some x \<and> Status x = StatusSubmitted \<and>
      t_audit (db w3) = t_audit (db w) @ [l, l'] \<and> records l i StatusDraft StatusSubmitted bob [] \<and>
      records l' i StatusDraft StatusSubmitted alice [] \<and> \<not> audit_explains (db w3)"
  proof -
    have trans: "transition_after_read E (live_service nats) i EventSubmit bob [] p ?v = (r, w2)"
      using first calm_applied [OF again assms(1)] by (simp add: PolicyService_Submit_def)
    have new: "env_uuid E (tick ?v + 3) \<notin> log_ID ` set (t_audit (db ?v))" using assms(3) p(2) by simp
    note t = calm_transition_after_read [OF assms(1) v move texts(1) assms(8) texts(2) new trans]
    from t(4) obtain at l where l: "moved i StatusSubmitted at l (db ?v) (db w2)"
      "records l i StatusDraft StatusSubmitted bob []" "log_ID l = env_uuid E (tick ?v + 3)"
      unfolding assms(6) by blast
    have x2: "policy_at (db w2) i = Some (status_columns StatusSubmitted at p)"
      using moved_policy_at [OF l(1)] v(2) by simp
    have wf2: "wf_tables (db w2)" using moved_wf [OF l(1)] v(1) by simp
    have log2: "t_audit (db w2) = t_audit (db w) @ [l]" using moved_tables(1) [OF l(1)] p(2) by simp
    have "env_uuid E (tick w2 + 3) \<noteq> env_uuid E (tick ?v + 3)"
      using assms(4) t(2,3) p(2) by (auto dest: inj_onD)
    then have new2: "env_uuid E (tick w2 + 3) \<notin> log_ID ` set (t_audit (db w2))"
      using assms(3) l(3) by (simp add: log2)
    note t2 = calm_transition_after_read [OF assms(1) wf2 x2 move texts(1) assms(7) texts(2) new2 late]
    from t2(4) obtain at' l' where l': "moved i StatusSubmitted at' l' (db w2) (db w3)"
      "records l' i StatusDraft StatusSubmitted alice []" unfolding assms(6) by blast
    have log3: "t_audit (db w3) = t_audit (db w) @ [l, l']" using moved_tables(1) [OF l'(1)] log2 by simp
    have x3: "policy_at (db w3) i = Some (status_columns StatusSubmitted at' (status_columns StatusSubmitted at p))"
      using moved_policy_at [OF l'(1)] x2 by simp
    have "\<not> audit_explains (db w3)"
      using x3 log3 by (rule repeated_move) (use l(2) l'(2) in \<open>auto simp: records_def status_defs\<close>)
    with t(1) t2(1) x3 log3 l(2) l'(2) show ?thesis by (auto simp: status_columns_def)
  qed
next
  note p = read_policy [OF assms(1) read]
  have wf1: "wf_tables (db w1)" and at1: "policy_at (db w1) i = Some p" using assms(2) p by simp_all
  have move: "Transition (Status p) EventSubmit = Inr StatusSubmitted" unfolding assms(6) by code_simp
  have texts: "text_ok (Status p)" "text_ok []" using read_status_text [OF wf1 at1] by (simp_all add: text_ok_def)
  show "\<exists>p3 x y. policy_at (db v2) i = Some x \<and> Status x = StatusTerminated \<and> u = Inr p3 \<and>
      policy_at (db v3) i = Some y \<and> Status y = StatusSubmitted"
    using cancelled
  proof (cases rule: live.Cancel_cases)
    case (written q q' n)
    from policy_at_columns [OF written(5,1)]
    have x2: "policy_at (db v2) i = Some (policy_columns (policy_row E q') q)"
      and log: "t_audit (db v2) = t_audit (db w1)" by simp_all
    have wf2: "wf_tables (db v2)" using update_policy.st_wf [OF written(5) wf1] .
    have new: "env_uuid E (tick v2 + 3) \<notin> log_ID ` set (t_audit (db v2))" using assms(3) log p(2) by simp
    note t = calm_transition_after_read [OF assms(1) wf2 x2 move texts(1) assms(7) texts(2) new undone]
    from t(4) obtain at l where l: "moved i StatusSubmitted at l (db v2) (db v3)" by blast
    have "policy_at (db v3) i = Some (status_columns StatusSubmitted at (policy_columns (policy_row E q') q))"
      using moved_policy_at [OF l] x2 by simp
    with t(1) x2 written(3) show ?thesis by (auto simp: status_columns_def policy_columns_def)
  qed simp
qed

theorem stale_submissions_succeed_witness:
  "let w1 = snd (PolicyService_GetByID (demo_env []) (live_service None) 7 demo_world);
       w2 = snd (PolicyService_Submit (demo_env []) (live_service None) 7 ''bob'' w1);
       w3 = snd (transition_after_read (demo_env []) (live_service None) 7 EventSubmit ''alice'' [] demo_policy w2)
   in length (t_audit (db w3)) = 2 \<and> \<not> audit_explains (db w3)"
proof -
  let ?s = "live_service None" and ?E = "demo_env []"
  have 1: "wf_tables (db demo_world)" "t_audit (db demo_world) = []" "tick demo_world = 0" by code_simp+
  have 2: "fst (PolicyService_GetByID ?E ?s 7 demo_world) = Inr demo_policy" by code_simp
  obtain w1 where read: "PolicyService_GetByID ?E ?s 7 demo_world = (Inr demo_policy, w1)"
    using 2 by (metis prod.collapse)
  obtain r w2 where first: "PolicyService_Submit ?E ?s 7 ''bob'' w1 = (r, w2)" by fastforce
  obtain s w3 where late: "transition_after_read ?E ?s 7 EventSubmit ''alice'' [] demo_policy w2 = (s, w3)"
    by fastforce
  have "fst (PolicyService_Cancel ?E ?s 7 (snd (PolicyService_GetByID ?E ?s 7 demo_world))) = None" by code_simp
  then obtain v2 where cancelled: "PolicyService_Cancel ?E ?s 7 w1 = (None, v2)"
    unfolding read by (metis prod.collapse snd_conv)
  obtain u v3 where undone: "transition_after_read ?E ?s 7 EventSubmit ''alice'' [] demo_policy v2 = (u, v3)"
    by fastforce
  have 3: "Status demo_policy = StatusDraft" "text_ok ''alice''" "text_ok ''bob''" by code_simp+
  have new: "\<forall>n. env_uuid ?E n \<notin> log_ID ` set (t_audit (db demo_world))" using 1(2) by simp
  have "inj_on (of_nat :: nat \<Rightarrow> uuid) {0..<20}"
    by (intro inj_onI) (simp add: word_of_nat_eq_iff take_bit_nat_eq_self)
  then have "inj_on (env_uuid ?E) {tick demo_world..<tick demo_world + 20}" unfolding 1(3) by (simp add: demo_env_def)
  from stale_submissions_succeed [OF calm_demo 1(1) new this read 3 first late cancelled undone]
  show ?thesis using read first late 1(2) by (auto simp: Let_def)
qed

end
