(* ===== verification/Api.thy ===== *)
theory Api
  imports Router Races
begin

text \<open>
  The service behind its router: who can change what, how outcomes become statuses, and what a
  client sees across requests. The server is the one \<^verbatim>\<open>main.go\<close> builds on a database, with or
  without publisher, document store and authentication.
\<close>

section \<open>The live server\<close>

type_synonym document_backend = "(pdf_call list \<Rightarrow> error + bytes) \<times> minio_store \<times> duration"

definition live_server :: "bool option \<Rightarrow> document_backend option \<Rightarrow> bool \<Rightarrow> server" where
  "live_server nats docs auth =
     \<lparr>sv_svc = live_service nats,
      sv_docs = map_option (\<lambda>(render, store, ttl). live_documents render store ttl) docs,
      sv_auth = auth\<rparr>"

lemma live_server_simps [simp]:
  "sv_svc (live_server nats docs auth) = live_service nats"
  "sv_auth (live_server nats docs auth) = auth"
  "sv_docs (live_server nats docs auth) =
     map_option (\<lambda>(render, store, ttl). live_documents render store ttl) docs"
  by (simp_all add: live_server_def)

section \<open>What an endpoint does to the world\<close>

text \<open>The audit rows a call adds, all with one actor.\<close>

definition audited_by :: "string \<Rightarrow> world \<Rightarrow> world \<Rightarrow> bool" where
  "audited_by actor w w' \<longleftrightarrow> txn w' = None \<and>
     (\<exists>ls. t_audit (db w') = t_audit (db w) @ ls \<and> (\<forall>l \<in> set ls. ActorID l = actor))"

lemma audited_by_same: "txn w' = None \<Longrightarrow> t_audit (db w') = t_audit (db w) \<Longrightarrow> audited_by actor w w'"
  by (auto simp: audited_by_def)

lemma audited_by_unchanged: "unchanged w w' \<Longrightarrow> txn w = None \<Longrightarrow> audited_by actor w w'"
  by (intro audited_by_same) (simp_all add: unchangedD)

lemma transition_audited:
  assumes "txn w = None"
  shows "audited_by actor w (snd (applyTransition E (live_service nats) i ev actor reason w))"
proof -
  obtain r w' where run: "applyTransition E (live_service nats) i ev actor reason w = (r, w')"
    by (cases "applyTransition E (live_service nats) i ev actor reason w")
  from run assms have "audited_by actor w w'"
  proof (cases rule: live.applyTransition_cases)
    case (completed p s' n l)
    with moved_tables(1) [OF completed(4)] show ?thesis
      by (auto simp: audited_by_def records_def)
  next
    case (unanswered p s' n l e)
    with moved_tables(1) [OF unanswered(4)] show ?thesis
      by (auto simp: audited_by_def records_def)
  next
    case (refused e)
    then show ?thesis by (simp add: audited_by_same)
  qed
  with run show ?thesis by simp
qed

lemma create_audited:
  assumes "txn w = None"
  shows "audited_by a w (snd (PolicyService_Create E (live_service nats) p actor w))"
proof -
  obtain r w' where run: "PolicyService_Create E (live_service nats) p actor w = (r, w')"
    by (cases "PolicyService_Create E (live_service nats) p actor w")
  then have "audited_by a w w'"
  proof (cases rule: live.Create_cases)
    case (stored p' u n)
    with assms policy_at_inserted(4) [OF stored(4)] show ?thesis by (simp add: audited_by_same)
  next
    case (unanswered p' u n e)
    with assms policy_at_inserted(4) [OF unanswered(4)] show ?thesis
      by (simp add: audited_by_same only_db_def)
  next
    case (refused e)
    with assms show ?thesis by (simp add: audited_by_unchanged)
  qed
  with run show ?thesis by simp
qed

lemma update_audited:
  assumes "txn w = None"
  shows "audited_by a w (snd (PolicyService_Update E (live_service nats) i upd w))"
proof -
  obtain r w' where run: "PolicyService_Update E (live_service nats) i upd w = (r, w')"
    by (cases "PolicyService_Update E (live_service nats) i upd w")
  then have "audited_by a w w'"
  proof (cases rule: live.Update_cases)
    case (stored p p' n)
    with assms policy_at_columns(2) [OF stored(6,2)] show ?thesis
      by (simp add: audited_by_same only_db_def)
  next
    case (unanswered p p' n e)
    with assms policy_at_columns(2) [OF unanswered(6,2)] show ?thesis
      by (simp add: audited_by_same only_db_def)
  next
    case (refused e)
    with assms show ?thesis by (simp add: audited_by_unchanged)
  qed
  with run show ?thesis by simp
qed

lemma cancel_audited:
  assumes "txn w = None"
  shows "audited_by a w (snd (PolicyService_Cancel E (live_service nats) i w))"
proof -
  obtain r w' where run: "PolicyService_Cancel E (live_service nats) i w = (r, w')"
    by (cases "PolicyService_Cancel E (live_service nats) i w")
  then have "audited_by a w w'"
  proof (cases rule: live.Cancel_cases)
    case (written p p' n)
    with assms policy_at_columns(2) [OF written(5,1)] show ?thesis
      by (simp add: audited_by_same only_db_def)
  next
    case (refused e)
    with assms show ?thesis by (simp add: audited_by_unchanged)
  qed
  with run show ?thesis by simp
qed

lemma attestation_audited:
  assumes "txn w = None"
  shows "audited_by a w
    (snd (DocumentService_GenerateAttestation E (live_documents render store ttl) i w))"
proof -
  obtain r w' where
    run: "DocumentService_GenerateAttestation E (live_documents render store ttl) i w = (r, w')"
    by (cases "DocumentService_GenerateAttestation E (live_documents render store ttl) i w")
  then have "audited_by a w w'"
  proof (cases rule: live_docs.GenerateAttestation_cases)
    case (generated p data w1 doc)
    with assms show ?thesis by (auto simp: audited_by_same insert_document_Inr)
  next
    case (failed e)
    with assms show ?thesis by (simp add: audited_by_same)
  qed
  with run show ?thesis by simp
qed

lemma unchanged_reads:
  "unchanged w (snd (PolicyService_GetByID E (live_service nats) i w))"
  "unchanged w (snd (PolicyService_List E (live_service nats) params w))"
  "unchanged w (snd (PolicyService_ListHistory E (live_service nats) i w))"
  "unchanged w (snd (DocumentService_ListDocuments E (live_documents render store ttl) i w))"
proof -
  show "unchanged w (snd (PolicyService_GetByID E (live_service nats) i w))"
    using live.GetByID_cases [OF prod.collapse [symmetric]] by metis
  show "unchanged w (snd (PolicyService_List E (live_service nats) params w))"
    using PolicyRepo_List_unchanged [OF prod.collapse [symmetric]]
    by (simp add: PolicyService_List_def)
  show "unchanged w (snd (PolicyService_ListHistory E (live_service nats) i w))"
    by (rule live.ListHistory_cases(1) [OF prod.collapse [symmetric]])
  show "unchanged w (snd (DocumentService_ListDocuments E (live_documents render store ttl) i w))"
    using ListDocuments_result [OF prod.collapse [symmetric]] by blast
qed

text \<open>Through a handler, the world is the one its service call left, or the old one.\<close>

lemma handler_worlds:
  "snd (CreatePolicy W E svc ctx r w) = w \<or>
    (\<exists>p. snd (CreatePolicy W E svc ctx r w) = snd (PolicyService_Create E svc p (SubjectFromContext ctx) w))"
  "snd (UpdatePolicy W E svc i r w) = w \<or>
    (\<exists>k p. snd (UpdatePolicy W E svc i r w) = snd (PolicyService_Update E svc k p w))"
  "snd (CancelPolicy E svc i w) = w \<or>
    (\<exists>k. snd (CancelPolicy E svc i w) = snd (PolicyService_Cancel E svc k w))"
  "snd (GetPolicy E svc i w) = w \<or>
    (\<exists>k. snd (GetPolicy E svc i w) = snd (PolicyService_GetByID E svc k w))"
  "snd (ListPolicies E svc r w) = snd (PolicyService_List E svc (list_request_params r) w)"
  "snd (History_handler E svc i w) = w \<or>
    (\<exists>k. snd (History_handler E svc i w) = snd (PolicyService_ListHistory E svc k w))"
  by (auto simp: CreatePolicy_def UpdatePolicy_def CancelPolicy_def GetPolicy_def ListPolicies_def
      History_handler_def parseUUID_def Let_def split: option.splits sum.splits prod.splits)
    (metis snd_conv)+

lemma transition_response_world: "snd (transition_response E res) = snd res"
  by (simp add: transition_response_def split: prod.splits sum.splits)

lemma transition_worlds:
  "snd (Submit_handler E svc ctx i w) = w \<or>
    (\<exists>k ev rs. snd (Submit_handler E svc ctx i w) = snd (applyTransition E svc k ev (SubjectFromContext ctx) rs w))"
  "snd (Activate_handler E svc ctx i w) = w \<or>
    (\<exists>k ev rs. snd (Activate_handler E svc ctx i w) = snd (applyTransition E svc k ev (SubjectFromContext ctx) rs w))"
  "snd (Cancel_handler E svc ctx i r w) = w \<or>
    (\<exists>k ev rs. snd (Cancel_handler E svc ctx i r w) = snd (applyTransition E svc k ev (SubjectFromContext ctx) rs w))"
  by (auto simp: Submit_handler_def Activate_handler_def Cancel_handler_def transition_response_world
      PolicyService_Submit_def PolicyService_Activate_def PolicyService_CancelActive_def
      split: sum.splits option.splits)

lemma document_worlds:
  "snd (GenerateAttestation_handler E ds i w) = w \<or>
    (\<exists>k. snd (GenerateAttestation_handler E ds i w) = snd (DocumentService_GenerateAttestation E ds k w))"
  "snd (ListDocuments_handler E ds i w) = w \<or>
    (\<exists>k. snd (ListDocuments_handler E ds i w) = snd (DocumentService_ListDocuments E ds k w))"
  by (auto simp: GenerateAttestation_handler_def ListDocuments_handler_def
      split: sum.splits prod.splits)
    (metis snd_conv)+

text \<open>One endpoint: reads leave the world alone, and audit rows carry the subject.\<close>

lemma endpoint_audited:
  assumes "txn w = None"
    and "\<And>ds. ep = Ep_GenerateAttestation ds \<or> ep = Ep_ListDocuments ds \<Longrightarrow>
      sv_docs (live_server nats docs auth) = Some ds"
  shows "audited_by (SubjectFromContext ctx) w
    (snd (run_endpoint W E (live_server nats docs auth) ctx ep i r w))"
proof -
  have same: "audited_by a w w" for a using assms(1) by (simp add: audited_by_same)
  note read = unchanged_reads [THEN audited_by_unchanged, OF assms(1)]
  note call = create_audited [OF assms(1)] update_audited [OF assms(1)] cancel_audited [OF assms(1)]
    transition_audited [OF assms(1)] attestation_audited [OF assms(1)]
  show ?thesis
  proof (cases ep)
    case Ep_CreatePolicy
    then show ?thesis using handler_worlds(1) [of W E "live_service nats" ctx r w] same call(1) by auto
  next
    case Ep_UpdatePolicy
    then show ?thesis using handler_worlds(2) [of W E "live_service nats" i r w] same call(2) by auto
  next
    case Ep_CancelPolicy
    then show ?thesis using handler_worlds(3) [of E "live_service nats" i w] same call(3) by auto
  next
    case Ep_GetPolicy
    then show ?thesis using handler_worlds(4) [of E "live_service nats" i w] same read(1) by auto
  next
    case Ep_ListPolicies
    then show ?thesis using handler_worlds(5) [of E "live_service nats" r w] read(2) by simp
  next
    case Ep_History
    then show ?thesis using handler_worlds(6) [of E "live_service nats" i w] same read(3) by auto
  next
    case Ep_Submit
    then show ?thesis using transition_worlds(1) [of E "live_service nats" ctx i w] same call(4) by auto
  next
    case Ep_Activate
    then show ?thesis using transition_worlds(2) [of E "live_service nats" ctx i w] same call(4) by auto
  next
    case Ep_Cancel
    then show ?thesis
      using transition_worlds(3) [of E "live_service nats" ctx i r w] same call(4) by auto
  next
    case (Ep_GenerateAttestation ds)
    with assms(2) obtain render store ttl where "ds = live_documents render store ttl" by auto
    then show ?thesis
      using document_worlds(1) [of E ds i w] Ep_GenerateAttestation same call(5) by auto
  next
    case (Ep_ListDocuments ds)
    with assms(2) obtain render store ttl where "ds = live_documents render store ttl" by auto
    then show ?thesis
      using document_worlds(2) [of E ds i w] Ep_ListDocuments same read(4) by auto
  qed
qed

lemma reads_unchanged:
  assumes "\<not> writes ep"
    and "\<And>ds. ep = Ep_GenerateAttestation ds \<or> ep = Ep_ListDocuments ds \<Longrightarrow>
      sv_docs (live_server nats docs auth) = Some ds"
  shows "unchanged w (snd (run_endpoint W E (live_server nats docs auth) ctx ep i r w))"
proof (cases ep)
  case Ep_GetPolicy
  then show ?thesis
    using handler_worlds(4) [of E "live_service nats" i w] unchanged_reads(1) by auto
next
  case Ep_ListPolicies
  then show ?thesis
    using handler_worlds(5) [of E "live_service nats" r w] unchanged_reads(2) by simp
next
  case Ep_History
  then show ?thesis
    using handler_worlds(6) [of E "live_service nats" i w] unchanged_reads(3) by auto
next
  case (Ep_ListDocuments ds)
  with assms(2) obtain render store ttl where "ds = live_documents render store ttl" by auto
  then show ?thesis
    using document_worlds(2) [of E ds i w] Ep_ListDocuments unchanged_reads(4) by auto
qed (use assms(1) in simp_all)

section \<open>Who can change what\<close>

text \<open>
  C3. With authentication on, nobody changes anything without a write token: if a request leaves
  other tables, objects or events behind, its Authorization header carried a bearer token the
  key set accepts as valid, whose scope claim grants \<^verbatim>\<open>policy:write\<close>; and every audit row it added
  names the subject of that token as its actor.
\<close>

theorem writes_need_the_write_scope:
  assumes "ServeHTTP W E (live_server nats docs True) r w = (rs, w')"
    and "txn w = None"
    and "db w' \<noteq> db w \<or> objects w' \<noteq> objects w \<or> spawned w' \<noteq> spawned w"
  shows "\<exists>raw claims ls. rq_Authorization r = ''Bearer '' @ raw \<and> web_verify W raw = Jwt_token True claims \<and>
    ''policy:write'' \<in> set (Fields (string_claim claims ''scope'')) \<and>
    t_audit (db w') = t_audit (db w) @ ls \<and> (\<forall>l \<in> set ls. ActorID l = string_claim claims ''sub'')"
  using assms(1)
proof (cases rule: ServeHTTP_cases)
  case (handled ctx ep i)
  then have w': "w' = snd (run_endpoint W E (live_server nats docs True) ctx ep i r w)" by simp
  have "writes ep"
  proof (rule ccontr)
    assume "\<not> writes ep"
    then have "unchanged w w'" unfolding w' using handled(4) by (rule reads_unchanged)
    from unchangedD [OF this] assms(3) show False by simp
  qed
  moreover obtain raw claims where
    "rq_Authorization r = bearer @ raw" "web_verify W raw = Jwt_token True claims"
    "ctx = \<lparr>cx_Subject = Some (string_claim claims ''sub''), cx_Scope = Some (string_claim claims ''scope'')\<rparr>"
    using handled(3) by (auto simp: ValidateJWT_Inr)
  moreover have "audited_by (SubjectFromContext ctx) w w'"
    unfolding w' using assms(2) handled(4) by (rule endpoint_audited)
  ultimately show ?thesis
    using handled(3)
    by (auto simp: audited_by_def SubjectFromContext_def ScopeFromContext_def bearer_def write_scope_def)
next
  case health
  with assms(3) show ?thesis by simp
next
  case stopped
  with assms(3) show ?thesis by simp
qed

text \<open>For the examples: one valid token, of alice, who may read and write.\<close>

definition demo_web :: web where
  "demo_web = \<lparr>web_validate_create = (\<lambda>_. None), web_validate_update = (\<lambda>_. None),
     web_verify = (\<lambda>raw. if raw = ''alice-token''
       then Jwt_token True [''sub'' \<mapsto> Claim_string ''alice'', ''scope'' \<mapsto> Claim_string ''policy:read policy:write'']
       else Jwt_error False),
     web_VERSION = [],
     web_method_known = (\<lambda>m. m \<in> {''CONNECT'', ''DELETE'', ''GET'', ''HEAD'', ''OPTIONS'', ''PATCH'', ''POST'',
       ''PUT'', ''TRACE''})\<rparr>"

definition submit_request :: http_request where
  "submit_request = \<lparr>rq_Method = ''POST'',
     rq_Path = ''/v1/policies/00000000-0000-0000-0000-000000000007/submit'',
     rq_Authorization = ''Bearer alice-token'', rq_Query = [], rq_Body = []\<rparr>"

theorem writes_need_the_write_scope_witness:
  "\<exists>ls. t_audit (db (snd (ServeHTTP demo_web (demo_env []) (live_server None None True) submit_request demo_world)))
     = ls \<and> ls \<noteq> [] \<and> (\<forall>l \<in> set ls. ActorID l = ''alice'')"
proof -
  let ?run = "ServeHTTP demo_web (demo_env []) (live_server None None True) submit_request demo_world"
  let ?path = "''00000000-0000-0000-0000-000000000007''"
  let ?ctx = "\<lparr>cx_Subject = Some ''alice'', cx_Scope = Some ''policy:read policy:write''\<rparr>"
  have "split_on (CHR ''/'') (rq_Path submit_request) = [[], ''v1'', ''policies'', ?path, ''submit'']"
    "ValidateJWT (web_verify demo_web) submit_request = Inr ?ctx" "rq_Method submit_request = ''POST''"
    "write_scope \<in> set (Fields (ScopeFromContext ?ctx))"
    "web_method_known demo_web (rq_Method submit_request)" by code_simp+
  then have "?run = Submit_handler (demo_env []) (live_service None) ?ctx ?path demo_world"
    by (simp add: ServeHTTP_def serve_v1_def write_route_def scope_guard_def RequireScope_def Let_def)
  moreover have "parse_canonical_uuid ?path = Some 7" by code_simp
  ultimately have "snd ?run = snd (PolicyService_Submit (demo_env []) (live_service None) 7 ''alice'' demo_world)"
    by (simp add: Submit_handler_def parseUUID_def SubjectFromContext_def transition_response_world)
  moreover have "length (t_audit (db (snd (PolicyService_Submit (demo_env []) (live_service None) 7 ''alice''
      demo_world)))) = 1" by code_simp
  ultimately have 1: "length (t_audit (db (snd ?run))) = 1" by simp
  have 2: "t_audit (db demo_world) = []" "txn demo_world = None" by code_simp+
  have 3: "web_verify demo_web raw = Jwt_token True claims \<Longrightarrow> string_claim claims ''sub'' = ''alice''" for raw claims
    by (auto simp: demo_web_def string_claim_def split: if_splits)
  obtain rs w' where run: "?run = (rs, w')" by (cases ?run)
  have "db w' \<noteq> db demo_world" using 1 2(1) unfolding run by auto
  with writes_need_the_write_scope [OF run 2(2)] obtain raw claims ls where
    "web_verify demo_web raw = Jwt_token True claims" "t_audit (db w') = ls"
    "\<forall>l \<in> set ls. ActorID l = string_claim claims ''sub''"
    using 2(1) by auto
  with 3 1 show ?thesis unfolding run by auto
qed

section \<open>Statuses\<close>

text \<open>The status of a transition request, from the parsed id and the status it has to be in.\<close>

definition expected_status :: "tables \<Rightarrow> uuid option \<Rightarrow> policy_status \<Rightarrow> bool \<Rightarrow> int" where
  "expected_status t parsed needed texts_ok =
     (case parsed of
        None \<Rightarrow> 400
      | Some i \<Rightarrow>
          (case policy_at t i of
             None \<Rightarrow> 404
           | Some p \<Rightarrow> if Status p \<noteq> needed then 409 else if texts_ok then 200 else 500))"

lemma Transition_from:
  "Transition s EventSubmit =
     (if s = StatusDraft then Inr StatusSubmitted else Inl (TransitionErr ErrInvalidTransition))"
  "Transition s EventActivate =
     (if s = StatusSubmitted then Inr StatusActive else Inl (TransitionErr ErrInvalidTransition))"
  "Transition s EventCancel =
     (if s = StatusActive then Inr StatusCancelled else Inl (TransitionErr ErrInvalidTransition))"
  by (simp_all add: Transition_def transitionTable_unfold status_defs event_defs)

lemma status_of_outcome:
  assumes "calm E" "wf_tables (db w)" "\<forall>n. env_uuid E n \<notin> log_ID ` set (t_audit (db w))"
    and "\<And>s. Transition s ev =
      (if s = needed then Inr s' else Inl (TransitionErr ErrInvalidTransition))"
  shows "rs_Status (fst (transition_response E (applyTransition E (live_service nats) i ev actor reason w))) =
    expected_status (db w) (Some i) needed (text_ok actor \<and> text_ok reason)"
proof -
  have "fst (applyTransition E (live_service nats) i ev actor reason w) =
      transition_outcome (db w) i ev actor reason (env_now E (Suc (tick w)))"
    using assms(1-3) by (rule calm_applyTransition)
  then obtain w' where "applyTransition E (live_service nats) i ev actor reason w =
      (transition_outcome (db w) i ev actor reason (env_now E (Suc (tick w))), w')"
    by (metis prod.collapse)
  then show ?thesis
    by (simp add: transition_response_def transition_outcome_def expected_status_def assms(4)
        writeTransitionError_def internal_error_def status_code_defs split: option.splits)
qed

text \<open>A decoded reason is valid UTF-8, so that only a NUL character keeps it out of the audit log.\<close>

lemma decode_members_valid:
  assumes "\<And>k v x y. set_field k v x = Some y \<Longrightarrow> valid_utf8 (f x) \<Longrightarrow> valid_utf8 (f y)"
  shows "decode_members set_field ms x = Some y \<Longrightarrow> valid_utf8 (f x) \<Longrightarrow> valid_utf8 (f y)"
proof (induction ms arbitrary: x)
  case (Cons m ms)
  then show ?case by (cases m) (auto split: bind_splits dest: assms)
qed simp

lemma decoded_reason:
  assumes "decode_cancel s = Some body"
  shows "text_ok (cr_Reason body) \<longleftrightarrow> CHR 0x00 \<notin> set (cr_Reason body)"
proof -
  have "valid_utf8 (cr_Reason y)"
    if "cancel_field k v x = Some y" "valid_utf8 (cr_Reason x)" for k v x y
    using that by (auto simp: cancel_field_def string_field_def dest: unquote_valid
        split: if_splits json.splits)
  from decode_members_valid [of cancel_field cr_Reason, OF this] assms
  have "valid_utf8 (cr_Reason body)"
    by (auto simp: decode_cancel_def Decode_def split: option.splits json.splits)
  then show ?thesis by (simp add: text_ok_def)
qed

lemma fixed_reasons: "text_ok []" "text_ok ReasonUnderwriterApproved"
  by code_simp+

text \<open>
  C18. When no call fails, the answers to the transition requests are decided by the id, the
  status of the policy and the texts of the audit row: 400 for an id that does not parse, and for
  a cancellation whose body does not decode, 404 for an unknown policy, 409 when the policy is not in the stage the transition starts from,
  422 for a cancellation without a reason, and 200 otherwise. The one way to a 500 is a text the
  database does not take: a subject or, for a cancellation, a reason with a NUL character,
  which a JSON body can carry and the handler lets through.
\<close>

theorem transition_status_codes:
  assumes "calm E" and "wf_tables (db w)"
    and "\<forall>n. env_uuid E n \<notin> log_ID ` set (t_audit (db w))"
  shows "rs_Status (fst (Submit_handler E (live_service nats) ctx param w)) =
      expected_status (db w) (env_uuid_Parse E param) StatusDraft (text_ok (SubjectFromContext ctx)) \<and>
    rs_Status (fst (Activate_handler E (live_service nats) ctx param w)) =
      expected_status (db w) (env_uuid_Parse E param) StatusSubmitted (text_ok (SubjectFromContext ctx)) \<and>
    rs_Status (fst (Cancel_handler E (live_service nats) ctx param r w)) =
      (case (env_uuid_Parse E param, decode_cancel (rq_Body r)) of
         (Some i, Some body) \<Rightarrow>
           if cr_Reason body = [] then 422
           else expected_status (db w) (Some i) StatusActive
             (text_ok (SubjectFromContext ctx) \<and> CHR 0x00 \<notin> set (cr_Reason body))
       | _ \<Rightarrow> 400)"
proof -
  note outcome = Transition_from [THEN status_of_outcome [OF assms]]
  have "text_ok (cr_Reason body) \<longleftrightarrow> CHR 0x00 \<notin> set (cr_Reason body)"
    if "decode_cancel (rq_Body r) = Some body" for body
    using that by (rule decoded_reason)
  then show ?thesis
    using outcome [of nats]
    by (cases "decode_cancel (rq_Body r)"; cases "env_uuid_Parse E param")
      (auto simp: Submit_handler_def Activate_handler_def Cancel_handler_def parseUUID_def
        PolicyService_Submit_def PolicyService_Activate_def PolicyService_CancelActive_def
        expected_status_def status_code_defs fixed_reasons)
qed

text \<open>For the example: an active policy and a reason that is a single NUL character.\<close>

definition nul_reason_request :: http_request where
  "nul_reason_request = submit_request\<lparr>rq_Body := Encode (json_object [(''reason'', json_string [CHR 0x00])])\<rparr>"

theorem transition_status_codes_witness:
  "rs_Status (fst (Activate_handler (demo_env []) (live_service None) empty_context
     ''00000000-0000-0000-0000-000000000007'' demo_world)) = 409 \<and>
   rs_Status (fst (Cancel_handler (demo_env []) (live_service None) empty_context
     ''00000000-0000-0000-0000-000000000007'' nul_reason_request demo_active)) = 500"
proof -
  have 1: "wf_tables (db demo_world)" "wf_tables (db demo_active)" by code_simp+
  have 2: "t_audit (db demo_world) = []" "t_audit (db demo_active) = []" by code_simp+
  have 3: "expected_status (db demo_world)
      (parse_canonical_uuid ''00000000-0000-0000-0000-000000000007'') StatusSubmitted (text_ok []) = 409"
    "expected_status (db demo_active) (Some 7) StatusActive False = 500"
    "parse_canonical_uuid ''00000000-0000-0000-0000-000000000007'' = Some 7"
    "SubjectFromContext empty_context = []"
    by code_simp+
  have 4: "decode_cancel (rq_Body nul_reason_request) =
      Some \<lparr>cr_Reason = to_valid [CHR 0x00], cr_EffectiveDate = time_zero\<rparr>"
    by (simp add: nul_reason_request_def decode_cancel_def Decode_object maxNestingDepth_def cancel_field_def
        field_names)
  have 5: "to_valid [CHR 0x00] = [CHR 0x00]" by code_simp
  show ?thesis
    using transition_status_codes [OF calm_demo 1(1), of None empty_context]
      transition_status_codes [OF calm_demo 1(2), of None empty_context
        "''00000000-0000-0000-0000-000000000007''" nul_reason_request] 2 3
    by (simp add: 4 5)
qed

text \<open>
  C40. Without a document store the document endpoints do not exist: a request to them that the guards
  in front let through is answered 404, whatever the policy, and never 503. The guards are the
  router's, which answers 405 to a method it does not know, and, with authentication on, the
  token check, which answers a request it does not accept itself.
\<close>

theorem no_store_no_document_routes:
  assumes "split_on (CHR ''/'') (rq_Path r) = [[], ''v1'', ''policies'', i, ''documents'', ''attestation''] \<or>
      split_on (CHR ''/'') (rq_Path r) = [[], ''v1'', ''policies'', i, ''documents'']"
  shows "ServeHTTP W E (live_server nats None auth) r w =
      (if \<not> web_method_known W (rq_Method r) then (method_not_allowed, w)
       else if \<not> auth then (not_found, w)
       else (case ValidateJWT (web_verify W) r of Inl rs \<Rightarrow> (rs, w) | Inr ctx \<Rightarrow> (not_found, w))) \<and>
    rs_Status (fst (ServeHTTP W E (live_server nats None auth) r w)) \<in> {401, 404, 405}"
proof -
  have 1: "ServeHTTP W E (live_server nats None auth) r w =
      (if \<not> web_method_known W (rq_Method r) then (method_not_allowed, w)
       else if \<not> auth then (not_found, w)
       else (case ValidateJWT (web_verify W) r of Inl rs \<Rightarrow> (rs, w) | Inr ctx \<Rightarrow> (not_found, w)))"
    using assms by (elim disjE) (auto simp: ServeHTTP_def serve_v1_def split: sum.splits)
  then show ?thesis
    using ValidateJWT_Inl [of "web_verify W" r]
    by (auto simp: not_found_def method_not_allowed_def status_code_defs split: sum.splits)
qed

theorem no_store_no_document_routes_witness:
  "rs_Status (fst (ServeHTTP demo_web (demo_env []) (live_server None None False)
     (submit_request\<lparr>rq_Path := ''/v1/policies/7/documents/attestation''\<rparr>) demo_world)) = 404 \<and>
   rs_Status (fst (ServeHTTP demo_web (demo_env []) (live_server None None True)
     (submit_request\<lparr>rq_Path := ''/v1/policies/7/documents/attestation'', rq_Authorization := []\<rparr>) demo_world)) = 401"
proof -
  let ?r = "submit_request\<lparr>rq_Path := ''/v1/policies/7/documents/attestation''\<rparr>"
  let ?r' = "submit_request\<lparr>rq_Path := ''/v1/policies/7/documents/attestation'', rq_Authorization := []\<rparr>"
  have 1: "split_on (CHR ''/'') (rq_Path ?r) = [[], ''v1'', ''policies'', ''7'', ''documents'', ''attestation'']"
    "split_on (CHR ''/'') (rq_Path ?r') = [[], ''v1'', ''policies'', ''7'', ''documents'', ''attestation'']"
    by code_simp+
  have 2: "web_method_known demo_web (rq_Method ?r)" "web_method_known demo_web (rq_Method ?r')"
    by code_simp+
  have 3: "case ValidateJWT (web_verify demo_web) ?r' of Inl rs \<Rightarrow> rs_Status rs = 401 | Inr ctx \<Rightarrow> False"
    by code_simp
  show ?thesis
    using no_store_no_document_routes [OF disjI1, OF 1(1), of demo_web "demo_env []" None False]
      no_store_no_document_routes [OF disjI1, OF 1(2), of demo_web "demo_env []" None True] 2 3
    by (auto simp: not_found_def status_code_defs split: sum.splits)
qed

section \<open>Following the cursors\<close>

lemma strict_sorted_distinct:
  fixes key :: "'a \<Rightarrow> 'k :: linorder"
  assumes "sorted_wrt (\<lambda>x y. key y < key x) xs"
  shows "distinct xs"
  using assms by (induction xs) auto

text \<open>
  A client that lists the policies: it sends the status filter and the limit it wants, and asks
  again with the cursor of each answer until there is none. It gives up after the given
  number of requests.
\<close>

definition list_request :: "string \<Rightarrow> string \<Rightarrow> string \<Rightarrow> http_request" where
  "list_request status limit cursor = \<lparr>rq_Method = ''GET'', rq_Path = ''/v1/policies'',
     rq_Authorization = [], rq_Query = [(''status'', status), (''limit'', limit), (''cursor'', cursor)],
     rq_Body = []\<rparr>"

fun fetch_pages ::
    "nat \<Rightarrow> env \<Rightarrow> policy_service \<Rightarrow> string \<Rightarrow> string \<Rightarrow> string \<Rightarrow> world \<Rightarrow>
      policy_response list option" where
  "fetch_pages 0 E svc status limit cursor w = None"
| "fetch_pages (Suc n) E svc status limit cursor w =
     (case ListPolicies E svc (list_request status limit cursor) w of (rs, w1) \<Rightarrow>
        (case rs_Body rs of
           PolicyList_json items next_cursor \<Rightarrow>
             (if next_cursor = [] then Some items
              else map_option (\<lambda>rest. items @ rest)
                (fetch_pages n E svc status limit next_cursor w1))
         | _ \<Rightarrow> None))"

definition status_filter :: "string \<Rightarrow> policy_status option" where
  "status_filter s = (if s = [] then None else Some s)"

definition page_limit :: "string \<Rightarrow> int" where
  "page_limit l = lp_Limit (list_request_params (list_request [] l []))"

lemma list_request_params_simps:
  "list_request_params (list_request s l c) =
     \<lparr>lp_Status = status_filter s, lp_Cursor = c, lp_Limit = page_limit l\<rparr>"
  by (simp add: list_request_params_def list_request_def query_Get_def status_filter_def
      page_limit_def Let_def)

lemma page_limit_bounds: "0 < page_limit l" "page_limit l \<le> 100"
  by (auto simp: page_limit_def list_request_params_def Let_def split: option.splits)

text \<open>The cursors a client gets, and the keys they stand for.\<close>

definition cursor_for :: "env \<Rightarrow> page_key option \<Rightarrow> string \<Rightarrow> bool" where
  "cursor_for E k c \<longleftrightarrow>
     (case k of
        None \<Rightarrow> c = []
      | Some (Page_Key t i) \<Rightarrow>
          c = EncodeCursor E t i \<and> printable_year t \<and> env_timestamptz E t = t)"

context sound_env
begin

lemma List_page:
  assumes "calm E" and "cursor_for E k c" and "0 < n" "n \<le> 100" and "pred_option text_ok st"
  shows "PolicyRepo_List E \<lparr>lp_Status = st, lp_Cursor = c, lp_Limit = n\<rparr> w =
    (Inr (take (nat n) (rows_below st k (db w))), w\<lparr>tick := Suc (tick w)\<rparr>)"
  using assms cursor.dec_enc cursor.enc_not_Nil
  by (auto simp: PolicyRepo_List_def cursor_for_def Let_def calm_Query_text texts_check_def select_page_rows
      split: option.splits page_key.splits)

text \<open>The answer to one list request, in terms of the rows that are left.\<close>

lemma ListPolicies_page:
  assumes "calm E" and "cursor_for E k c" and "text_ok s"
    and n_def: "n = nat (page_limit l)"
    and page_def: "page = take n (rows_below (status_filter s) k (db w))"
  shows "ListPolicies E (live_service nats) (list_request s l c) w =
    (json_response StatusOK (PolicyList_json (map (toResponse E) page)
       (if length page = n then EncodeCursor E (CreatedAt (last page)) (ID (last page)) else [])),
     w\<lparr>tick := Suc (tick w)\<rparr>)"
proof -
  have n: "0 < n" "int n = page_limit l" using page_limit_bounds [of l] by (simp_all add: n_def)
  have "PolicyService_List E (live_service nats) (list_request_params (list_request s l c)) w =
      (Inr page, w\<lparr>tick := Suc (tick w)\<rparr>)"
    using List_page [OF assms(1,2) page_limit_bounds, of "status_filter s" l w] assms(3)
    by (simp add: status_filter_def PolicyService_List_def list_request_params_simps page_def n_def)
  moreover have "length page = n \<Longrightarrow> page ! (length page - 1) = last page"
    using n(1) by (metis last_conv_nth length_0_conv less_numeral_extra(3))
  ultimately show ?thesis
    using n by (simp add: ListPolicies_def list_request_params_simps Let_def)
qed

text \<open>Rows the cursors can point to.\<close>

definition listable :: "tables \<Rightarrow> bool" where
  "listable t \<longleftrightarrow> (\<forall>p \<in> set (t_policies t).
     printable_year (CreatedAt p) \<and> env_timestamptz E (CreatedAt p) = CreatedAt p)"

lemma fetch_rest:
  assumes "calm E" and "wf_tables (db w)" and "listable (db w)" and "cursor_for E k c" and "text_ok s"
    and "length (rows_below (status_filter s) k (db w)) < fuel"
  shows "fetch_pages fuel E (live_service nats) s l c w =
    Some (map (toResponse E) (rows_below (status_filter s) k (db w)))"
  using assms(2-4,6)
proof (induction fuel arbitrary: w k c)
  case 0
  then show ?case by simp
next
  case (Suc fuel)
  define n where "n = nat (page_limit l)"
  define rows where "rows = rows_below (status_filter s) k (db w)"
  define page where "page = take n rows"
  have n: "0 < n" using page_limit_bounds [of l] by (simp add: n_def)
  note ask = ListPolicies_page [OF assms(1) Suc.prems(3) assms(5) n_def page_def [unfolded rows_def]]
  show ?case
  proof (cases "length page = n")
    case False
    then have "page = rows" by (simp add: page_def)
    with False ask show ?thesis by (simp add: rows_def)
  next
    case True
    with n have ne: "page \<noteq> []" by auto
    define p where "p = last page"
    have rest: "rows = page @ rows_below (status_filter s) (Some (policy_key p)) (db w)"
      unfolding rows_def p_def using Suc.prems(1) _ ne
      by (rule page_then_rest) (simp add: page_def rows_def)
    have "p \<in> set page" using ne by (simp add: p_def)
    then have "p \<in> set rows" unfolding page_def by (rule in_set_takeD)
    then have "p \<in> set (t_policies (db w))" by (auto simp: rows_def set_rows_below)
    with Suc.prems(2) have "cursor_for E (Some (policy_key p)) (EncodeCursor E (CreatedAt p) (ID p))"
      by (simp add: cursor_for_def policy_key_def listable_def)
    moreover have "length (rows_below (status_filter s) (Some (policy_key p)) (db w)) < fuel"
    proof -
      have "length rows = n + length (rows_below (status_filter s) (Some (policy_key p)) (db w))"
        using rest True by (metis length_append)
      with Suc.prems(4) n show ?thesis by (simp add: rows_def)
    qed
    ultimately have "fetch_pages fuel E (live_service nats) s l (EncodeCursor E (CreatedAt p) (ID p))
        (w\<lparr>tick := Suc (tick w)\<rparr>) =
      Some (map (toResponse E) (rows_below (status_filter s) (Some (policy_key p)) (db w)))"
      using Suc.IH [of "w\<lparr>tick := Suc (tick w)\<rparr>"] Suc.prems by simp
    with ask True rest show ?thesis
      by (simp add: p_def [symmetric] cursor.enc_not_Nil rows_def [symmetric])
  qed
qed

end

text \<open>
  C9. Following the cursors visits every matching policy exactly once, newest first, and ends. In an
  environment whose time and UUID conversions behave as documented and in which no call fails,
  a client that asks for pages of any size until it gets no cursor, may ask more often than
  there are policies and filters by text the database takes, receives all the policies of the status it filters by and no
  others, in strictly descending order of creation time and id.
\<close>

theorem pages_cover_the_list:
  assumes "sound_env E" and "calm E" and "wf_tables (db w)"
    and "\<forall>p \<in> set (t_policies (db w)). printable_year (CreatedAt p) \<and> env_timestamptz E (CreatedAt p) = CreatedAt p"
    and "length (t_policies (db w)) < fuel" and "text_ok status"
  shows "\<exists>rows. fetch_pages fuel E (live_service nats) status limit [] w = Some (map (toResponse E) rows) \<and>
    distinct rows \<and>
    set rows = {p \<in> set (t_policies (db w)). status = [] \<or> Status p = status} \<and>
    sorted_wrt (\<lambda>p q. policy_key q < policy_key p) rows"
proof -
  let ?rows = "rows_below (status_filter status) None (db w)"
  have "length ?rows \<le> length (t_policies (db w))"
    by (simp add: rows_below_def select_policies_def)
  with assms(5) have fuel: "length ?rows < fuel" by simp
  have "fetch_pages fuel E (live_service nats) status limit [] w = Some (map (toResponse E) ?rows)"
    using sound_env.fetch_rest [OF assms(1,2,3) _ _ assms(6) fuel] assms(4) sound_env.listable_def [OF assms(1)]
    by (simp add: cursor_for_def)
  moreover have sorted: "sorted_wrt (\<lambda>p q. policy_key q < policy_key p) ?rows"
    using assms(3) by (rule rows_below_strict)
  moreover from sorted have "distinct ?rows"
    by (intro strict_sorted_distinct) 
  moreover have "set ?rows = {p \<in> set (t_policies (db w)). status = [] \<or> Status p = status}"
    by (auto simp: set_rows_below status_filter_def)
  ultimately show ?thesis by blast
qed

theorem pages_cover_the_list_witness:
  "\<exists>rows. fetch_pages 3 (demo_env []) (live_service None) [] ''1'' []
      (init_world (empty_tables\<lparr>t_policies := [demo_policy, demo_policy\<lparr>ID := 8, PolicyNumber := ''P-8''\<rparr>]\<rparr>)) =
      Some (map (toResponse (demo_env [])) rows) \<and> distinct rows \<and>
    set rows = {demo_policy, demo_policy\<lparr>ID := 8, PolicyNumber := ''P-8''\<rparr>}"
proof -
  let ?w = "init_world (empty_tables\<lparr>t_policies := [demo_policy, demo_policy\<lparr>ID := 8, PolicyNumber := ''P-8''\<rparr>]\<rparr>)"
  have 1: "wf_tables (db ?w)" by code_simp
  have 2: "\<forall>p \<in> set (t_policies (db ?w)). printable_year (CreatedAt p) \<and> floor_micros (CreatedAt p) = CreatedAt p"
    by code_simp
  have 3: "t_policies (db ?w) = [demo_policy, demo_policy\<lparr>ID := 8, PolicyNumber := ''P-8''\<rparr>]" by code_simp
  have sound: "sound_env (demo_env [])" by (rule demo.sound_env_axioms)
  show ?thesis
    using pages_cover_the_list [OF sound calm_demo 1, of 3 "[]" None "''1''"] 2 fixed_reasons(1) by (simp add: 3) blast
qed

section \<open>Reading back what was created\<close>

lemma Format_RFC3339_second:
  "t div nanos_per_second = u div nanos_per_second \<Longrightarrow> Format_RFC3339 t = Format_RFC3339 u"
  by (simp add: Format_RFC3339_def format_date_time_def split_day)

lemma toResponse_row:
  assumes "\<forall>t. env_timestamptz E t div nanos_per_second = t div nanos_per_second"
  shows "toResponse E (policy_row E p) = toResponse E p"
  using assms by (simp add: toResponse_def) (auto intro: Format_RFC3339_second)

lemma create_error_status: "rs_Status (create_error e) \<noteq> StatusCreated"
  by (simp add: create_error_def internal_error_def status_code_defs)

lemma CreatePolicy_created:
  assumes "CreatePolicy W E svc ctx r w = (rs, w')" and "rs_Status rs = StatusCreated"
  obtains req eff expiry p p' where "decode_create (rq_Body r) = Some req"
    "Parse_RFC3339 (cp_EffectiveDate req) = Some eff" "Parse_RFC3339 (cp_ExpiryDate req) = Some expiry"
    "p = zero_policy\<lparr>PolicyNumber := cp_PolicyNumber req, HolderName := cp_HolderName req,
      ProductCode := cp_ProductCode req, EffectiveDate := eff, ExpiryDate := expiry\<rparr>"
    "PolicyService_Create E svc p (SubjectFromContext ctx) w = (Inr p', w')"
    "rs = json_response StatusCreated (Policy_json (toResponse E p'))"
proof -
  have "StatusBadRequest \<noteq> StatusCreated" by (simp add: status_code_defs)
  then show thesis
    using assms that create_error_status
    by (auto simp: CreatePolicy_def Let_def split: option.splits prod.splits sum.splits)
qed

text \<open>
  C15. What is created can be read back: after a creation that is answered 201, a GET with the id of
  the answer is answered 200 with the same body, byte for byte the same dates, provided the
  columns keep the seconds of an instant and no call of the creation or the GET fails. The policy is a draft.
\<close>

theorem created_policy_reads_back:
  assumes "sound_env E" and "calm E"
    and "\<forall>t. env_timestamptz E t div nanos_per_second = t div nanos_per_second"
    and "CreatePolicy W E (live_service nats) ctx r w = (rs, w')" and "rs_Status rs = 201"
  shows "\<exists>pr. rs_Body rs = Policy_json pr \<and> pr_Status pr = ''draft'' \<and>
    fst (GetPolicy E (live_service nats) (pr_ID pr) w') = json_response 200 (Policy_json pr)"
proof -
  have "rs_Status rs = StatusCreated" using assms(5) by (simp add: status_code_defs)
  with assms(4) obtain req eff expiry p p' where
    create: "PolicyService_Create E (live_service nats) p (SubjectFromContext ctx) w = (Inr p', w')"
    and rs: "rs = json_response StatusCreated (Policy_json (toResponse E p'))"
    by (rule CreatePolicy_created)
  from create have "policy_at (db w') (ID p') = Some (policy_row E p') \<and> Status p' = StatusDraft"
  proof (cases rule: live.Create_cases)
    case (stored q u n)
    with policy_at_inserted(1) [OF stored(4)] show ?thesis by simp
  qed simp_all
  moreover have "env_uuid_Parse E (env_uuid_String E u) = Some u" for u
    using sound_env.axioms(2) [OF assms(1)] by (simp add: uuid_text.read_show)
  ultimately have "fst (GetPolicy E (live_service nats) (pr_ID (toResponse E p')) w') =
      json_response 200 (Policy_json (toResponse E p'))" and "pr_Status (toResponse E p') = ''draft''"
    using calm_GetByID [OF assms(2), of nats "ID p'" w'] toResponse_row [OF assms(3), of p']
    by (simp_all add: GetPolicy_def toResponse_def [of E p'] StatusDraft_def StatusOK_def)
  with rs show ?thesis by simp
qed

lemma floor_micros_second: "floor_micros t div nanos_per_second = t div nanos_per_second"
proof -
  have "t div nanos_per_second = t div 1000 div 1000000"
    using zdiv_zmult2_eq [of 1000000 t 1000] by (simp add: nanos_per_second_def)
  moreover have "t div 1000 * 1000 div nanos_per_second = t div 1000 div 1000000"
    using zdiv_zmult2_eq [of 1000000 "t div 1000 * 1000" 1000] by (simp add: nanos_per_second_def)
  ultimately show ?thesis by (simp add: floor_micros_def)
qed

text \<open>The body a client sends to create a policy.\<close>

definition create_body :: "string \<Rightarrow> string \<Rightarrow> string \<Rightarrow> string \<Rightarrow> string \<Rightarrow> bytes" where
  "create_body number holder product effective expiry = Encode (json_object
     [(''policy_number'', json_string number), (''holder_name'', json_string holder),
      (''product_code'', json_string product), (''effective_date'', json_string effective),
      (''expiry_date'', json_string expiry)])"

lemma decode_create_body:
  "decode_create (create_body number holder product effective expiry) =
     Some \<lparr>cp_PolicyNumber = to_valid number, cp_HolderName = to_valid holder,
       cp_ProductCode = to_valid product, cp_EffectiveDate = to_valid effective,
       cp_ExpiryDate = to_valid expiry\<rparr>"
  by (simp add: create_body_def decode_create_def Decode_object maxNestingDepth_def create_field_def field_names)

definition create_request :: http_request where
  "create_request = \<lparr>rq_Method = ''POST'', rq_Path = ''/v1/policies'',
     rq_Authorization = ''Bearer alice-token'', rq_Query = [],
     rq_Body = create_body ''P-8'' ''Ada'' ''AUTO'' ''2026-09-01T00:00:00Z'' ''2027-09-01T00:00:00+02:00''\<rparr>"

lemma create_request_body:
  "rq_Body create_request =
     create_body ''P-8'' ''Ada'' ''AUTO'' ''2026-09-01T00:00:00Z'' ''2027-09-01T00:00:00+02:00''"
  by (simp add: create_request_def)

lemma create_request_dates:
  "Parse_RFC3339 (to_valid ''2026-09-01T00:00:00Z'') = Some 1788220800000000000"
  "Parse_RFC3339 (to_valid ''2027-09-01T00:00:00+02:00'') = Some 1819749600000000000"
  by code_simp+

lemma create_request_created:
  "rs_Status (fst (CreatePolicy demo_web (demo_env []) (live_service None) empty_context create_request
     demo_world)) = 201"
proof -
  let ?p = "zero_policy\<lparr>PolicyNumber := to_valid ''P-8'', HolderName := to_valid ''Ada'',
    ProductCode := to_valid ''AUTO'', EffectiveDate := 1788220800000000000,
    ExpiryDate := 1819749600000000000\<rparr>"
  have "case fst (PolicyService_Create (demo_env []) (live_service None) ?p [] demo_world) of
      Inl e \<Rightarrow> False | Inr p \<Rightarrow> True" by code_simp
  then obtain p w' where
    "PolicyService_Create (demo_env []) (live_service None) ?p [] demo_world = (Inr p, w')"
    by (cases "PolicyService_Create (demo_env []) (live_service None) ?p [] demo_world") (auto split: sum.splits)
  then show ?thesis
    by (simp add: CreatePolicy_def create_request_body decode_create_body create_request_dates demo_web_def
        SubjectFromContext_def empty_context_def status_code_defs)
qed

theorem created_policy_reads_back_witness:
  "let (rs, w') = CreatePolicy demo_web (demo_env []) (live_service None) empty_context create_request demo_world
   in \<exists>pr. rs_Body rs = Policy_json pr \<and>
     fst (GetPolicy (demo_env []) (live_service None) (pr_ID pr) w') = json_response 200 (Policy_json pr)"
proof -
  let ?run = "CreatePolicy demo_web (demo_env []) (live_service None) empty_context create_request demo_world"
  obtain rs w' where run: "?run = (rs, w')" by (cases ?run)
  have "rs_Status rs = 201" using create_request_created unfolding run by simp
  from created_policy_reads_back [OF demo.sound_env_axioms calm_demo _ run this]
  show ?thesis unfolding run Let_def by (auto simp: floor_micros_second)
qed

end
