(* ===== verification/Answers.thy ===== *)
theory Answers
  imports Api
begin

text \<open>
  What a client reads in an answer: every answer of the router has one of a few shapes, and a
  created policy is answered with the values that were sent.
\<close>

section \<open>The shapes of an answer\<close>

text \<open>
  Documents of the content type are what a parser finds in the bytes of the body. A problem
  repeats the status of its answer.
\<close>

definition well_typed :: "http_response \<Rightarrow> bool" where
  "well_typed rs \<longleftrightarrow>
     (let parsed = first_value (body_bytes (rs_Body rs))
      in if rs_ContentType rs = ''application/json''
         then rs_Status rs \<in> {200, 201} \<and> parsed \<noteq> None
         else if rs_ContentType rs = ''application/problem+json''
         then rs_Status rs \<in> {400, 401, 403, 404, 409, 422, 500, 503} \<and>
           Option.bind parsed (member ''status'') = Some (json_int (rs_Status rs)) \<and>
           Option.bind parsed (member ''title'') \<noteq> None
         else rs_ContentType rs \<in> {[], ''text/plain; charset=utf-8''} \<and>
           (rs_Status rs, body_bytes (rs_Body rs)) \<in>
             {(204, []), (405, []), (404, ''404 page not found'' @ [CHR 0x0A])})"

lemma problem_names:
  "to_valid ''type'' = ''type''" "to_valid ''title'' = ''title''" "to_valid ''status'' = ''status''"
  "to_valid ''detail'' = ''detail''"
  by code_simp+

lemma well_typed_json [simp]:
  "well_typed (json_response s body) \<longleftrightarrow> s \<in> {200, 201} \<and> first_value (body_bytes body) \<noteq> None"
  by (simp add: well_typed_def json_response_def)

lemma parsed_payload: "payload_json body = Some v \<Longrightarrow> first_value (body_bytes body) = Some v"
  by (rule body_parses)

lemma well_typed_problem [simp]:
  "well_typed (writeProblem s ti de) \<longleftrightarrow> s \<in> {400, 401, 403, 404, 409, 422, 500, 503}"
proof -
  let ?p = "\<lparr>pb_Type = ''about:blank'', pb_Title = ti, pb_Status = s, pb_Detail = de\<rparr>"
  have "member ''status'' (problem_json ?p) = Some (json_int s)"
    "member ''title'' (problem_json ?p) = Some (json_string ti)"
    by (simp_all add: problem_json_def member_object omitempty_def problem_names)
  then show ?thesis
    by (simp add: well_typed_def writeProblem_def parsed_payload)
qed

lemma well_typed_auth [simp]:
  "well_typed (writeAuthProblem s ti de) \<longleftrightarrow> s \<in> {400, 401, 403, 404, 409, 422, 500, 503}"
proof -
  let ?p = "\<lparr>ap_Title = ti, ap_Status = s, ap_Detail = de\<rparr>"
  have "member ''status'' (auth_problem_json ?p) = Some (json_int s)"
    "member ''title'' (auth_problem_json ?p) = Some (json_string ti)"
    by (simp_all add: auth_problem_json_def member_object omitempty_def problem_names)
  then show ?thesis
    by (simp add: well_typed_def writeAuthProblem_def parsed_payload)
qed

lemma parsed_answers [simp]:
  "first_value (body_bytes (Policy_json p)) \<noteq> None"
  "first_value (body_bytes (PolicyList_json items cursor)) \<noteq> None"
  "first_value (body_bytes (History_json logs)) \<noteq> None"
  "first_value (body_bytes (Attestation_json i u t)) \<noteq> None"
  "first_value (body_bytes (Documents_json ds)) \<noteq> None"
  "first_value (body_bytes (Health_json kvs)) \<noteq> None"
  by (simp_all add: parsed_payload)

lemma well_typed_healthz [simp]: "well_typed (healthz W sv)"
  by (simp only: healthz_def well_typed_json parsed_answers) (simp add: status_code_defs)

lemma well_typed_internal [simp]: "well_typed internal_error"
  by (simp add: internal_error_def status_code_defs)

lemma well_typed_rest [simp]:
  "well_typed not_found" "well_typed method_not_allowed" "well_typed no_content"
  by (simp_all add: well_typed_def not_found_def method_not_allowed_def no_content_def body_bytes_def
      status_code_defs)

text \<open>The errors of a handler, and its answers.\<close>

lemma well_typed_errors [simp]:
  "well_typed (create_error e)" "well_typed (update_error e)" "well_typed (cancel_error e)"
  "well_typed (writeTransitionError e)" "well_typed (writeDocumentError e)"
  by (simp_all add: create_error_def update_error_def cancel_error_def writeTransitionError_def
      writeDocumentError_def status_code_defs)

lemma well_typed_transition: "well_typed (fst (transition_response E res))"
  by (simp add: transition_response_def status_code_defs split: prod.splits sum.splits)

lemma parseUUID_Inl: "parseUUID E s = Inl rs \<Longrightarrow> well_typed rs"
  by (auto simp: parseUUID_def status_code_defs split: option.splits)

lemma well_typed_policy_handlers:
  "well_typed (fst (CreatePolicy W E svc ctx r w))"
  "well_typed (fst (GetPolicy E svc i w))"
  "well_typed (fst (ListPolicies E svc r w))"
  "well_typed (fst (UpdatePolicy W E svc i r w))"
  "well_typed (fst (CancelPolicy E svc i w))"
  by (simp_all add: CreatePolicy_def GetPolicy_def ListPolicies_def UpdatePolicy_def CancelPolicy_def
      Let_def status_code_defs split: option.splits sum.splits prod.splits)

lemma well_typed_transition_handlers:
  "well_typed (fst (Submit_handler E svc ctx i w))"
  "well_typed (fst (Activate_handler E svc ctx i w))"
  "well_typed (fst (Cancel_handler E svc ctx i r w))"
  "well_typed (fst (History_handler E svc i w))"
  by (simp_all add: Submit_handler_def Activate_handler_def Cancel_handler_def History_handler_def
      well_typed_transition parseUUID_Inl status_code_defs split: option.splits sum.splits prod.splits)

lemma well_typed_document_handlers:
  "well_typed (fst (GenerateAttestation_handler E ds i w))"
  "well_typed (fst (ListDocuments_handler E ds i w))"
  by (simp_all add: GenerateAttestation_handler_def ListDocuments_handler_def parseUUID_Inl
      status_code_defs split: option.splits sum.splits prod.splits)

lemma well_typed_endpoint: "well_typed (fst (run_endpoint W E sv ctx ep i r w))"
  by (cases ep) (simp_all add: well_typed_policy_handlers well_typed_transition_handlers
      well_typed_document_handlers split: option.splits)

lemma well_typed_v1: "well_typed (fst (serve_v1 W E sv ctx segs r w))"
  by (auto simp: serve_v1_def scope_guard_def RequireScope_def well_typed_endpoint Let_def
      status_code_defs split: option.splits)

lemma ValidateJWT_typed: "ValidateJWT verify r = Inl rs \<Longrightarrow> well_typed rs"
  by (auto simp: ValidateJWT_def Let_def status_code_defs split: if_splits jwt_answer.splits)

text \<open>
  C19. Every request is logged once, with its method and path, and answered by its handler. Every
  answer, for any request, any configuration and any failing calls, is of one of three shapes: a JSON document with status 200 or 201; a problem document with a client or
  server error that its \<^verbatim>\<open>status\<close> member repeats; or one of the answers without a document, 204,
  405 and the router's plain 404. In the first two the bytes of the body parse.
\<close>

theorem answers_are_well_typed:
  "case RequestLogger (ServeHTTP W E sv) reqID r (logs, w) of
     (rs, logs', w') \<Rightarrow> well_typed rs \<and> (rs, w') = ServeHTTP W E sv r w \<and>
       logs' = logs @ [\<lparr>ll_Method = rq_Method r, ll_Path = rq_Path r, ll_ID = reqID\<rparr>]"
proof -
  have "well_typed (fst (ServeHTTP W E sv r w))"
    using ValidateJWT_typed [of "web_verify W" r]
    by (auto simp: ServeHTTP_def Let_def well_typed_v1 split: sum.splits)
  then show ?thesis by (cases "ServeHTTP W E sv r w") (simp add: RequestLogger_def)
qed

section \<open>Creating over the wire\<close>

lemma to_valid_twice [simp]: "to_valid (to_valid s) = to_valid s"
  by (intro to_valid_id valid_to_valid)

lemma response_names:
  "to_valid ''id'' = ''id''" "to_valid ''created_at'' = ''created_at''" "to_valid ''updated_at'' = ''updated_at''"
  "to_valid ''draft'' = ''draft''"
  by code_simp+

text \<open>
  C14. What a client sends to create a policy is what it gets back and what is stored: when the answer
  is 201, its bytes parse to a document with the number, the holder and the product of the
  body, bytes that are no UTF-8 replaced, with the status draft and with the two dates as the
  UTC seconds of the instants that were sent; and the policy with the id of the answer is
  stored with these texts. This holds for every pattern of failing calls.
\<close>

theorem created_policy_echoes_the_request:
  assumes "rq_Body r = create_body number holder product effective expiry"
    and "CreatePolicy W E (live_service nats) ctx r w = (rs, w')" and "rs_Status rs = 201"
  shows "\<exists>v u p. first_value (body_bytes (rs_Body rs)) = Some v \<and>
    Option.bind (member ''policy_number'' v) text_of = Some (to_valid number) \<and>
    Option.bind (member ''holder_name'' v) text_of = Some (to_valid holder) \<and>
    Option.bind (member ''product_code'' v) text_of = Some (to_valid product) \<and>
    Option.bind (member ''status'' v) text_of = Some ''draft'' \<and>
    Option.bind (member ''effective_date'' v) text_of =
      map_option Format_RFC3339 (Parse_RFC3339 (to_valid effective)) \<and>
    Option.bind (member ''expiry_date'' v) text_of =
      map_option Format_RFC3339 (Parse_RFC3339 (to_valid expiry)) \<and>
    Option.bind (member ''id'' v) text_of = Some (to_valid (env_uuid_String E u)) \<and>
    policy_at (db w') u = Some p \<and> PolicyNumber p = to_valid number \<and>
    HolderName p = to_valid holder \<and> ProductCode p = to_valid product"
proof -
  have "rs_Status rs = StatusCreated" using assms(3) by (simp add: status_code_defs)
  with assms(2) obtain req eff exp p p' where req: "decode_create (rq_Body r) = Some req"
    "Parse_RFC3339 (cp_EffectiveDate req) = Some eff" "Parse_RFC3339 (cp_ExpiryDate req) = Some exp"
    "p = zero_policy\<lparr>PolicyNumber := cp_PolicyNumber req, HolderName := cp_HolderName req,
      ProductCode := cp_ProductCode req, EffectiveDate := eff, ExpiryDate := exp\<rparr>"
    and create: "PolicyService_Create E (live_service nats) p (SubjectFromContext ctx) w = (Inr p', w')"
    and rs: "rs = json_response StatusCreated (Policy_json (toResponse E p'))"
    by (rule CreatePolicy_created)
  have stored: "policy_at (db w') (ID p') = Some (policy_row E p') \<and> Status p' = StatusDraft \<and>
      PolicyNumber p' = PolicyNumber p \<and> HolderName p' = HolderName p \<and> ProductCode p' = ProductCode p \<and>
      EffectiveDate p' = EffectiveDate p \<and> ExpiryDate p' = ExpiryDate p"
    using create
  proof (cases rule: live.Create_cases)
    case (stored q u n)
    with policy_at_inserted(1) [OF stored(4)] show ?thesis by simp
  qed simp_all
  have "first_value (body_bytes (rs_Body rs)) = Some (policy_json (toResponse E p'))"
    unfolding rs by (simp add: parsed_payload)
  moreover have "req = \<lparr>cp_PolicyNumber = to_valid number, cp_HolderName = to_valid holder,
      cp_ProductCode = to_valid product, cp_EffectiveDate = to_valid effective,
      cp_ExpiryDate = to_valid expiry\<rparr>"
    using req(1) assms(1) by (simp add: decode_create_body)
  ultimately show ?thesis
    using stored req(2-4)
    by (intro exI [of _ "policy_json (toResponse E p')"] exI [of _ "ID p'"] exI [of _ "policy_row E p'"])
      (simp add: policy_json_def toResponse_def member_object field_names response_names problem_names
        StatusDraft_def)
qed

theorem created_policy_echoes_the_request_witness:
  "let (rs, w') = CreatePolicy demo_web (demo_env []) (live_service None) empty_context create_request demo_world
   in \<exists>v. first_value (body_bytes (rs_Body rs)) = Some v \<and>
     Option.bind (member ''holder_name'' v) text_of = Some ''Ada'' \<and>
     Option.bind (member ''expiry_date'' v) text_of = Some ''2027-08-31T22:00:00Z''"
proof -
  let ?run = "CreatePolicy demo_web (demo_env []) (live_service None) empty_context create_request demo_world"
  have 2: "to_valid ''Ada'' = ''Ada''"
    "Format_RFC3339 1819749600000000000 = ''2027-08-31T22:00:00Z''" by code_simp+
  obtain rs w' where run: "?run = (rs, w')" by (cases ?run)
  have "rs_Status rs = 201" using create_request_created unfolding run by simp
  from created_policy_echoes_the_request [OF create_request_body run this] show ?thesis
    unfolding run Let_def 2 by (auto simp: create_request_dates 2)
qed

end
