(* ===== verification/Server.thy ===== *)
theory Server
  imports Answers
begin

text \<open>
  The entry point (\<^verbatim>\<open>cmd/server/main.go\<close>): from the configuration to the server that listens, with
  the connections the process holds. What viper, the key set, the pool, the migrations tool,
  MinIO and NATS answer are arguments (\<open>viper\<close>, \<open>answers\<close>). A run is the list of the steps that
  open and close something, listen or end the process; log lines are left out. Closing the pool
  waits until every connection taken from it is back, so a run can also end blocked.
\<close>

section \<open>Configuration\<close>

datatype setting = Str string | Num int | Flag bool

definition viper_defaults :: "(string \<times> setting) list" where
  "viper_defaults =
     [(''port'', Str ''8080''), (''read_timeout_s'', Num 10), (''write_timeout_s'', Num 10),
      (''dsn'', Str []), (''authentik_jwks_url'', Str []), (''minio_endpoint'', Str []),
      (''minio_access_key'', Str []), (''minio_secret_key'', Str []), (''minio_use_ssl'', Flag False),
      (''minio_public_url'', Str []), (''document_url_ttl_s'', Num 3600),
      (''nats_url'', Str ''nats://nats.nats.svc.cluster.local:4222''), (''nats_ca_cert'', Str [])]"

text \<open>The getters; \<^verbatim>\<open>GetInt\<close> is a 64-bit int.\<close>

record viper =
  GetString :: "string \<Rightarrow> string"
  GetInt :: "string \<Rightarrow> int64"
  GetBool :: "string \<Rightarrow> bool"

text \<open>\<^verbatim>\<open>time.Duration(viper.GetInt(key)) * time.Second\<close>, which wraps around.\<close>

definition seconds_setting :: "viper \<Rightarrow> string \<Rightarrow> duration" where
  "seconds_setting V key = GetInt V key * second"

section \<open>Authentication\<close>

record keyfunc_override =
  RefreshInterval :: duration
  NoErrorReturnFirstHTTPReq :: bool

definition NewJWKSMiddleware ::
    "(string list \<Rightarrow> keyfunc_override \<Rightarrow> error + (string \<Rightarrow> jwt_answer)) \<Rightarrow> string \<Rightarrow>
      error + (http_request \<Rightarrow> http_response + request_context)" where
  "NewJWKSMiddleware keyfunc jwksURL =
     (case keyfunc [jwksURL] \<lparr>RefreshInterval = 5 * 60 * second, NoErrorReturnFirstHTTPReq = True\<rparr> of
        Inl e \<Rightarrow> Inl e
      | Inr verify \<Rightarrow> Inr (ValidateJWT verify))"

section \<open>Steps\<close>

text \<open>
  What the process holds: the connection pool, the connection the migrations driver takes from
  the pool, and the connection to NATS.
\<close>

datatype resource = Pool | Migration_conn | Nats_conn

datatype main_step = Open_res resource | Close_res resource | Blocked | Listen | Shutdown | Exit int

text \<open>
  The steps of the program text, in its order, are a plan; this is what happens of it: after
  \<^verbatim>\<open>os.Exit\<close> nothing, and nothing after \<^verbatim>\<open>pgxpool.Close\<close> when a connection is still taken from
  the pool, since it \<^emph>\<open>blocks until all connections are returned\<close>.
\<close>

fun perform :: "resource set \<Rightarrow> main_step list \<Rightarrow> main_step list" where
  "perform R [] = []"
| "perform R (Open_res r # steps) = Open_res r # perform (insert r R) steps"
| "perform R (Close_res r # steps) =
     (if r = Pool \<and> Migration_conn \<in> R then [Blocked] else Close_res r # perform (R - {r}) steps)"
| "perform R (Exit n # steps) = [Exit n]"
| "perform R (s # steps) = s # perform R steps"

text \<open>The answer of \<^verbatim>\<open>m.Up\<close>.\<close>

datatype up_answer = Up_done | Up_no_change | Up_failed error

record answers =
  an_keyfunc :: "string list \<Rightarrow> keyfunc_override \<Rightarrow> error + (string \<Rightarrow> jwt_answer)"
  an_pool :: "string \<Rightarrow> error option"
  an_driver :: "(error \<times> bool) option"
  an_source :: "error option"
  an_migrate :: "error option"
  an_up :: up_answer
  an_minio :: "string \<Rightarrow> string \<Rightarrow> string \<Rightarrow> bool \<Rightarrow> error + minio_store"
  an_bucket_exists :: "error + bool"
  an_bucket_made :: "error option"
  an_lifecycle :: "error option"
  an_render :: "pdf_call list \<Rightarrow> error + bytes"
  an_pem_ok :: "string \<Rightarrow> bool"
  an_dial :: "string \<Rightarrow> nats_options \<Rightarrow> error option"
  an_jetstream :: "error option"
  an_stream :: "stream_config \<Rightarrow> error option"
  an_nats_up :: bool

text \<open>
  \<^verbatim>\<open>runMigrations\<close>. A driver that was made has taken a connection from the pool, and making one
  can fail before or after that (the flag of \<open>an_driver\<close>); neither the driver nor the \<^verbatim>\<open>sql.DB\<close>
  around the pool is closed.
\<close>

definition runMigrations :: "answers \<Rightarrow> error option \<times> main_step list" where
  "runMigrations A =
     (case an_driver A of
        Some (e, taken) \<Rightarrow> (Some e, if taken then [Open_res Migration_conn] else [])
      | None \<Rightarrow>
          (case an_source A of
             Some e \<Rightarrow> (Some e, [Open_res Migration_conn])
           | None \<Rightarrow>
               (case an_migrate A of
                  Some e \<Rightarrow> (Some e, [Open_res Migration_conn])
                | None \<Rightarrow>
                    (case an_up A of
                       Up_failed e \<Rightarrow> (Some e, [Open_res Migration_conn])
                     | _ \<Rightarrow> (None, [Open_res Migration_conn])))))"

section \<open>Start-up\<close>

definition connect_store :: "viper \<Rightarrow> answers \<Rightarrow> error + document_backend option" where
  "connect_store V A =
     (let ep = GetString V ''minio_endpoint'';
          urlTTL = seconds_setting V ''document_url_ttl_s''
      in if ep = [] then Inr None
         else (case NewMinIOStore
                 (an_minio A ep (GetString V ''minio_access_key'') (GetString V ''minio_secret_key'')
                   (GetBool V ''minio_use_ssl''))
                 (an_bucket_exists A) (an_bucket_made A) (an_lifecycle A) urlTTL
                 (GetString V ''minio_public_url'') of
                 Inl e \<Rightarrow> Inl e
               | Inr store \<Rightarrow> Inr (Some (an_render A, store, urlTTL))))"

text \<open>The publisher, when NATS can be reached; that it cannot is only logged.\<close>

definition connect_events :: "viper \<Rightarrow> answers \<Rightarrow> bool option" where
  "connect_events V A =
     (let natsURL = GetString V ''nats_url''
      in if natsURL = [] then None
         else (case Connect (an_pem_ok A) (an_dial A) (an_jetstream A) (an_stream A) natsURL
                 (GetString V ''nats_ca_cert'') of
                 (Some e, _) \<Rightarrow> None
               | (None, _) \<Rightarrow> Some (an_nats_up A)))"

text \<open>\<^verbatim>\<open>Close\<close> of the publisher, when there is one.\<close>

definition Publisher_Close :: "bool option \<Rightarrow> main_step list" where
  "Publisher_Close nats = (case nats of None \<Rightarrow> [] | Some up \<Rightarrow> [Close_res Nats_conn])"

text \<open>
  What \<^verbatim>\<open>main\<close> has when it starts to listen: the steps so far, the JWT middleware, the server behind
  it, and the deferred closes, the last one first.
\<close>

record started =
  st_steps :: "main_step list"
  st_jwtMw :: "(http_request \<Rightarrow> http_response + request_context) option"
  st_server :: server
  st_defers :: "main_step list"

definition offline_server :: "bool \<Rightarrow> server" where
  "offline_server auth = \<lparr>sv_svc = offline_service, sv_docs = None, sv_auth = auth\<rparr>"

text \<open>Up to the middleware, and from there to the services.\<close>

definition start_auth ::
    "viper \<Rightarrow> answers \<Rightarrow> error + (http_request \<Rightarrow> http_response + request_context) option" where
  "start_auth V A =
     (let jwksURL = GetString V ''authentik_jwks_url''
      in if jwksURL = [] then Inr None
         else (case NewJWKSMiddleware (an_keyfunc A) jwksURL of
                 Inl e \<Rightarrow> Inl e
               | Inr mw \<Rightarrow> Inr (Some mw)))"

definition start_services ::
    "viper \<Rightarrow> answers \<Rightarrow> (http_request \<Rightarrow> http_response + request_context) option \<Rightarrow>
      main_step list + started" where
  "start_services V A jwtMw =
     (let dsn = GetString V ''dsn''
      in if dsn = []
         then Inr \<lparr>st_steps = [], st_jwtMw = jwtMw, st_server = offline_server (jwtMw \<noteq> None), st_defers = []\<rparr>
         else (case an_pool A dsn of
                 Some e \<Rightarrow> Inl [Exit 1]
               | None \<Rightarrow>
                   (case runMigrations A of
                      (Some e, ms) \<Rightarrow> Inl (Open_res Pool # ms @ [Close_res Pool, Exit 1])
                    | (None, ms) \<Rightarrow>
                        (case connect_store V A of
                           Inl e \<Rightarrow> Inl (Open_res Pool # ms @ [Close_res Pool, Exit 1])
                         | Inr docs \<Rightarrow>
                             (let nats = connect_events V A;
                                  opened = (if nats = None then [] else [Open_res Nats_conn]);
                                  closing = Publisher_Close nats
                              in Inr \<lparr>st_steps = Open_res Pool # ms @ opened, st_jwtMw = jwtMw,
                                   st_server = live_server nats docs (jwtMw \<noteq> None),
                                   st_defers = Close_res Pool # closing\<rparr>)))))"

definition start :: "viper \<Rightarrow> answers \<Rightarrow> main_step list + started" where
  "start V A =
     (case start_auth V A of
        Inl e \<Rightarrow> Inl [Exit 1]
      | Inr jwtMw \<Rightarrow> start_services V A jwtMw)"

section \<open>Listening\<close>

record http_server =
  Addr :: string
  ReadTimeout :: duration
  WriteTimeout :: duration

definition http_server_of :: "viper \<Rightarrow> http_server" where
  "http_server_of V = \<lparr>Addr = '':'' @ GetString V ''port'',
     ReadTimeout = seconds_setting V ''read_timeout_s'',
     WriteTimeout = seconds_setting V ''write_timeout_s''\<rparr>"

text \<open>
  How the wait for a signal ends: \<^verbatim>\<open>ListenAndServe\<close> fails, which ends the process from its goroutine,
  or a signal arrives.
\<close>

datatype wait_end = Listen_failed error | Signalled

text \<open>What \<^verbatim>\<open>main\<close> sets out to do, the deferred closes of a normal return included, and what it does.\<close>

definition main_plan :: "viper \<Rightarrow> answers \<Rightarrow> wait_end \<Rightarrow> main_step list" where
  "main_plan V A ending =
     (case start V A of
        Inl steps \<Rightarrow> steps
      | Inr st \<Rightarrow>
          (case ending of
             Listen_failed e \<Rightarrow> st_steps st @ [Listen, Exit 1]
           | Signalled \<Rightarrow> st_steps st @ [Listen, Shutdown] @ st_defers st))"

definition main_run :: "viper \<Rightarrow> answers \<Rightarrow> wait_end \<Rightarrow> main_step list" where
  "main_run V A ending = perform {} (main_plan V A ending)"

section \<open>What the process holds\<close>

fun holds :: "resource set \<Rightarrow> main_step list \<Rightarrow> resource set" where
  "holds R [] = R"
| "holds R (Open_res r # steps) = holds (insert r R) steps"
| "holds R (Close_res r # steps) = holds (R - {r}) steps"
| "holds R (s # steps) = holds R steps"

lemma holds_append [simp]: "holds R (xs @ ys) = holds (holds R xs) ys"
  by (induction R xs rule: holds.induct) auto

lemma runMigrations_steps: "snd (runMigrations A) \<in> {[], [Open_res Migration_conn]}"
  by (auto simp: runMigrations_def split: option.splits up_answer.splits)

lemma runMigrations_driver: "runMigrations A = (None, ms) \<Longrightarrow> ms = [Open_res Migration_conn]"
  by (auto simp: runMigrations_def split: option.splits up_answer.splits)

text \<open>The plans of a start-up that fails, and of one that ends in a server.\<close>

lemma start_Inl:
  assumes "start V A = Inl steps"
  shows "steps \<in> {[Exit 1], [Open_res Pool, Close_res Pool, Exit 1],
    [Open_res Pool, Open_res Migration_conn, Close_res Pool, Exit 1]}"
  using assms runMigrations_steps [of A]
  by (auto simp: start_def start_services_def Let_def split: sum.splits if_splits option.splits prod.splits)

lemma start_Inr:
  assumes "start V A = Inr st"
  shows "st_steps st = (if GetString V ''dsn'' = [] then [] else [Open_res Pool, Open_res Migration_conn]) @
      (if svc_pub (sv_svc (st_server st)) = None then [] else [Open_res Nats_conn])"
    and "\<exists>later. st_defers st = (if GetString V ''dsn'' = [] then [] else Close_res Pool # later)"
  using assms runMigrations_driver [of A]
  by (auto simp: start_def start_services_def Let_def offline_server_def Publisher_Close_def
      split: sum.splits if_splits option.splits prod.splits)

section \<open>The server that listens\<close>

lemma connect_store_None: "connect_store V A = Inr docs \<Longrightarrow> docs = None \<longleftrightarrow> GetString V ''minio_endpoint'' = []"
  by (auto simp: connect_store_def Let_def split: if_splits sum.splits)

lemma start_auth_Inr:
  assumes "start_auth V A = Inr mw"
  shows "mw = None \<longleftrightarrow> GetString V ''authentik_jwks_url'' = []"
    and "mw = Some f \<Longrightarrow> \<exists>verify. an_keyfunc A [GetString V ''authentik_jwks_url'']
      \<lparr>RefreshInterval = 300 * second, NoErrorReturnFirstHTTPReq = True\<rparr> = Inr verify \<and> f = ValidateJWT verify"
  using assms by (auto simp: start_auth_def NewJWKSMiddleware_def Let_def split: if_splits sum.splits)

lemma start_server:
  assumes "start V A = Inr st"
  shows "start_auth V A = Inr (st_jwtMw st)"
    and "GetString V ''dsn'' = [] \<Longrightarrow> st_server st = offline_server (st_jwtMw st \<noteq> None)"
    and "GetString V ''dsn'' \<noteq> [] \<Longrightarrow> \<exists>docs. connect_store V A = Inr docs \<and>
      st_server st = live_server (connect_events V A) docs (st_jwtMw st \<noteq> None)"
  using assms
  by (auto simp: start_def start_services_def Let_def split: sum.splits if_splits option.splits prod.splits)

text \<open>Without a DSN a creation succeeds, and the policy is not there afterwards.\<close>

theorem offline_creations_are_lost:
  assumes "PolicyService_Create E offline_service p actor w = (Inr p', w')"
  shows "db w' = db w \<and> fst (PolicyService_GetByID E offline_service (ID p') w') = Inl (ServiceErr ErrPolicyNotFound)"
  using assms
  by (auto simp: PolicyService_Create_def PolicyService_GetByID_def uuid_New_def time_Now_def Let_def
      NullPolicyRepo_def publish_def split: option.splits)

theorem offline_creations_succeed:
  assumes "Policy_Validate p = None"
  shows "\<exists>p'. fst (PolicyService_Create E offline_service p actor w) = Inr p'"
  using assms
  by (simp add: PolicyService_Create_def uuid_New_def time_Now_def Let_def NullPolicyRepo_def)

text \<open>
  C20. The configuration decides what is served, and the migrations what is left open. Start-up
  either fails, without listening: then the process ends with status 1 and holds nothing, unless
  the migrations have taken their connection, in which case it hangs in the close of the pool and
  never exits. Or it reaches a server that authenticates exactly when a JWKS URL is set, with the
  tokens of the key set fetched from it, and that is the one on the database exactly when a DSN is
  set, with document endpoints exactly when a MinIO endpoint is set and with events when NATS could
  be connected. After a signal the process without database returns; the one with a database
  hangs in the close of the pool, so that the connection to NATS, to be closed after it, stays
  open. A listener that fails ends the process with status 1 and everything still open.
\<close>

theorem startup_decides_the_server:
  "case start V A of
     Inl steps \<Rightarrow>
       Listen \<notin> set (main_run V A ending) \<and>
       (if Open_res Migration_conn \<in> set (main_run V A ending)
        then last (main_run V A ending) = Blocked \<and> Exit 1 \<notin> set (main_run V A ending) \<and>
          holds {} (main_run V A ending) = {Pool, Migration_conn}
        else last (main_run V A ending) = Exit 1 \<and> holds {} (main_run V A ending) = {})
   | Inr st \<Rightarrow>
       (st_jwtMw st = None \<longleftrightarrow> GetString V ''authentik_jwks_url'' = []) \<and>
       (st_jwtMw st = None \<or> (\<exists>verify. st_jwtMw st = Some (ValidateJWT verify) \<and>
          an_keyfunc A [GetString V ''authentik_jwks_url'']
            \<lparr>RefreshInterval = 300 * second, NoErrorReturnFirstHTTPReq = True\<rparr> = Inr verify)) \<and>
       (if GetString V ''dsn'' = [] then st_server st = offline_server (st_jwtMw st \<noteq> None)
        else \<exists>docs. st_server st = live_server (connect_events V A) docs (st_jwtMw st \<noteq> None) \<and>
          (docs = None \<longleftrightarrow> GetString V ''minio_endpoint'' = [])) \<and>
       main_run V A Signalled =
         st_steps st @ [Listen, Shutdown] @ (if GetString V ''dsn'' = [] then [] else [Blocked]) \<and>
       main_run V A (Listen_failed e) = st_steps st @ [Listen, Exit 1] \<and>
       holds {} (st_steps st) = (if GetString V ''dsn'' = [] then {} else {Pool, Migration_conn}) \<union>
         (if svc_pub (sv_svc (st_server st)) = None then {} else {Nats_conn}) \<and>
       holds {} (main_run V A Signalled) = holds {} (st_steps st) \<and>
       holds {} (main_run V A (Listen_failed e)) = holds {} (st_steps st)"
proof (cases "start V A")
  case (Inl steps)
  then have "main_run V A ending = perform {} steps" by (simp add: main_run_def main_plan_def)
  with start_Inl [OF Inl] Inl show ?thesis by auto
next
  case (Inr st)
  note started = start_server [OF Inr]
  have "st_jwtMw st = None \<or> (\<exists>verify. st_jwtMw st = Some (ValidateJWT verify) \<and>
      an_keyfunc A [GetString V ''authentik_jwks_url'']
        \<lparr>RefreshInterval = 300 * second, NoErrorReturnFirstHTTPReq = True\<rparr> = Inr verify)"
    using start_auth_Inr(2) [OF started(1)] by (cases "st_jwtMw st") auto
  moreover obtain later where
    "st_defers st = (if GetString V ''dsn'' = [] then [] else Close_res Pool # later)"
    using start_Inr(2) [OF Inr] by blast
  then have "main_run V A Signalled =
      st_steps st @ [Listen, Shutdown] @ (if GetString V ''dsn'' = [] then [] else [Blocked])"
    "main_run V A (Listen_failed e) = st_steps st @ [Listen, Exit 1]"
    using Inr start_Inr(1) [OF Inr] by (simp_all add: main_run_def main_plan_def)
  moreover have "\<exists>docs. st_server st = live_server (connect_events V A) docs (st_jwtMw st \<noteq> None) \<and>
      (docs = None \<longleftrightarrow> GetString V ''minio_endpoint'' = [])" if "GetString V ''dsn'' \<noteq> []"
    using started(3) [OF that] connect_store_None by metis
  moreover have "holds {} (st_steps st) = (if GetString V ''dsn'' = [] then {} else {Pool, Migration_conn}) \<union>
      (if svc_pub (sv_svc (st_server st)) = None then {} else {Nats_conn})"
    using start_Inr(1) [OF Inr] by auto
  ultimately show ?thesis
    using Inr start_auth_Inr(1) [OF started(1)] started(2) by simp
qed

text \<open>
  For the example: the defaults, a DSN and a JWKS URL, where everything answers but NATS.
\<close>

definition demo_viper :: viper where
  "demo_viper = \<lparr>GetString = (\<lambda>k. if k = ''dsn'' then ''postgres://db/policies''
       else if k = ''authentik_jwks_url'' then ''https://id/jwks''
       else case map_of viper_defaults k of Some (Str s) \<Rightarrow> s | _ \<Rightarrow> []),
     GetInt = (\<lambda>k. case map_of viper_defaults k of Some (Num n) \<Rightarrow> of_int n | _ \<Rightarrow> 0),
     GetBool = (\<lambda>_. False)\<rparr>"

definition demo_answers :: answers where
  "demo_answers = \<lparr>an_keyfunc = (\<lambda>_ _. Inr (web_verify demo_web)), an_pool = (\<lambda>_. None),
     an_driver = None, an_source = None, an_migrate = None, an_up = Up_no_change,
     an_minio = (\<lambda>_ _ _ _. Inr demo_store), an_bucket_exists = Inr True, an_bucket_made = None,
     an_lifecycle = None, an_render = demo_render, an_pem_ok = (\<lambda>_. True),
     an_dial = (\<lambda>_ _. Some (Plain ''no such host'')), an_jetstream = None, an_stream = (\<lambda>_. None),
     an_nats_up = False\<rparr>"

theorem startup_decides_the_server_witness:
  "\<exists>st. start demo_viper demo_answers = Inr st \<and> st_server st = live_server None None True \<and>
     last (main_run demo_viper demo_answers Signalled) = Blocked \<and>
     holds {} (main_run demo_viper demo_answers Signalled) = {Pool, Migration_conn}"
proof -
  have 1: "start demo_viper demo_answers = Inr \<lparr>st_steps = [Open_res Pool, Open_res Migration_conn],
      st_jwtMw = Some (ValidateJWT (web_verify demo_web)), st_server = live_server None None True,
      st_defers = [Close_res Pool]\<rparr>"
    by (simp add: demo_viper_def demo_answers_def viper_defaults_def start_def start_auth_def Let_def
        NewJWKSMiddleware_def start_services_def runMigrations_def connect_store_def connect_events_def
        Connect_def Publisher_Close_def)
  have 2: "GetString demo_viper ''dsn'' \<noteq> []" by code_simp
  show ?thesis using startup_decides_the_server [of demo_viper demo_answers] 2 by (simp add: 1)
qed

end
