(* ===== verification/Premiums.thy ===== *)
theory Premiums
  imports LiveService
begin

text \<open>
  Coverages and premiums: what their validation has to do with the constraints of their tables,
  and what marking a premium as paid does to the premiums of a policy. The repositories are
  those of \<^verbatim>\<open>repository/postgres/coverage.go\<close> and \<^verbatim>\<open>premium.go\<close> (theory Repositories).
\<close>

section \<open>Validation and constraints\<close>

lemma calm_create_coverage:
  assumes "calm E" and "policy_exists (cov_PolicyID c) (db w)"
    and "cov_ID c \<notin> cov_ID ` set (t_coverages (db w))"
  shows "fst (CoverageRepo_Create E c w) = coverages_checks c"
  using assms by (auto simp: CoverageRepo_Create_def calm_Exec insert_coverage_def image_iff
      split: option.splits sum.splits)

lemma calm_create_premium:
  assumes "calm E" and "policy_exists (prem_PolicyID p) (db w)"
    and "prem_ID p \<notin> prem_ID ` set (t_premiums (db w))"
  shows "fst (PremiumRepo_Create E p w) = premiums_checks (premium_row E p)"
proof -
  have "prem_ID (premium_row E p) = prem_ID p" "prem_PolicyID (premium_row E p) = prem_PolicyID p"
    by (simp_all add: premium_row_def)
  with assms show ?thesis
    by (auto simp: PremiumRepo_Create_def calm_Exec insert_premium_def image_iff
        split: option.splits sum.splits)
qed

lemma frequencies_text: "text_ok ''monthly''" "text_ok ''quarterly''" "text_ok ''annual''"
  by code_simp+

text \<open>
  C34. When no call fails, the policy exists, the id is new and the type is text the database takes,
  \<^verbatim>\<open>Validate\<close> accepts exactly the coverages with a type that the table takes: the two checks of
  the amounts are the same. For a premium the table checks more: it is stored exactly when
  \<^verbatim>\<open>Validate\<close> accepts it and its frequency is one of the three of the code.
\<close>

theorem validation_matches_the_constraints:
  assumes "calm E"
    and "policy_exists (cov_PolicyID c) (db w)" and "cov_ID c \<notin> cov_ID ` set (t_coverages (db w))"
    and "text_ok (cov_Type c)"
    and "policy_exists (prem_PolicyID p) (db w)" and "prem_ID p \<notin> prem_ID ` set (t_premiums (db w))"
  shows "(Coverage_Validate c = None \<longleftrightarrow>
      cov_Type c \<noteq> [] \<and> fst (CoverageRepo_Create E c w) = None) \<and>
    (fst (PremiumRepo_Create E p w) = None \<longleftrightarrow>
      Premium_Validate p = None \<and> Frequency p \<in> {FrequencyMonthly, FrequencyQuarterly, FrequencyAnnual})"
proof -
  have "premiums_checks (premium_row E p) = premiums_checks p"
    by (simp add: premium_row_def premiums_checks_def chk_premium_amount_def chk_premium_frequency_def)
  moreover have "premiums_checks p = None \<longleftrightarrow>
      Premium_Validate p = None \<and> Frequency p \<in> {FrequencyMonthly, FrequencyQuarterly, FrequencyAnnual}"
    using frequencies_text
    by (auto simp: premiums_checks_def chk_premium_amount_def chk_premium_frequency_def Premium_Validate_def
        FrequencyMonthly_def FrequencyQuarterly_def FrequencyAnnual_def split: if_splits)
  moreover have "coverages_checks c = None \<longleftrightarrow> 0 < sint (InsuredAmount c) \<and> 0 \<le> sint (Deductible c)"
    using assms(4) by (auto simp: coverages_checks_def chk_deductible_def chk_insured_amount_def)
  ultimately show ?thesis
    using calm_create_coverage [OF assms(1-3)] calm_create_premium [OF assms(1,5,6)]
    by (auto simp: Coverage_Validate_def)
qed

text \<open>For the examples: a coverage and a premium of the policy of \<open>demo_world\<close>.\<close>

definition demo_coverage :: coverage where
  "demo_coverage = \<lparr>cov_ID = 1, cov_PolicyID = 7, cov_Type = ''fire'', InsuredAmount = 5000000,
     Deductible = 0\<rparr>"

definition demo_premium :: premium where
  "demo_premium = \<lparr>prem_ID = 2, prem_PolicyID = 7, Amount = 1200, Frequency = ''weekly'', DueDate = 0,
     PaidAt = None\<rparr>"

theorem validation_matches_the_constraints_witness:
  "fst (CoverageRepo_Create (demo_env []) demo_coverage demo_world) = None \<and>
   Premium_Validate demo_premium = None \<and>
   fst (PremiumRepo_Create (demo_env []) demo_premium demo_world) \<noteq> None"
proof -
  have 1: "policy_exists (cov_PolicyID demo_coverage) (db demo_world)"
    "cov_ID demo_coverage \<notin> cov_ID ` set (t_coverages (db demo_world))" "text_ok (cov_Type demo_coverage)"
    "policy_exists (prem_PolicyID demo_premium) (db demo_world)"
    "prem_ID demo_premium \<notin> prem_ID ` set (t_premiums (db demo_world))" by code_simp+
  have 2: "Coverage_Validate demo_coverage = None" "Premium_Validate demo_premium = None"
    "Frequency demo_premium \<notin> {FrequencyMonthly, FrequencyQuarterly, FrequencyAnnual}" by code_simp+
  show ?thesis using validation_matches_the_constraints [OF calm_demo 1] 2 by blast
qed

section \<open>Paying a premium\<close>

definition pay :: "uuid \<Rightarrow> time \<Rightarrow> premium \<Rightarrow> premium" where
  "pay i at p = (if prem_ID p = i then p\<lparr>PaidAt := Some at\<rparr> else p)"

lemma pay_simps [simp]: "prem_PolicyID (pay i at p) = prem_PolicyID p" "prem_ID (pay i at p) = prem_ID p"
  by (simp_all add: pay_def)

lemma filter_pay:
  "filter (\<lambda>p. prem_PolicyID p = k) (map (pay i at) ps) =
     map (pay i at) (filter (\<lambda>p. prem_PolicyID p = k) ps)"
  by (induction ps) simp_all

lemma marked_rows:
  "update_where (\<lambda>p. prem_ID p = i) (\<lambda>p. p\<lparr>PaidAt := Some at\<rparr>) ps = map (pay i at) ps"
  by (induction ps) (simp_all add: pay_def)

lemma MarkPaid_answered:
  assumes "PremiumRepo_MarkPaid E i at w = (r, w')" and "env_fault E (tick w) = None"
  shows "r = None" and "db w' = db w\<lparr>t_premiums := map (pay i (env_timestamptz E at)) (t_premiums (db w))\<rparr>"
  using assms unfolding PremiumRepo_MarkPaid_def
  by (auto elim!: db_Exec_cases simp: mark_premium_paid_def marked_rows)

text \<open>
  C35. Marking a premium as paid succeeds whenever the statement is answered, and sets its payment
  time, at the resolution of the column, and nothing else: a listing afterwards answers the same
  premiums of the policy, by due date, with that one paid at the given time, whether it was paid
  before or not. Marking an id that no premium has succeeds as well and changes nothing.
\<close>

theorem paying_sets_one_payment_time:
  assumes "env_fault E (tick w) = None" and "PremiumRepo_MarkPaid E i at w = (r, w1)"
    and "PremiumRepo_ListByPolicy E k w1 = (Inr ps, w2)"
  shows "r = None \<and>
    mset ps = mset (map (\<lambda>p. if prem_ID p = i then p\<lparr>PaidAt := Some (env_timestamptz E at)\<rparr> else p)
      (filter (\<lambda>p. prem_PolicyID p = k) (t_premiums (db w)))) \<and>
    sorted (map DueDate ps) \<and> (\<forall>p \<in> set ps. prem_ID p = i \<longrightarrow> IsPaid p) \<and>
    db w1 = db w\<lparr>t_premiums := t_premiums (db w1)\<rparr> \<and>
    (i \<notin> prem_ID ` set (t_premiums (db w)) \<longrightarrow> db w1 = db w)"
proof -
  have pay: "(\<lambda>p. if prem_ID p = i then p\<lparr>PaidAt := Some (env_timestamptz E at)\<rparr> else p) =
      pay i (env_timestamptz E at)" by (simp add: fun_eq_iff pay_def)
  note marked = MarkPaid_answered [OF assms(2,1)]
  have ps: "ps = sort_key DueDate (map (pay i (env_timestamptz E at))
      (filter (\<lambda>p. prem_PolicyID p = k) (t_premiums (db w))))"
    using assms(3) marked(2) unfolding PremiumRepo_ListByPolicy_def
    by (auto elim!: db_Query_cases simp: filter_pay)
  have "db w1 = db w" if "i \<notin> prem_ID ` set (t_premiums (db w))"
  proof -
    have "map (pay i (env_timestamptz E at)) (t_premiums (db w)) = t_premiums (db w)"
      using that by (intro map_idI) (auto simp: pay_def)
    with marked(2) show ?thesis by simp
  qed
  moreover have "IsPaid p" if "p \<in> set ps" "prem_ID p = i" for p
  proof -
    from that(1) obtain q where q: "p = pay i (env_timestamptz E at) q" unfolding ps by auto
    with that(2) have "prem_ID q = i" by simp
    then show ?thesis by (simp add: q IsPaid_def pay_def)
  qed
  ultimately show ?thesis unfolding pay using marked by (simp add: ps)
qed

theorem paying_sets_one_payment_time_witness:
  "let w = demo_world\<lparr>db := (db demo_world)\<lparr>t_premiums := [demo_premium\<lparr>PaidAt := Some 5000\<rparr>,
         demo_premium\<lparr>prem_ID := 3\<rparr>]\<rparr>\<rparr>;
       w1 = snd (PremiumRepo_MarkPaid (demo_env []) 2 9999 w)
   in \<exists>ps. fst (PremiumRepo_ListByPolicy (demo_env []) 7 w1) = Inr ps \<and>
     mset ps = {#demo_premium\<lparr>PaidAt := Some 9000\<rparr>, demo_premium\<lparr>prem_ID := 3\<rparr>#}"
proof -
  let ?w = "demo_world\<lparr>db := (db demo_world)\<lparr>t_premiums := [demo_premium\<lparr>PaidAt := Some 5000\<rparr>,
    demo_premium\<lparr>prem_ID := 3\<rparr>]\<rparr>\<rparr>"
  obtain r w1 where mark: "PremiumRepo_MarkPaid (demo_env []) 2 9999 ?w = (r, w1)" by fastforce
  obtain q w2 where list: "PremiumRepo_ListByPolicy (demo_env []) 7 w1 = (q, w2)" by fastforce
  have calm: "env_fault (demo_env []) (tick ?w) = None" by (simp add: demo_env_def)
  obtain ps where q: "q = Inr ps" using list by (auto simp: PremiumRepo_ListByPolicy_def calm_Query)
  have rows: "filter (\<lambda>p. prem_PolicyID p = 7) (t_premiums (db ?w)) =
      [demo_premium\<lparr>PaidAt := Some 5000\<rparr>, demo_premium\<lparr>prem_ID := 3\<rparr>]"
    by (simp add: demo_premium_def)
  have "mset ps = {#demo_premium\<lparr>PaidAt := Some 9000\<rparr>, demo_premium\<lparr>prem_ID := 3\<rparr>#}"
    using paying_sets_one_payment_time [OF calm mark list [unfolded q]] unfolding rows
    by (simp add: demo_premium_def floor_micros_def)
  with mark list q show ?thesis by (simp add: Let_def)
qed

end
