(* ===== verification/Spec2Isabelle.thy ===== *)
theory Spec2Isabelle
  imports Server Premiums
begin

text \<open>
  Verification of the policy service: the Go program that keeps insurance policies in
  PostgreSQL, moves them through their lifecycle, announces every move on NATS and issues PDF
  attestations. This file is the root of the development; it only gathers the theories.

  \<^bold>\<open>The program and its theories.\<close> Definitions keep the names of the code; a method \<open>m\<close> of a type
  \<open>T\<close> is \<open>T_m\<close>.

  \<^item> Prelude, GoErrors, Env: the Go types and errors the rest uses, and the environment. A
    \<^verbatim>\<open>time.Time\<close> is its instant in nanoseconds (an \<open>int\<close>), an \<^verbatim>\<open>int64\<close> a 64 bit word, a
    \<^verbatim>\<open>uuid.UUID\<close> a 128 bit word, a string the list of its bytes. \<open>errors_Is\<close> is \<^verbatim>\<open>errors.Is\<close>.
  \<^item> GoTime, Base64, Utf8, Json: the parts of the standard library the program depends on:
    package time (printing and parsing RFC 3339), encoding/base64 (the cursors), unicode/utf8
    and encoding/json (request bodies, answers and event messages, down to the bytes).
  \<^item> Domain: the entities and validation of \<^verbatim>\<open>internal/domain/policy.go\<close>, \<^verbatim>\<open>coverage.go\<close>,
    \<^verbatim>\<open>premium.go\<close> and the records of \<^verbatim>\<open>ports.go\<close>. Lifecycle: \<^verbatim>\<open>state_machine.go\<close>, with the
    abstract lifecycle (\<open>stage\<close>, \<open>advances\<close>) it refines.
  \<^item> Schema: the tables the migrations under \<^verbatim>\<open>db/migrations\<close> create, with their constraints,
    and the SQL statements of the repositories as functions on tables. A text that is no UTF-8 or
    has a NUL character is refused before any other constraint. World: committed
    tables, open transaction, published events and stored objects, and the database calls.
  \<^item> Ports: the Go interfaces as records, their contracts as locales. PolicyRepo, Pagination,
    Repositories: \<^verbatim>\<open>internal/repository/postgres\<close> and the no-op repositories, which interpret
    the contracts. Premiums: coverages and premiums over their repositories. PolicyEvents,
    Publisher: \<^verbatim>\<open>internal/events\<close>, the publisher as an interpretation of the publisher port.
  \<^item> PolicyService: \<^verbatim>\<open>policy_service.go\<close>, one definition per method. ServiceContract: what the
    methods guarantee over any ports that keep their contracts. LiveService: the service as
    \<^verbatim>\<open>cmd/server/main.go\<close> composes it, interpreting those contracts.
  \<^item> Requests, Races: sequences of requests, and requests that overlap between their read and
    their write.
  \<^item> Attestation, Documents: \<^verbatim>\<open>internal/documents\<close> and \<^verbatim>\<open>document_service.go\<close>.
  \<^item> Http, Handlers, Router, Api, Answers: \<^verbatim>\<open>internal/api\<close>, the whole service behind its router,
    and what its answers look like to a client.
  \<^item> Server: \<^verbatim>\<open>cmd/server/main.go\<close>, from the configuration to the listening server and its
    shutdown, with the connections the process holds. The program text gives a plan of steps
    (\<open>main_plan\<close>); \<open>perform\<close> is what happens of it, since closing the pool waits for the
    connection the migrations have taken.

  \<^bold>\<open>Effects.\<close> A call that leaves the process (a statement, a transaction, an object store request,
  a clock reading, a new UUID) is numbered. \<open>env\<close> answers each number: whether the call fails,
  and then whether the server carried it out all the same. Theorems that do not assume
  \<open>calm E\<close> (no call fails) hold for every pattern of such failures. Statements fail with the
  error of the constraint they break; a failed statement aborts its transaction. A statement the
  server refuses because of a limit of its own, like the size of an entry in the index on the
  policy numbers, is a failing call. Stored objects are taken away only by the passes of
  the lifecycle rule the service sets on the bucket (\<open>expire_objects\<close>), which come between requests.

  \<^bold>\<open>What the lemmas show.\<close>
  \<^item> The transition table refines the abstract lifecycle; no policy comes into force without
    submit and activate; final stages are final (Lifecycle).
  \<^item> Each service method: its answer on every branch and its effect on the tables, faults
    included (ServiceContract, LiveService). A transition is atomic with its audit row, and its
    event is published after the commit.
  \<^item> Requests refine \<open>table_step\<close>, an inductive relation with five rules; by rule induction the
    audit trail explains every status, audit rows and policies are never lost, and published
    events are never phantoms (Requests). Overlapping requests keep the constraints and the
    log, but a stale update undoes a transition and stale submissions succeed, so that the log
    no longer explains the status (Races).
  \<^item> Attestations show their policy and are only given for policies in force; document rows
    have their objects until these expire; a listing pairs each document with its URL; keys of
    the same second collide; objects expire early (Attestation, Documents).
  \<^item> Scope checks are exact, changes need a write token, status codes are decided by the
    lifecycle, pages cover the list, a created policy reads back (Http, Api).
  \<^item> Printed JSON parses back, a published message carries its event, every answer has one of
    three shapes, and a creation echoes its body (Json, Publisher, Answers).
  \<^item> The checks of coverages and premiums against those of their tables, and payments (Premiums).
  \<^item> The configuration decides which server listens; a process whose migrations have taken their
    connection never gets past closing the pool (Server).

  \<^bold>\<open>Bounds and fuel.\<close> The retry loop is a \<open>function\<close> with a measure (three attempts). The only
  fuel is that of the client in \<open>fetch_pages\<close>, who may ask more often than there are policies;
  \<open>pages_cover_the_list\<close> shows that this is enough. The JSON reader recurses on the 10000 nested
  brackets the decoder allows; its loops, and those on UTF-8 text, consume their input.
  Everything else is structural recursion.

  \<^bold>\<open>Not modelled.\<close> Third-party code is an argument: the struct validator and the JWT library
  (fields of \<open>web\<close>), the methods chi knows (another one), chi's request ids, fpdf (from its calls to
  bytes), the signing of URLs and \<^verbatim>\<open>url.Parse\<close> of the public MinIO address, the broker, viper, the
  key set, the migrations tool and the pool (\<open>answers\<close>). Nothing in the model panics, so that
  chi's recovery has no part in it. Log lines other than the request log are left out. The
  migrations run in a tool that is not in the sources; the schema they leave is Schema.
\<close>

end
